(* ===== verification/Prelude.thy ===== *)
theory Prelude
  imports Main "HOL-Library.Word" "HOL-Library.Sublist"
begin

text \<open>
  Shared vocabulary of the development: the parts of Go and of its standard library that the
  services use (byte strings with \<open>strings.TrimSpace\<close>, \<open>strings.Contains\<close> and the \<open>%d\<close> verb,
  32-bit and 64-bit signed integers, contexts, panics), the gRPC status value, and the generic
  lemmas on lists, options and sums that the component theories use.

  A Go \<^emph>\<open>string\<close> is a byte string, hence the HOL type \<^typ>\<open>string\<close> of 8-bit characters; a string
  literal with characters beyond ASCII is its UTF-8 encoding. An \<^emph>\<open>error\<close> is represented by its
  text (what \<open>err.Error()\<close> returns) because the services inspect errors through that text only.
\<close>

section \<open>Collections of facts\<close>

named_theorems go_simps \<open>equations of the Go runtime model\<close>
named_theorems repo_simps \<open>unfolding equations of the repository operations\<close>
named_theorems handler_simps \<open>unfolding equations of the gRPC handlers\<close>

section \<open>Types\<close>

type_synonym int32 = "32 word"
type_synonym go_error = string
type_synonym duration = int   \<comment> \<open>\<open>time.Duration\<close>: an int64 count of nanoseconds\<close>
type_synonym time = int       \<comment> \<open>\<open>time.Time\<close> as nanoseconds since the epoch\<close>

text \<open>What a Go call does: it returns, or it panics.\<close>

datatype 'a outcome = Done 'a | Panicked

text \<open>
  \<open>context.Context\<close>, by construction: the background context, the context of the \<open>n\<close>-th incoming
  request, and \<open>context.WithTimeout\<close> of a context. Whether a deadline has passed is for the called
  driver to decide, so a context is only passed on.
\<close>

datatype ctx = Background | Request nat | WithTimeout ctx duration

abbreviation time_Second :: duration where "time_Second \<equiv> 1000000000"
abbreviation time_Minute :: duration where "time_Minute \<equiv> 60 * time_Second"

section \<open>Signed machine integers\<close>

definition wrap64 :: "int \<Rightarrow> int" where
  "wrap64 x = (x + 2 ^ 63) mod 2 ^ 64 - 2 ^ 63"

definition wrap32 :: "int \<Rightarrow> int" where
  "wrap32 x = (x + 2 ^ 31) mod 2 ^ 32 - 2 ^ 31"

text \<open>Go's integer division truncates towards zero.\<close>

definition quot64 :: "int \<Rightarrow> int \<Rightarrow> int" where
  "quot64 a b = sgn a * sgn b * (\<bar>a\<bar> div \<bar>b\<bar>)"

lemma wrap64_id [simp]: "- (2 ^ 63) \<le> x \<Longrightarrow> x < 2 ^ 63 \<Longrightarrow> wrap64 x = x"
  by (simp add: wrap64_def)

lemma wrap64_range: "- (2 ^ 63) \<le> wrap64 x \<and> wrap64 x < 2 ^ 63"
proof -
  have "0 \<le> (x + 2 ^ 63) mod 2 ^ 64" "(x + 2 ^ 63) mod 2 ^ 64 < 2 ^ 64"
    by simp_all
  then show ?thesis by (simp add: wrap64_def)
qed

lemma wrap32_id [simp]: "- (2 ^ 31) \<le> x \<Longrightarrow> x < 2 ^ 31 \<Longrightarrow> wrap32 x = x"
  by (simp add: wrap32_def)

lemma wrap32_range: "- (2 ^ 31) \<le> wrap32 x \<and> wrap32 x < 2 ^ 31"
proof -
  have "0 \<le> (x + 2 ^ 31) mod 2 ^ 32" "(x + 2 ^ 31) mod 2 ^ 32 < 2 ^ 32"
    by simp_all
  then show ?thesis by (simp add: wrap32_def)
qed

lemma quot64_nonneg: "0 \<le> a \<Longrightarrow> 0 < b \<Longrightarrow> quot64 a b = a div b"
  by (cases "a = 0") (simp_all add: quot64_def)

lemma sint32_range: "- (2 ^ 31) \<le> sint (x :: int32) \<and> sint x < 2 ^ 31"
  using sint_ge [of x] sint_lt [of x] by simp

lemma sint32_of_int: "- (2 ^ 31) \<le> n \<Longrightarrow> n < 2 ^ 31 \<Longrightarrow> sint (word_of_int n :: int32) = n"
  by (simp add: signed_of_int signed_take_bit_int_eq_self)

text \<open>
  Where a 32-bit sum, difference or product does not leave the signed range it is the exact one.
\<close>

lemma sint32_mult:
  "- (2 ^ 31) \<le> sint a * sint b \<Longrightarrow> sint a * sint b < 2 ^ 31 \<Longrightarrow>
   sint (a * b :: int32) = sint a * sint b"
  using sint32_of_int [of "sint a * sint b"] by simp

lemma sint32_diff:
  "- (2 ^ 31) \<le> sint a - sint b \<Longrightarrow> sint a - sint b < 2 ^ 31 \<Longrightarrow>
   sint (a - b :: int32) = sint a - sint b"
  using sint32_of_int [of "sint a - sint b"] by simp

section \<open>Strings\<close>

subsection \<open>\<open>strings.TrimSpace\<close>\<close>

text \<open>
  The UTF-8 encodings of the code points for which \<open>unicode.IsSpace\<close> holds: tab, newline, vertical
  tab, form feed, carriage return, space, U+0085, U+00A0, U+1680, U+2000 to U+200A, U+2028, U+2029,
  U+202F, U+205F and U+3000.
\<close>

definition ws_encodings :: "string list" where
  "ws_encodings =
     [[CHR 0x09], [CHR 0x0A], [CHR 0x0B], [CHR 0x0C], [CHR 0x0D], [CHR 0x20],
      [CHR 0xC2, CHR 0x85], [CHR 0xC2, CHR 0xA0], [CHR 0xE1, CHR 0x9A, CHR 0x80],
      [CHR 0xE2, CHR 0x80, CHR 0xA8], [CHR 0xE2, CHR 0x80, CHR 0xA9], [CHR 0xE2, CHR 0x80, CHR 0xAF],
      [CHR 0xE2, CHR 0x81, CHR 0x9F], [CHR 0xE3, CHR 0x80, CHR 0x80]] @
     map (\<lambda>b. [CHR 0xE2, CHR 0x80, b])
       [CHR 0x80, CHR 0x81, CHR 0x82, CHR 0x83, CHR 0x84, CHR 0x85, CHR 0x86, CHR 0x87, CHR 0x88,
        CHR 0x89, CHR 0x8A]"

text \<open>Removing, as often as possible, one of the words \<open>ws\<close> from the front of a list.\<close>

function strip_front :: "'a list list \<Rightarrow> 'a list \<Rightarrow> 'a list" where
  "strip_front ws s =
     (case find (\<lambda>e. e \<noteq> [] \<and> prefix e s) ws of
        None \<Rightarrow> s
      | Some e \<Rightarrow> strip_front ws (drop (length e) s))"
  by pat_completeness auto
termination
  by (relation "measure (\<lambda>(ws, s). length s)")
     (auto simp: find_Some_iff prefix_def)

declare strip_front.simps [simp del]

definition TrimSpace :: "string \<Rightarrow> string" where
  "TrimSpace s =
     (let t = strip_front ws_encodings s
      in rev (strip_front (map rev ws_encodings) (rev t)))"

definition starts_with_any :: "'a list list \<Rightarrow> 'a list \<Rightarrow> bool" where
  "starts_with_any ws s = list_ex (\<lambda>e. e \<noteq> [] \<and> prefix e s) ws"

text \<open>A string without leading and trailing white space.\<close>

definition trimmed :: "string \<Rightarrow> bool" where
  "trimmed s \<longleftrightarrow> \<not> starts_with_any ws_encodings s \<and> \<not> starts_with_any (map rev ws_encodings) (rev s)"

lemma find_None_starts: "find (\<lambda>e. e \<noteq> [] \<and> prefix e s) ws = None \<longleftrightarrow> \<not> starts_with_any ws s"
  by (auto simp: starts_with_any_def find_None_iff list_ex_iff)

lemma strip_front_id: "\<not> starts_with_any ws s \<Longrightarrow> strip_front ws s = s"
  by (subst strip_front.simps) (simp flip: find_None_starts)

lemma strip_front_stripped: "\<not> starts_with_any ws (strip_front ws s)"
proof (induction ws s rule: strip_front.induct)
  case (1 ws s)
  show ?case
  proof (cases "find (\<lambda>e. e \<noteq> [] \<and> prefix e s) ws")
    case None
    then show ?thesis by (subst strip_front.simps) (simp flip: find_None_starts)
  next
    case (Some e)
    with 1 show ?thesis by (subst strip_front.simps) simp
  qed
qed

lemma strip_front_suffix: "suffix (strip_front ws s) s"
proof (induction ws s rule: strip_front.induct)
  case (1 ws s)
  show ?case
  proof (cases "find (\<lambda>e. e \<noteq> [] \<and> prefix e s) ws")
    case None
    then show ?thesis by (subst strip_front.simps) simp
  next
    case (Some e)
    with 1 have "suffix (strip_front ws (drop (length e) s)) (drop (length e) s)" by simp
    then have "suffix (strip_front ws (drop (length e) s)) s"
      using suffix_drop suffix_order.trans by blast
    with Some show ?thesis by (subst strip_front.simps) simp
  qed
qed

lemma starts_with_any_prefix: "prefix s t \<Longrightarrow> starts_with_any ws s \<Longrightarrow> starts_with_any ws t"
  by (auto simp: starts_with_any_def list_ex_iff dest: prefix_order.trans)

lemma TrimSpace_trimmed: "trimmed (TrimSpace s)"
proof -
  let ?t = "strip_front ws_encodings s"
  let ?u = "strip_front (map rev ws_encodings) (rev ?t)"
  have "prefix (rev ?u) ?t"
    using strip_front_suffix [of "map rev ws_encodings" "rev ?t"] by (simp add: suffix_to_prefix)
  then have "\<not> starts_with_any ws_encodings (rev ?u)"
    using starts_with_any_prefix strip_front_stripped by blast
  then show ?thesis
    by (simp add: TrimSpace_def trimmed_def Let_def strip_front_stripped)
qed

lemma TrimSpace_id: "trimmed s \<Longrightarrow> TrimSpace s = s"
  by (simp add: trimmed_def TrimSpace_def strip_front_id)

lemma TrimSpace_idem [simp]: "TrimSpace (TrimSpace s) = TrimSpace s"
  by (rule TrimSpace_id [OF TrimSpace_trimmed])

lemma TrimSpace_sublist: "sublist (TrimSpace s) s"
proof -
  let ?t = "strip_front ws_encodings s"
  have "prefix (TrimSpace s) ?t"
    using strip_front_suffix [of "map rev ws_encodings" "rev ?t"]
    by (simp add: TrimSpace_def Let_def suffix_to_prefix)
  moreover have "suffix ?t s" by (rule strip_front_suffix)
  ultimately show ?thesis
    using prefix_imp_sublist suffix_imp_sublist sublist_order.order_trans by blast
qed

subsection \<open>\<open>strings.Contains\<close>\<close>

definition str_Contains :: "string \<Rightarrow> string \<Rightarrow> bool" where
  "str_Contains s sub = sublist sub s"

lemma str_Contains_single: "str_Contains s [c] \<longleftrightarrow> c \<in> set s"
  unfolding str_Contains_def sublist_def
  by (metis append_Cons append_Nil in_set_conv_decomp)

lemma str_Contains_append: "str_Contains s sub \<Longrightarrow> str_Contains (t @ s) sub"
  unfolding str_Contains_def by (simp add: sublist_appendI sublist_append)

lemma str_Contains_mid: "str_Contains s sub \<Longrightarrow> str_Contains (t @ s @ u) sub"
  unfolding str_Contains_def by (meson sublist_appendI sublist_order.order_trans)

text \<open>
  A prefix whose last character does not occur in the searched word cannot take part in a match
  that straddles the boundary.
\<close>

lemma str_Contains_prefix:
  assumes "p \<noteq> []" "last p \<notin> set sub"
  shows "str_Contains (p @ s) sub \<longleftrightarrow> str_Contains p sub \<or> str_Contains s sub"
proof -
  have "xs1 = []" if "suffix xs1 p" "sub = xs1 @ xs2" for xs1 xs2
  proof (rule ccontr)
    assume "xs1 \<noteq> []"
    then have "last xs1 = last p" using that(1) assms(1) by (auto simp: suffix_def)
    with \<open>xs1 \<noteq> []\<close> that(2) have "last p \<in> set sub" by (metis UnCI last_in_set set_append)
    with assms(2) show False by contradiction
  qed
  then have "sublist sub s" if "suffix xs1 p" "prefix xs2 s" "sub = xs1 @ xs2" for xs1 xs2
    using that by (metis append_Nil prefix_imp_sublist)
  then show ?thesis
    unfolding str_Contains_def sublist_append by blast
qed

subsection \<open>Decimal numbers: the \<open>%d\<close> verb and its inverse\<close>

definition digit :: "nat \<Rightarrow> char" where
  "digit n = char_of (48 + n)"

definition digit_val :: "char \<Rightarrow> nat" where
  "digit_val c = of_char c - 48"

definition is_digit :: "char \<Rightarrow> bool" where
  "is_digit c \<longleftrightarrow> 48 \<le> (of_char c :: nat) \<and> (of_char c :: nat) \<le> 57"

fun dec_nat :: "nat \<Rightarrow> string" where
  "dec_nat n = (if n < 10 then [digit n] else dec_nat (n div 10) @ [digit (n mod 10)])"

declare dec_nat.simps [simp del]

definition dec_int :: "int \<Rightarrow> string" where
  "dec_int i = (if i < 0 then ''-'' @ dec_nat (nat (- i)) else dec_nat (nat i))"

definition nat_of_dec :: "string \<Rightarrow> nat" where
  "nat_of_dec s = foldl (\<lambda>a c. 10 * a + digit_val c) 0 s"

lemma digit_val_digit [simp]: "n < 10 \<Longrightarrow> digit_val (digit n) = n"
  by (simp add: digit_val_def digit_def)

lemma is_digit_digit [simp]: "n < 10 \<Longrightarrow> is_digit (digit n)"
  by (simp add: is_digit_def digit_def)

lemma digit_simps [simp]:
  "digit 0 = CHR ''0''" "digit 1 = CHR ''1''" "digit 2 = CHR ''2''" "digit 3 = CHR ''3''"
  "digit 4 = CHR ''4''" "digit 5 = CHR ''5''" "digit 6 = CHR ''6''" "digit 7 = CHR ''7''"
  "digit 8 = CHR ''8''" "digit 9 = CHR ''9''"
  by (code_simp+)

lemma digit_Suc_simps [simp]:
  "digit (Suc 0) = CHR ''1''" "digit (Suc (Suc 0)) = CHR ''2''" "digit (Suc (Suc (Suc 0))) = CHR ''3''"
  by (code_simp+)

lemma dec_nat_small [simp]: "n < 10 \<Longrightarrow> dec_nat n = [digit n]"
  by (simp add: dec_nat.simps)

lemma nat_of_dec_snoc: "nat_of_dec (s @ [c]) = 10 * nat_of_dec s + digit_val c"
  by (simp add: nat_of_dec_def)

lemma nat_of_dec_dec_nat [simp]: "nat_of_dec (dec_nat n) = n"
proof (induction n rule: dec_nat.induct)
  case (1 n)
  show ?case
  proof (cases "n < 10")
    case True
    then show ?thesis by (simp add: nat_of_dec_def)
  next
    case False
    with 1 have "nat_of_dec (dec_nat (n div 10)) = n div 10" by simp
    with False show ?thesis
      by (subst dec_nat.simps) (simp add: nat_of_dec_snoc)
  qed
qed

lemma dec_nat_inject [simp]: "dec_nat m = dec_nat n \<longleftrightarrow> m = n"
  by (metis nat_of_dec_dec_nat)

lemma dec_nat_digits: "c \<in> set (dec_nat n) \<Longrightarrow> is_digit c"
proof (induction n rule: dec_nat.induct)
  case (1 n)
  show ?case
  proof (cases "n < 10")
    case True
    with "1.prems" show ?thesis by simp
  next
    case False
    have "c \<in> set (dec_nat (n div 10)) \<or> c = digit (n mod 10)"
      using "1.prems" False by (subst (asm) dec_nat.simps) auto
    with "1.IH" False show ?thesis by auto
  qed
qed

lemma dec_nat_not_Nil [simp]: "dec_nat n \<noteq> []"
  by (subst dec_nat.simps) simp

section \<open>gRPC status values\<close>

text \<open>The codes of \<open>google.golang.org/grpc/codes\<close>, and the status error \<open>status.Error(c, msg)\<close>.\<close>

datatype code = OK | Canceled | Unknown | InvalidArgument | DeadlineExceeded | NotFound
  | AlreadyExists | PermissionDenied | ResourceExhausted | FailedPrecondition | Aborted
  | OutOfRange | Unimplemented | Internal | Unavailable | DataLoss | Unauthenticated

datatype status = Status (status_code: code) (status_msg: string)

section \<open>Generic lemmas\<close>

lemma map_upd_same [simp]: "m k = Some v \<Longrightarrow> m(k \<mapsto> v) = m"
  by (rule ext) simp

lemma map_le_updI: "m k = None \<Longrightarrow> m \<subseteq>\<^sub>m m(k \<mapsto> v)"
  by (auto simp: map_le_def)

lemma map_le_SomeD: "m \<subseteq>\<^sub>m m' \<Longrightarrow> m k = Some v \<Longrightarrow> m' k = Some v"
  unfolding map_le_def by (metis domI)

lemma map_le_delD: "m \<subseteq>\<^sub>m m'(k := None) \<Longrightarrow> m \<subseteq>\<^sub>m m'"
  by (rule map_le_trans [OF _ upd_None_map_le])

lemma sum_option_cases [case_names err none some]:
  obtains e where "q = Inl e" | "q = Inr None" | x where "q = Inr (Some x)"
  by (metis sum.exhaust option.exhaust)

end
