(* ===== verification/Float64.thy ===== *)
theory Float64
  imports Prelude Complex_Main "HOL-Library.Log_Nat"
begin

text \<open>
  Go's \<open>float64\<close>: IEEE 754 binary64 with round-to-nearest, ties to even, as the order totals
  (\<open>services/order-service/repository.go\<close>) and the load tester use it. A finite value is a sign
  and a non-negative rational magnitude, so that the two zeros differ; infinities carry a sign;
  all NaNs are one value (the services never look at a payload). The operations compute the exact
  rational result and round it once.
\<close>

datatype float64 = NaN | Inf bool | Fin bool rat

section \<open>Rounding\<close>

definition pow2 :: "int \<Rightarrow> rat" where
  "pow2 e = (if 0 \<le> e then 2 ^ nat e else 1 / 2 ^ nat (- e))"

text \<open>The exponent of a positive rational: \<open>pow2 (ilog2 m) \<le> m < pow2 (ilog2 m + 1)\<close>.\<close>

definition ilog2 :: "rat \<Rightarrow> int" where
  "ilog2 m = (if 1 \<le> m then int (floorlog 2 (nat \<lfloor>m\<rfloor>)) - 1
              else - int (floorlog 2 (nat (\<lceil>1 / m\<rceil> - 1))))"

definition round_half_even :: "rat \<Rightarrow> int" where
  "round_half_even x =
     (let f = \<lfloor>x\<rfloor>; d = x - of_int f
      in if d < 1 / 2 then f else if 1 / 2 < d then f + 1 else if even f then f else f + 1)"

text \<open>The exponent of the last place: 53 significant bits, no less than the subnormal exponent.\<close>

definition ulp_exp :: "rat \<Rightarrow> int" where
  "ulp_exp m = max (- 1074) (ilog2 m - 52)"

definition round_mag :: "rat \<Rightarrow> rat" where
  "round_mag m =
     (if m = 0 then 0
      else of_int (round_half_even (m / pow2 (ulp_exp m))) * pow2 (ulp_exp m))"

text \<open>Magnitudes from \<open>2\<^sup>1\<^sup>0\<^sup>2\<^sup>4\<close> on overflow to an infinity.\<close>

definition overflow64 :: rat where
  "overflow64 = 2 ^ 1024"

definition round64 :: "bool \<Rightarrow> rat \<Rightarrow> float64" where
  "round64 s m = (let r = round_mag m in if r < overflow64 then Fin s r else Inf s)"

section \<open>Operations\<close>

fun val64 :: "bool \<Rightarrow> rat \<Rightarrow> rat" where
  "val64 s m = (if s then - m else m)"

definition float_of_int :: "int \<Rightarrow> float64" where
  "float_of_int n = round64 (n < 0) (of_int \<bar>n\<bar>)"

fun fmul :: "float64 \<Rightarrow> float64 \<Rightarrow> float64" where
  "fmul NaN _ = NaN"
| "fmul _ NaN = NaN"
| "fmul (Inf s) (Inf t) = Inf (s \<noteq> t)"
| "fmul (Inf s) (Fin t m) = (if m = 0 then NaN else Inf (s \<noteq> t))"
| "fmul (Fin s m) (Inf t) = (if m = 0 then NaN else Inf (s \<noteq> t))"
| "fmul (Fin s m) (Fin t n) = round64 (s \<noteq> t) (m * n)"

fun fadd :: "float64 \<Rightarrow> float64 \<Rightarrow> float64" where
  "fadd NaN _ = NaN"
| "fadd _ NaN = NaN"
| "fadd (Inf s) (Inf t) = (if s = t then Inf s else NaN)"
| "fadd (Inf s) (Fin _ _) = Inf s"
| "fadd (Fin _ _) (Inf t) = Inf t"
| "fadd (Fin s m) (Fin t n) =
     (let v = val64 s m + val64 t n
      in if v = 0 then Fin (s \<and> t) 0 else round64 (v < 0) \<bar>v\<bar>)"

text \<open>The comparison \<open><\<close>; a NaN compares false with everything.\<close>

fun fdiv :: "float64 \<Rightarrow> float64 \<Rightarrow> float64" where
  "fdiv NaN _ = NaN"
| "fdiv _ NaN = NaN"
| "fdiv (Inf s) (Inf t) = NaN"
| "fdiv (Inf s) (Fin t _) = Inf (s \<noteq> t)"
| "fdiv (Fin s _) (Inf t) = Fin (s \<noteq> t) 0"
| "fdiv (Fin s m) (Fin t n) =
     (if n = 0 then (if m = 0 then NaN else Inf (s \<noteq> t)) else round64 (s \<noteq> t) (m / n))"

fun flt :: "float64 \<Rightarrow> float64 \<Rightarrow> bool" where
  "flt NaN _ = False"
| "flt _ NaN = False"
| "flt (Inf s) (Inf t) = (s \<and> \<not> t)"
| "flt (Inf s) (Fin _ _) = s"
| "flt (Fin _ _) (Inf t) = (\<not> t)"
| "flt (Fin s m) (Fin t n) = (val64 s m < val64 t n)"

abbreviation fzero :: float64 where "fzero \<equiv> Fin False 0"

section \<open>Facts about rounding\<close>

lemma pow2_pos [simp]: "0 < pow2 e"
  by (simp add: pow2_def)

lemma pow2_nonneg [simp]: "0 \<le> pow2 e"
  using pow2_pos [of e] by (rule less_imp_le)

lemma pow2_nonzero [simp]: "pow2 e \<noteq> 0"
  using pow2_pos [of e] by linarith

lemma pow2_nat [simp]: "pow2 (int n) = 2 ^ n"
  by (simp add: pow2_def)

lemma pow2_neg [simp]: "pow2 (- int n) = 1 / 2 ^ n"
  by (cases "n = 0") (simp_all add: pow2_def)

lemma pow2_add: "pow2 (a + b) = pow2 a * pow2 b"
proof -
  have powi: "pow2 e = 2 powi e" for e
    by (simp add: pow2_def power_int_def inverse_eq_divide power_one_over)
  show ?thesis by (simp add: powi power_int_add)
qed

lemma pow2_mono: "a \<le> b \<Longrightarrow> pow2 a \<le> pow2 b"
proof -
  assume "a \<le> b"
  then have "pow2 b = pow2 a * 2 ^ nat (b - a)"
    by (metis diff_add_cancel add.commute diff_ge_0_iff_ge int_nat_eq pow2_add pow2_nat)
  moreover have "(1::rat) \<le> 2 ^ nat (b - a)" by simp
  ultimately show ?thesis using mult_left_mono [of 1 "2 ^ nat (b - a)" "pow2 a"] by simp
qed

lemma ilog2_lower: "0 < m \<Longrightarrow> pow2 (ilog2 m) \<le> m"
proof (cases "1 \<le> m")
  case True
  define t where "t = nat \<lfloor>m\<rfloor>"
  have t: "0 < t" "rat_of_nat t \<le> m" using True by (simp_all add: t_def)
  then have "0 < floorlog 2 t" by (simp add: floorlog_def)
  then have e: "ilog2 m = int (floorlog 2 t - 1)" using True by (simp add: ilog2_def t_def)
  have "2 ^ (floorlog 2 t - 1) \<le> t" using floorlog_bounds [of t 2] t by simp
  then have "(2::rat) ^ (floorlog 2 t - 1) \<le> rat_of_nat t" by (metis of_nat_le_iff of_nat_numeral of_nat_power)
  with t e show ?thesis by (metis order.trans pow2_nat)
next
  case False
  assume m: "0 < m"
  define t where "t = nat (\<lceil>1 / m\<rceil> - 1)"
  have "1 < 1 / m" using m False by simp
  then have t: "0 < t" "\<lceil>1 / m\<rceil> = int t + 1" unfolding t_def by linarith+
  have "t < 2 ^ floorlog 2 t" using floorlog_bounds [of t 2] t by simp
  then have "int t + 1 \<le> 2 ^ floorlog 2 t" by (metis Suc_leI add.commute of_nat_Suc of_nat_le_iff of_nat_numeral of_nat_power)
  then have "1 / m \<le> rat_of_int (2 ^ floorlog 2 t)" using t(2) by (simp only: ceiling_le_iff [symmetric])
  then have "1 / 2 ^ floorlog 2 t \<le> m" using m by (simp add: field_simps)
  moreover have "ilog2 m = - int (floorlog 2 t)" using False by (simp add: ilog2_def t_def)
  ultimately show ?thesis by simp
qed

lemma ilog2_less: "0 < m \<Longrightarrow> m < pow2 j \<Longrightarrow> ilog2 m < j"
  using ilog2_lower [of m] pow2_mono [of j "ilog2 m"] by (meson not_less order.strict_trans2 leD)

lemma round_half_even_of_int [simp]: "round_half_even (of_int n) = n"
  by (simp add: round_half_even_def)

lemma round_half_even_nonneg: "0 \<le> x \<Longrightarrow> 0 \<le> round_half_even x"
  by (simp add: round_half_even_def Let_def)

lemma round_half_even_error: "\<bar>of_int (round_half_even x) - x\<bar> \<le> 1 / 2"
proof -
  have "of_int \<lfloor>x\<rfloor> \<le> x" "x < of_int \<lfloor>x\<rfloor> + 1" by linarith+
  then show ?thesis by (auto simp: round_half_even_def Let_def abs_le_iff)
qed

text \<open>The rounded magnitude is within half a unit in the last place.\<close>

lemma round_mag_error: "\<bar>round_mag m - m\<bar> \<le> pow2 (ulp_exp m) / 2"
proof (cases "m = 0")
  case True
  then show ?thesis by (simp add: round_mag_def)
next
  case False
  let ?u = "pow2 (ulp_exp m)"
  have u: "0 < ?u" by simp
  have "of_int (round_half_even (m / ?u)) * ?u - m =
        (of_int (round_half_even (m / ?u)) - m / ?u) * ?u"
    by (simp add: left_diff_distrib)
  then have "\<bar>of_int (round_half_even (m / ?u)) * ?u - m\<bar> =
        \<bar>of_int (round_half_even (m / ?u)) - m / ?u\<bar> * ?u"
    by (simp only: abs_mult abs_of_pos [OF u])
  also have "\<dots> \<le> 1 / 2 * ?u"
    using round_half_even_error [of "m / ?u"] u by (intro mult_right_mono) simp_all
  finally show ?thesis using False by (simp add: round_mag_def)
qed

lemma round_mag_nonneg: "0 \<le> m \<Longrightarrow> 0 \<le> round_mag m"
  by (auto simp: round_mag_def intro!: mult_nonneg_nonneg round_half_even_nonneg divide_nonneg_nonneg)

text \<open>A number with at most 53 significant bits is not changed by rounding.\<close>

lemma round_mag_exact:
  assumes "0 \<le> n" "n < 2 ^ 53" "k \<le> 1074"
  shows "round_mag (of_int n / 2 ^ k) = of_int n / 2 ^ k"
proof (cases "n = 0")
  case True
  then show ?thesis by (simp add: round_mag_def)
next
  case False
  let ?m = "of_int n / 2 ^ k :: rat"
  have pos: "0 < ?m" using assms False by simp
  have "rat_of_int n < rat_of_int (2 ^ 53)" using assms(2) by (simp only: of_int_less_iff)
  then have "?m < 2 ^ 53 / 2 ^ k" by (simp add: divide_strict_right_mono)
  also have "\<dots> = pow2 (53 - int k)"
    using pow2_add [of 53 "- int k"] by (simp add: pow2_def [of 53])
  finally have "ilog2 ?m < 53 - int k" by (rule ilog2_less [OF pos])
  then have "ulp_exp ?m \<le> - int k" using assms(3) by (simp add: ulp_exp_def)
  then obtain j where j: "ulp_exp ?m = - int (k + j)"
    using that [of "nat (- ulp_exp ?m) - k"] by simp
  have u: "pow2 (ulp_exp ?m) = 1 / (2 ^ k * 2 ^ j)"
    unfolding j pow2_neg by (simp add: power_add)
  then have "?m / pow2 (ulp_exp ?m) = of_int (n * 2 ^ j)" by simp
  then have "round_half_even (?m / pow2 (ulp_exp ?m)) = n * 2 ^ j" by (metis round_half_even_of_int)
  then show ?thesis using False by (simp add: round_mag_def u)
qed

lemma round64_exact:
  assumes "0 \<le> n" "n < 2 ^ 53" "k \<le> 1074"
  shows "round64 s (of_int n / 2 ^ k) = Fin s (of_int n / 2 ^ k)"
proof -
  have "rat_of_int n < rat_of_int (2 ^ 53)" using assms(2) by (simp only: of_int_less_iff)
  moreover have "rat_of_int n / 2 ^ k \<le> rat_of_int n"
    using assms(1) by (simp add: divide_le_eq mult_le_cancel_left1)
  moreover have "(2::rat) ^ 53 \<le> overflow64" unfolding overflow64_def by (rule power_increasing) simp_all
  ultimately have "rat_of_int n / 2 ^ k < overflow64"
    by (metis of_int_numeral of_int_power order.strict_trans1 order.strict_trans2)
  then show ?thesis by (simp add: round64_def Let_def round_mag_exact [OF assms])
qed

lemma round64_int: "0 \<le> n \<Longrightarrow> n < 2 ^ 53 \<Longrightarrow> round64 s (of_int n) = Fin s (of_int n)"
  using round64_exact [of n 0 s] by simp

text \<open>Values that are not negative: NaN, \<open>+Inf\<close> and finite values with value at least 0.\<close>

fun not_negative :: "float64 \<Rightarrow> bool" where
  "not_negative NaN = True"
| "not_negative (Inf s) = (\<not> s)"
| "not_negative (Fin s m) = (0 \<le> val64 s m)"

text \<open>Well-formed values: the magnitude of a finite value is not negative.\<close>

fun wf64 :: "float64 \<Rightarrow> bool" where
  "wf64 (Fin s m) = (0 \<le> m)"
| "wf64 _ = True"

lemma not_flt_zero: "\<not> flt x fzero \<longleftrightarrow> not_negative x"
  by (cases x) auto

lemma wf64_round64 [simp]: "0 \<le> m \<Longrightarrow> wf64 (round64 s m)"
  by (simp add: round64_def Let_def round_mag_nonneg)

lemma not_negative_round64: "0 \<le> m \<Longrightarrow> m = 0 \<or> \<not> s \<Longrightarrow> not_negative (round64 s m)"
  using round_mag_nonneg [of m] by (auto simp: round64_def Let_def round_mag_def [of 0] overflow64_def)

lemma fmul_not_negative:
  assumes "wf64 x" "wf64 y" "not_negative x" "not_negative y"
  shows "not_negative (fmul x y)"
  using assms by (cases x; cases y) (auto intro!: not_negative_round64 split: if_splits)

lemma fmul_wf [simp]: "wf64 x \<Longrightarrow> wf64 y \<Longrightarrow> wf64 (fmul x y)"
  by (cases x; cases y) auto

lemma fadd_wf [simp]: "wf64 x \<Longrightarrow> wf64 y \<Longrightarrow> wf64 (fadd x y)"
  by (cases x; cases y) (auto simp: Let_def)

lemma fadd_not_negative:
  assumes "not_negative x" "not_negative y"
  shows "not_negative (fadd x y)"
  using assms by (cases x; cases y) (auto simp: Let_def intro!: not_negative_round64 split: if_splits)

lemma float_of_int_exact: "\<bar>n\<bar> < 2 ^ 53 \<Longrightarrow> float_of_int n = Fin (n < 0) (of_int \<bar>n\<bar>)"
  unfolding float_of_int_def by (rule round64_int) simp_all

lemma fadd_fin_pos:
  "0 \<le> m \<Longrightarrow> 0 \<le> n \<Longrightarrow> fadd (Fin False m) (Fin False n) =
     (if m + n = 0 then fzero else round64 False (m + n))"
  by (auto simp: Let_def)

text \<open>The relative error of rounding, for values of normal size.\<close>

lemma ilog2_half: "1 / 2 \<le> m \<Longrightarrow> - 1 \<le> ilog2 m"
proof (cases "1 \<le> m")
  case True
  then show ?thesis by (simp add: ilog2_def)
next
  case False
  assume m: "1 / 2 \<le> m"
  then have "1 / m \<le> 2" by (simp add: field_simps)
  then have "\<lceil>1 / m\<rceil> - 1 \<le> 1" by (simp add: ceiling_le_iff)
  then have "nat (\<lceil>1 / m\<rceil> - 1) \<le> nat 1" by (rule nat_mono)
  then have "floorlog 2 (nat (\<lceil>1 / m\<rceil> - 1)) \<le> floorlog 2 (nat 1)" by (intro floorlog_mono) simp_all
  then show ?thesis using False by (simp add: ilog2_def floorlog_def)
qed

lemma round_mag_rel:
  assumes "1 / 2 \<le> m"
  shows "\<bar>round_mag m - m\<bar> \<le> m / 2 ^ 53"
proof -
  have "ulp_exp m = ilog2 m + - int 52" using ilog2_half [OF assms] by (simp add: ulp_exp_def)
  then have "pow2 (ulp_exp m) = pow2 (ilog2 m) / 2 ^ 52" by (simp only: pow2_add pow2_neg) simp
  moreover have "pow2 (ilog2 m) \<le> m" using assms by (intro ilog2_lower) simp
  ultimately have "pow2 (ulp_exp m) / 2 \<le> m / 2 ^ 53" by simp
  with round_mag_error [of m] show ?thesis by linarith
qed

section \<open>Evaluation\<close>

text \<open>
  Whole numbers below \<open>2\<^sup>5\<^sup>3\<close> need no rounding, and a result is put as a quotient of two integers;
  a code equation says so, to keep evaluation cheap.
\<close>

definition rat_norm :: "rat \<Rightarrow> rat" where
  "rat_norm m = (case quotient_of m of (n, d) \<Rightarrow> if d = 1 then of_int n else of_int n / of_int d)"

lemma rat_norm_id [simp]: "rat_norm m = m"
  using quotient_of_div [of m] by (cases "quotient_of m") (simp add: rat_norm_def)

lemma round64_code [code]:
  "round64 s m =
     (if 0 \<le> m \<and> m < 9007199254740992 \<and> m = of_int \<lfloor>m\<rfloor> then Fin s (rat_norm m)
      else (let r = rat_norm (round_mag m) in if r < overflow64 then Fin s r else Inf s))"
proof (cases "0 \<le> m \<and> m < 9007199254740992 \<and> m = of_int \<lfloor>m\<rfloor>")
  case True
  then have "0 \<le> \<lfloor>m\<rfloor>" "\<lfloor>m\<rfloor> < 2 ^ 53" by (simp_all add: floor_less_iff)
  from round64_int [OF this, of s] True show ?thesis by simp
next
  case False
  then show ?thesis by (simp only: if_False round64_def rat_norm_id)
qed

end
