(* ===== verification/Pgx.thy ===== *)
theory Pgx
  imports Prelude Float64
begin

text \<open>
  The boundary to PostgreSQL: what the services call of the \<open>pgx/v5\<close> connection pool, as a record
  of functions over an opaque state \<open>'w\<close> of the outside world. The driver and the server are not
  part of the repository, so they are a parameter of every definition that talks to the database;
  what is relied on is stated as the assumptions of the locales \<open>pg_users\<close> and \<open>pg_orders\<close>.
  SQL travels as the text the code sends, together with the bound arguments.
\<close>

section \<open>Values, handles and the driver\<close>

text \<open>A bound argument or a column value, as the Go value that is passed or scanned.\<close>

datatype sqlval = SStr string | SInt int32 | SFloat float64 | STime time

type_synonym row = "sqlval list"
type_synonym poolref = "nat option"   \<comment> \<open>\<open>*pgxpool.Pool\<close>, possibly nil\<close>
type_synonym txref = nat              \<comment> \<open>\<open>pgx.Tx\<close>\<close>

text \<open>
  \<open>pool_QueryRow\<close> is \<open>QueryRow(...).Scan(...)\<close> up to the assignment to the Go variables; its error
  is the text of \<open>err.Error()\<close>. \<open>pool_Query\<close> gives the rows that \<open>rows.Next()\<close> will yield and the
  error that \<open>rows.Err()\<close> would report after them. \<open>pool_Exec\<close> gives the number of affected rows.
  \<open>scan_error\<close> is the error of \<open>Scan\<close> on a row that does not fit its destinations.
\<close>

record 'w pgx =
  pool_QueryRow :: "poolref \<Rightarrow> ctx \<Rightarrow> string \<Rightarrow> sqlval list \<Rightarrow> 'w \<Rightarrow> (go_error + row) \<times> 'w"
  pool_Query :: "poolref \<Rightarrow> ctx \<Rightarrow> string \<Rightarrow> sqlval list \<Rightarrow> 'w \<Rightarrow>
                 (go_error + (row list \<times> go_error option)) \<times> 'w"
  pool_Exec :: "poolref \<Rightarrow> ctx \<Rightarrow> string \<Rightarrow> sqlval list \<Rightarrow> 'w \<Rightarrow> (go_error + nat) \<times> 'w"
  pool_Begin :: "poolref \<Rightarrow> ctx \<Rightarrow> 'w \<Rightarrow> (go_error + txref) \<times> 'w"
  pool_Close :: "poolref \<Rightarrow> 'w \<Rightarrow> 'w"
  tx_QueryRow :: "txref \<Rightarrow> ctx \<Rightarrow> string \<Rightarrow> sqlval list \<Rightarrow> 'w \<Rightarrow> (go_error + row) \<times> 'w"
  tx_Exec :: "txref \<Rightarrow> ctx \<Rightarrow> string \<Rightarrow> sqlval list \<Rightarrow> 'w \<Rightarrow> (go_error + nat) \<times> 'w"
  tx_Commit :: "txref \<Rightarrow> ctx \<Rightarrow> 'w \<Rightarrow> go_error option \<times> 'w"
  tx_Rollback :: "txref \<Rightarrow> ctx \<Rightarrow> 'w \<Rightarrow> 'w"
  scan_error :: "row \<Rightarrow> go_error"

text \<open>The text the repositories compare \<open>err.Error()\<close> with.\<close>

definition no_rows :: go_error where
  "no_rows = ''no rows in result set''"

text \<open>The line break and indentation inside the multi-line SQL literals.\<close>

abbreviation sql_break :: string where
  "sql_break \<equiv> [CHR 0x0A, CHR 0x09, CHR 0x09, CHR '' '']"

section \<open>Placeholders\<close>

text \<open>The numbers after the dollar signs of an SQL text, in order.\<close>

fun placeholders :: "string \<Rightarrow> nat list" where
  "placeholders [] = []"
| "placeholders (x # xs) =
     (if x = CHR ''$'' then nat_of_dec (takeWhile is_digit xs) # placeholders xs
      else placeholders xs)"

lemma placeholders_append:
  "s \<noteq> [] \<Longrightarrow> \<not> is_digit (hd s) \<Longrightarrow> placeholders (t @ s) = placeholders t @ placeholders s"
proof (induction t)
  case Nil
  then show ?case by simp
next
  case (Cons x t)
  have "takeWhile is_digit (t @ s) = takeWhile is_digit t"
    using Cons.prems by (induction t) (auto simp: takeWhile_eq_Nil_iff)
  with Cons show ?case by simp
qed

lemma placeholders_dec [simp]: "placeholders (dec_nat n) = []"
proof -
  have "\<forall>c \<in> set s. is_digit c \<Longrightarrow> placeholders s = []" for s
    by (induction s) (auto simp: is_digit_def)
  then show ?thesis using dec_nat_digits by blast
qed

lemma placeholders_dollar: "placeholders (CHR ''$'' # dec_nat n) = [n]"
proof -
  have "takeWhile is_digit (dec_nat n) = dec_nat n"
    using dec_nat_digits by (metis takeWhile_eq_all_conv)
  then show ?thesis by (simp only: placeholders.simps refl if_True nat_of_dec_dec_nat placeholders_dec)
qed

end
