(* ===== verification/Proto.thy ===== *)
theory Proto
  imports Prelude Float64
begin

text \<open>
  The protocol buffer messages of the three packages under \<open>src/services/*/v1\<close> as the generated
  Go structs have them: a scalar field by value, a sub-message field as a pointer (\<open>option\<close>, with
  \<open>None\<close> for nil), a repeated message field as a list of pointers. The runtime bookkeeping fields
  (\<open>state\<close>, \<open>sizeCache\<close>, \<open>unknownFields\<close>) are left out. The nil-safe getters are modelled where a
  handler calls them, the enum with its number and name tables.
\<close>

section \<open>Well-known types\<close>

text \<open>\<open>timestamppb.New(t)\<close> and \<open>fieldmaskpb.FieldMask\<close>.\<close>

datatype Timestamp = timestamppb_New time

record FieldMask =
  FieldMask_Paths :: "string list"

section \<open>\<open>user.v1\<close>\<close>

record User =
  User_Id :: string
  User_Name :: string
  User_Email :: string
  User_CreatedAt :: "Timestamp option"
  User_UpdatedAt :: "Timestamp option"

definition User_GetId :: "User option \<Rightarrow> string" where
  "User_GetId x = (case x of Some u \<Rightarrow> User_Id u | None \<Rightarrow> '''')"

definition User_GetName :: "User option \<Rightarrow> string" where
  "User_GetName x = (case x of Some u \<Rightarrow> User_Name u | None \<Rightarrow> '''')"

definition User_GetEmail :: "User option \<Rightarrow> string" where
  "User_GetEmail x = (case x of Some u \<Rightarrow> User_Email u | None \<Rightarrow> '''')"

record CreateUserRequest =
  CreateUserRequest_Name :: string
  CreateUserRequest_Email :: string

record CreateUserResponse =
  CreateUserResponse_User :: "User option"

record GetUserRequest =
  GetUserRequest_Id :: string

record GetUserResponse =
  GetUserResponse_User :: "User option"

record UpdateUserRequest =
  UpdateUserRequest_Id :: string
  UpdateUserRequest_User :: "User option"
  UpdateUserRequest_UpdateMask :: "FieldMask option"

record UpdateUserResponse =
  UpdateUserResponse_User :: "User option"

record DeleteUserRequest =
  DeleteUserRequest_Id :: string

record DeleteUserResponse =
  DeleteUserResponse_Message :: string

section \<open>\<open>common.v1\<close>\<close>

record Pagination =
  Pagination_Page :: int32
  Pagination_PageSize :: int32

record PaginationResponse =
  PaginationResponse_TotalCount :: int32
  PaginationResponse_HasMore :: bool

section \<open>\<open>order.v1\<close>\<close>

text \<open>
  The named values of the enum. A Go \<open>OrderStatus\<close> is an open int32; the services only ever store
  and return the named values, and the tables below are the generated ones.
\<close>

datatype OrderStatus = ORDER_STATUS_UNSPECIFIED | ORDER_STATUS_PENDING | ORDER_STATUS_CONFIRMED
  | ORDER_STATUS_SHIPPED | ORDER_STATUS_DELIVERED | ORDER_STATUS_CANCELLED

fun OrderStatus_Number :: "OrderStatus \<Rightarrow> int32" where
  "OrderStatus_Number ORDER_STATUS_UNSPECIFIED = 0"
| "OrderStatus_Number ORDER_STATUS_PENDING = 1"
| "OrderStatus_Number ORDER_STATUS_CONFIRMED = 2"
| "OrderStatus_Number ORDER_STATUS_SHIPPED = 3"
| "OrderStatus_Number ORDER_STATUS_DELIVERED = 4"
| "OrderStatus_Number ORDER_STATUS_CANCELLED = 5"

definition OrderStatus_name :: "int32 \<rightharpoonup> string" where
  "OrderStatus_name = map_of
     [(0, ''ORDER_STATUS_UNSPECIFIED''), (1, ''ORDER_STATUS_PENDING''),
      (2, ''ORDER_STATUS_CONFIRMED''), (3, ''ORDER_STATUS_SHIPPED''),
      (4, ''ORDER_STATUS_DELIVERED''), (5, ''ORDER_STATUS_CANCELLED'')]"

definition OrderStatus_value :: "string \<rightharpoonup> int32" where
  "OrderStatus_value = map_of
     [(''ORDER_STATUS_UNSPECIFIED'', 0), (''ORDER_STATUS_PENDING'', 1),
      (''ORDER_STATUS_CONFIRMED'', 2), (''ORDER_STATUS_SHIPPED'', 3),
      (''ORDER_STATUS_DELIVERED'', 4), (''ORDER_STATUS_CANCELLED'', 5)]"

record OrderItem =
  OrderItem_ProductId :: string
  OrderItem_ProductName :: string
  OrderItem_Quantity :: int32
  OrderItem_UnitPrice :: float64

record Order =
  Order_Id :: string
  Order_UserId :: string
  Order_Items :: "OrderItem option list"
  Order_Total :: float64
  Order_Status :: OrderStatus
  Order_CreatedAt :: "Timestamp option"

record CreateOrderRequest =
  CreateOrderRequest_UserId :: string
  CreateOrderRequest_Items :: "OrderItem option list"

record CreateOrderResponse =
  CreateOrderResponse_Order :: "Order option"

record GetOrderRequest =
  GetOrderRequest_Id :: string

record GetOrderResponse =
  GetOrderResponse_Order :: "Order option"

record ListOrdersRequest =
  ListOrdersRequest_UserId :: string
  ListOrdersRequest_Pagination :: "Pagination option"

record ListOrdersResponse =
  ListOrdersResponse_Orders :: "Order list"
  ListOrdersResponse_Pagination :: "PaginationResponse option"

record CancelOrderRequest =
  CancelOrderRequest_Id :: string

record CancelOrderResponse =
  CancelOrderResponse_Order :: "Order option"

section \<open>The enum tables\<close>

lemma User_Get_simps [simp]:
  "User_GetId None = ''''" "User_GetId (Some u) = User_Id u"
  "User_GetName None = ''''" "User_GetName (Some u) = User_Name u"
  "User_GetEmail None = ''''" "User_GetEmail (Some u) = User_Email u"
  by (simp_all add: User_GetId_def User_GetName_def User_GetEmail_def)

text \<open>The two generated tables are inverse to each other on the named values.\<close>

lemma OrderStatus_tables:
  "\<exists>s. OrderStatus_name (OrderStatus_Number x) = Some s \<and> OrderStatus_value s = Some (OrderStatus_Number x)"
  by (cases x) (simp_all add: OrderStatus_name_def OrderStatus_value_def)

lemma OrderStatus_Number_inj: "OrderStatus_Number x = OrderStatus_Number y \<longleftrightarrow> x = y"
  by (cases x; cases y) simp_all

text \<open>The values are ordered by their numbers: an order moves up from pending, and cancelled is the last.\<close>

instantiation OrderStatus :: linorder
begin

definition less_eq_OrderStatus :: "OrderStatus \<Rightarrow> OrderStatus \<Rightarrow> bool" where
  "less_eq_OrderStatus x y \<longleftrightarrow> OrderStatus_Number x \<le> OrderStatus_Number y"

definition less_OrderStatus :: "OrderStatus \<Rightarrow> OrderStatus \<Rightarrow> bool" where
  "less_OrderStatus x y \<longleftrightarrow> OrderStatus_Number x < OrderStatus_Number y"

instance
  by intro_classes (auto simp: less_eq_OrderStatus_def less_OrderStatus_def less_le OrderStatus_Number_inj)

end

lemma OrderStatus_cancelled_top [simp]: "x \<le> ORDER_STATUS_CANCELLED"
  by (cases x) (simp_all add: less_eq_OrderStatus_def)

end
