(* ===== verification/UserRepository.thy ===== *)
theory UserRepository
  imports Pgx Proto
begin

text \<open>
  \<open>src/services/user-service/repository.go\<close>: the user repository over a connection pool that
  the credential rotation can replace, with the SQL texts it sends. The locale \<open>pg_users\<close> states
  what PostgreSQL promises for those texts on the table that
  \<open>src/db/migrations/000001_create_users.up.sql\<close> creates, and the repository operations are
  specified in it once, for every database that keeps the promises.
\<close>

section \<open>State and SQL texts\<close>

definition dbQueryTimeout :: duration where
  "dbQueryTimeout = 10 * time_Second"

record UserRepository =
  UserRepository_pool :: poolref

definition NewUserRepository :: "poolref \<Rightarrow> UserRepository" where
  "NewUserRepository pool = \<lparr>UserRepository_pool = pool\<rparr>"

definition UserRepository_getPool :: "UserRepository \<Rightarrow> poolref" where
  "UserRepository_getPool r = UserRepository_pool r"

definition UserRepository_SetPool ::
  "'w pgx \<Rightarrow> poolref \<Rightarrow> UserRepository \<Rightarrow> 'w \<Rightarrow> UserRepository \<times> 'w" where
  "UserRepository_SetPool drv pool r w =
     (let old = UserRepository_pool r;
          r' = r\<lparr>UserRepository_pool := pool\<rparr>
      in if old \<noteq> None then (r', pool_Close drv old w) else (r', w))"

definition UserRepository_queryTimeout :: "ctx \<Rightarrow> ctx" where
  "UserRepository_queryTimeout c = WithTimeout c dbQueryTimeout"

definition sql_insert_user :: string where
  "sql_insert_user = ''INSERT INTO users (name, email) VALUES ($1, $2)'' @ sql_break @
     ''RETURNING id, created_at, updated_at''"

definition sql_select_user :: string where
  "sql_select_user = ''SELECT name, email, created_at, updated_at FROM users WHERE id = $1''"

definition sql_delete_user :: string where
  "sql_delete_user = ''DELETE FROM users WHERE id = $1''"

text \<open>Assignment of a row to the variables of a \<open>Scan\<close> call; \<open>None\<close> when the row does not fit.\<close>

fun scan_id_times :: "row \<Rightarrow> (string \<times> time \<times> time) option" where
  "scan_id_times [SStr i, STime c, STime u] = Some (i, c, u)"
| "scan_id_times _ = None"

fun scan_name_email_times :: "row \<Rightarrow> (string \<times> string \<times> time \<times> time) option" where
  "scan_name_email_times [SStr n, SStr e, STime c, STime u] = Some (n, e, c, u)"
| "scan_name_email_times _ = None"

fun scan_user :: "row \<Rightarrow> (string \<times> string \<times> string \<times> time \<times> time) option" where
  "scan_user [SStr i, SStr n, SStr e, STime c, STime u] = Some (i, n, e, c, u)"
| "scan_user _ = None"

definition mk_User :: "string \<Rightarrow> string \<Rightarrow> string \<Rightarrow> time \<Rightarrow> time \<Rightarrow> User" where
  "mk_User i n e c u =
     \<lparr>User_Id = i, User_Name = n, User_Email = e,
      User_CreatedAt = Some (timestamppb_New c), User_UpdatedAt = Some (timestamppb_New u)\<rparr>"

section \<open>Operations\<close>

definition UserRepository_Create ::
  "'w pgx \<Rightarrow> UserRepository \<Rightarrow> ctx \<Rightarrow> string \<Rightarrow> string \<Rightarrow> 'w \<Rightarrow> (go_error + User) \<times> 'w" where
  "UserRepository_Create drv r c name email w =
     (let qCtx = UserRepository_queryTimeout c in
      case pool_QueryRow drv (UserRepository_getPool r) qCtx sql_insert_user [SStr name, SStr email] w of
        (Inl err, w') \<Rightarrow> (Inl (''create user: '' @ err), w')
      | (Inr rw, w') \<Rightarrow>
          (case scan_id_times rw of
             None \<Rightarrow> (Inl (''create user: '' @ scan_error drv rw), w')
           | Some (i, createdAt, updatedAt) \<Rightarrow> (Inr (mk_User i name email createdAt updatedAt), w')))"

definition UserRepository_Get ::
  "'w pgx \<Rightarrow> UserRepository \<Rightarrow> ctx \<Rightarrow> string \<Rightarrow> 'w \<Rightarrow> (go_error + User option) \<times> 'w" where
  "UserRepository_Get drv r c i w =
     (let qCtx = UserRepository_queryTimeout c in
      case pool_QueryRow drv (UserRepository_getPool r) qCtx sql_select_user [SStr i] w of
        (Inl err, w') \<Rightarrow>
          (if err = no_rows then (Inr None, w') else (Inl (''get user: '' @ err), w'))
      | (Inr rw, w') \<Rightarrow>
          (case scan_name_email_times rw of
             None \<Rightarrow> (Inl (''get user: '' @ scan_error drv rw), w')
           | Some (name, email, createdAt, updatedAt) \<Rightarrow>
               (Inr (Some (mk_User i name email createdAt updatedAt)), w')))"

text \<open>The set clauses, the arguments and the next argument index that \<open>Update\<close> builds.\<close>

definition Update_setClauses ::
  "string \<Rightarrow> string \<Rightarrow> bool \<Rightarrow> bool \<Rightarrow> string \<times> sqlval list \<times> nat" where
  "Update_setClauses name email nameSet emailSet =
     (let st0 = ('''', [], 1);
          st1 = (if nameSet
                 then (case st0 of (cl, args, n) \<Rightarrow>
                         (cl @ ''name = $'' @ dec_nat n @ '', '', args @ [SStr name], n + 1))
                 else st0);
          st2 = (if emailSet
                 then (case st1 of (cl, args, n) \<Rightarrow>
                         (cl @ ''email = $'' @ dec_nat n @ '', '', args @ [SStr email], n + 1))
                 else st1)
      in st2)"

definition Update_query :: "string \<Rightarrow> nat \<Rightarrow> string" where
  "Update_query setClauses argIdx =
     ''UPDATE users SET '' @ setClauses @ '' WHERE id = $'' @ dec_nat argIdx @ sql_break @
     ''RETURNING id, name, email, created_at, updated_at''"

definition UserRepository_Update ::
  "'w pgx \<Rightarrow> UserRepository \<Rightarrow> ctx \<Rightarrow> string \<Rightarrow> string \<Rightarrow> string \<Rightarrow> bool \<Rightarrow> bool \<Rightarrow> 'w \<Rightarrow>
   (go_error + User option) \<times> 'w" where
  "UserRepository_Update drv r c i name email nameSet emailSet w =
     (case Update_setClauses name email nameSet emailSet of (setClauses, args, argIdx) \<Rightarrow>
      if setClauses = '''' then UserRepository_Get drv r c i w
      else
        let query = Update_query (setClauses @ ''updated_at = NOW()'') argIdx;
            qCtx = UserRepository_queryTimeout c
        in case pool_QueryRow drv (UserRepository_getPool r) qCtx query (args @ [SStr i]) w of
             (Inl err, w') \<Rightarrow>
               (if err = no_rows then (Inr None, w') else (Inl (''update user: '' @ err), w'))
           | (Inr rw, w') \<Rightarrow>
               (case scan_user rw of
                  None \<Rightarrow> (Inl (''update user: '' @ scan_error drv rw), w')
                | Some (outID, outName, outEmail, createdAt, updatedAt) \<Rightarrow>
                    (Inr (Some (mk_User outID outName outEmail createdAt updatedAt)), w')))"

definition UserRepository_Delete ::
  "'w pgx \<Rightarrow> UserRepository \<Rightarrow> ctx \<Rightarrow> string \<Rightarrow> 'w \<Rightarrow> (go_error + bool) \<times> 'w" where
  "UserRepository_Delete drv r c i w =
     (let qCtx = UserRepository_queryTimeout c in
      case pool_Exec drv (UserRepository_getPool r) qCtx sql_delete_user [SStr i] w of
        (Inl err, w') \<Rightarrow> (Inl (''delete user: '' @ err), w')
      | (Inr n, w') \<Rightarrow> (Inr (0 < n), w'))"

section \<open>The dynamic UPDATE statement\<close>

text \<open>The three statements \<open>Update\<close> can send, written out.\<close>

definition sql_update_user :: "bool \<Rightarrow> bool \<Rightarrow> string" where
  "sql_update_user nameSet emailSet =
     (''UPDATE users SET '' @
      (if nameSet \<and> emailSet then ''name = $1, email = $2, updated_at = NOW() WHERE id = $3''
       else if nameSet then ''name = $1, updated_at = NOW() WHERE id = $2''
       else ''email = $1, updated_at = NOW() WHERE id = $2'') @ sql_break @
      ''RETURNING id, name, email, created_at, updated_at'')"

definition update_args :: "bool \<Rightarrow> bool \<Rightarrow> string \<Rightarrow> string \<Rightarrow> sqlval list" where
  "update_args nameSet emailSet name email =
     (if nameSet then [SStr name] else []) @ (if emailSet then [SStr email] else [])"

lemma Update_setClauses_args:
  "Update_setClauses n e ns es = (cl, args, k) \<Longrightarrow> args = update_args ns es n e \<and> k = Suc (length args)"
  by (auto simp: Update_setClauses_def update_args_def Let_def split: if_splits)

lemma Update_setClauses_empty:
  "Update_setClauses n e ns es = (cl, args, k) \<Longrightarrow> cl = '''' \<longleftrightarrow> \<not> ns \<and> \<not> es"
  by (auto simp: Update_setClauses_def Let_def split: if_splits)

lemma Update_query_text:
  "Update_setClauses n e ns es = (cl, args, k) \<Longrightarrow> ns \<or> es \<Longrightarrow>
   Update_query (cl @ ''updated_at = NOW()'') k = sql_update_user ns es"
  by (auto simp: Update_setClauses_def Update_query_def sql_update_user_def Let_def digit_Suc_simps split: if_splits)

lemma UserRepository_Update_eq:
  "UserRepository_Update drv r c i n e ns es w =
     (if \<not> ns \<and> \<not> es then UserRepository_Get drv r c i w
      else case pool_QueryRow drv (UserRepository_getPool r) (UserRepository_queryTimeout c)
                  (sql_update_user ns es) (update_args ns es n e @ [SStr i]) w of
             (Inl err, w') \<Rightarrow>
               (if err = no_rows then (Inr None, w') else (Inl (''update user: '' @ err), w'))
           | (Inr rw, w') \<Rightarrow>
               (case scan_user rw of
                  None \<Rightarrow> (Inl (''update user: '' @ scan_error drv rw), w')
                | Some (a, b, d, x, y) \<Rightarrow> (Inr (Some (mk_User a b d x y)), w')))"
proof -
  obtain cl args k where cl: "Update_setClauses n e ns es = (cl, args, k)"
    by (cases "Update_setClauses n e ns es")
  show ?thesis
    using Update_setClauses_empty [OF cl] Update_setClauses_args [OF cl] Update_query_text [OF cl]
    by (auto simp: UserRepository_Update_def cl Let_def)
qed

section \<open>What PostgreSQL promises\<close>

text \<open>
  A row of the table \<open>users\<close>, and the table as a map from the canonical text of a UUID. The
  function \<open>uuid_in\<close> is PostgreSQL's input conversion for the type \<open>uuid\<close>: the canonical text of
  an accepted spelling, \<open>None\<close> for a rejected one.
\<close>

record user_row =
  ur_name :: string
  ur_email :: string
  ur_created :: time
  ur_updated :: time

type_synonym users_table = "string \<rightharpoonup> user_row"

definition emails :: "users_table \<Rightarrow> string set" where
  "emails m = ur_email ` ran m"

definition user_of_row :: "string \<Rightarrow> user_row \<Rightarrow> User" where
  "user_of_row i r = mk_User i (ur_name r) (ur_email r) (ur_created r) (ur_updated r)"

text \<open>The three effects a statement can have on the table.\<close>

definition user_inserted ::
  "(string \<Rightarrow> string option) \<Rightarrow> string \<Rightarrow> string \<Rightarrow> string \<Rightarrow> time \<Rightarrow> users_table \<Rightarrow> users_table \<Rightarrow> bool" where
  "user_inserted uuid_in n e u t m m' \<longleftrightarrow>
     uuid_in u = Some u \<and> m u = None \<and> e \<notin> emails m \<and>
     m' = m(u \<mapsto> \<lparr>ur_name = n, ur_email = e, ur_created = t, ur_updated = t\<rparr>)"

definition masked_row :: "bool \<Rightarrow> bool \<Rightarrow> string \<Rightarrow> string \<Rightarrow> time \<Rightarrow> user_row \<Rightarrow> user_row" where
  "masked_row ns es n e t r =
     r\<lparr>ur_name := if ns then n else ur_name r, ur_email := if es then e else ur_email r, ur_updated := t\<rparr>"

definition user_updated ::
  "bool \<Rightarrow> bool \<Rightarrow> string \<Rightarrow> string \<Rightarrow> string \<Rightarrow> time \<Rightarrow> user_row \<Rightarrow> users_table \<Rightarrow> users_table \<Rightarrow> bool" where
  "user_updated ns es n e u t r m m' \<longleftrightarrow>
     m u = Some r \<and> (es \<longrightarrow> e \<notin> emails (m(u := None))) \<and> m' = m(u \<mapsto> masked_row ns es n e t r)"

definition user_deleted :: "string \<Rightarrow> users_table \<Rightarrow> users_table \<Rightarrow> bool" where
  "user_deleted u m m' \<longleftrightarrow> m' = m(u := None)"

text \<open>
  The promises, for the statements above. A statement can fail at any time (a lost connection, a
  passed deadline, a value that is too long); a failure that the server did not report itself may
  have left the effect behind, because the acknowledgement was lost. \<open>no_rows\<close> is reported only
  when no row matches. An error that speaks of a unique or duplicate value is a server error, which
  undoes the statement; for the INSERT, which binds no UUID, it means that the email is taken.
\<close>

definition says_duplicate :: "go_error \<Rightarrow> bool" where
  "says_duplicate err \<longleftrightarrow> str_Contains err ''unique'' \<or> str_Contains err ''duplicate''"

lemma says_duplicate_create: "says_duplicate (''create user: '' @ err) = says_duplicate err"
  and says_duplicate_update: "says_duplicate (''update user: '' @ err) = says_duplicate err"
proof -
  have "\<not> str_Contains ''create user: '' ''unique''" "\<not> str_Contains ''create user: '' ''duplicate''"
    "\<not> str_Contains ''update user: '' ''unique''" "\<not> str_Contains ''update user: '' ''duplicate''"
    by code_simp+
  then show "says_duplicate (''create user: '' @ err) = says_duplicate err"
    and "says_duplicate (''update user: '' @ err) = says_duplicate err"
    unfolding says_duplicate_def
    using str_Contains_prefix [of "''create user: ''" "''unique''" err]
      str_Contains_prefix [of "''create user: ''" "''duplicate''" err]
      str_Contains_prefix [of "''update user: ''" "''unique''" err]
      str_Contains_prefix [of "''update user: ''" "''duplicate''" err]
    by simp_all
qed

lemma no_rows_not_duplicate: "\<not> says_duplicate no_rows"
  by code_simp

locale pg_users =
  fixes drv :: "'w pgx"
    and uuid_in :: "string \<Rightarrow> string option"
    and users :: "'w \<Rightarrow> users_table"
  assumes insert_row:
      "pool_QueryRow drv p c sql_insert_user [SStr n, SStr e] w = (Inr rw, w') \<Longrightarrow>
       \<exists>u t. rw = [SStr u, STime t, STime t] \<and> user_inserted uuid_in n e u t (users w) (users w')"
    and insert_error:
      "pool_QueryRow drv p c sql_insert_user [SStr n, SStr e] w = (Inl err, w') \<Longrightarrow>
       users w' = users w \<or> (\<exists>u t. user_inserted uuid_in n e u t (users w) (users w'))"
    and insert_duplicate:
      "pool_QueryRow drv p c sql_insert_user [SStr n, SStr e] w = (Inl err, w') \<Longrightarrow>
       says_duplicate err \<Longrightarrow> users w' = users w \<and> e \<in> emails (users w)"
    and select_keeps:
      "pool_QueryRow drv p c sql_select_user [SStr i] w = (res, w') \<Longrightarrow> users w' = users w"
    and select_row:
      "pool_QueryRow drv p c sql_select_user [SStr i] w = (Inr rw, w') \<Longrightarrow>
       \<exists>u r. uuid_in i = Some u \<and> users w u = Some r \<and>
             rw = [SStr (ur_name r), SStr (ur_email r), STime (ur_created r), STime (ur_updated r)]"
    and select_none:
      "pool_QueryRow drv p c sql_select_user [SStr i] w = (Inl no_rows, w') \<Longrightarrow>
       \<exists>u. uuid_in i = Some u \<and> users w u = None"
    and update_row:
      "ns \<or> es \<Longrightarrow>
       pool_QueryRow drv p c (sql_update_user ns es) (update_args ns es n e @ [SStr i]) w = (Inr rw, w') \<Longrightarrow>
       \<exists>u t r r'. uuid_in i = Some u \<and> user_updated ns es n e u t r (users w) (users w') \<and>
             r' = masked_row ns es n e t r \<and>
             rw = [SStr u, SStr (ur_name r'), SStr (ur_email r'), STime (ur_created r'), STime (ur_updated r')]"
    and update_none:
      "ns \<or> es \<Longrightarrow>
       pool_QueryRow drv p c (sql_update_user ns es) (update_args ns es n e @ [SStr i]) w = (Inl no_rows, w') \<Longrightarrow>
       users w' = users w \<and> (\<exists>u. uuid_in i = Some u \<and> users w u = None)"
    and update_error:
      "ns \<or> es \<Longrightarrow>
       pool_QueryRow drv p c (sql_update_user ns es) (update_args ns es n e @ [SStr i]) w = (Inl err, w') \<Longrightarrow>
       users w' = users w \<or>
       (\<exists>u t r. uuid_in i = Some u \<and> user_updated ns es n e u t r (users w) (users w'))"
    and update_duplicate:
      "ns \<or> es \<Longrightarrow>
       pool_QueryRow drv p c (sql_update_user ns es) (update_args ns es n e @ [SStr i]) w = (Inl err, w') \<Longrightarrow>
       says_duplicate err \<Longrightarrow> users w' = users w"
    and delete_row:
      "pool_Exec drv p c sql_delete_user [SStr i] w = (Inr k, w') \<Longrightarrow>
       \<exists>u. uuid_in i = Some u \<and> user_deleted u (users w) (users w') \<and> (0 < k \<longleftrightarrow> users w u \<noteq> None)"
    and delete_error:
      "pool_Exec drv p c sql_delete_user [SStr i] w = (Inl err, w') \<Longrightarrow>
       users w' = users w \<or> (\<exists>u. uuid_in i = Some u \<and> user_deleted u (users w) (users w'))"
begin

text \<open>The repository operations over a database that keeps the promises.\<close>

lemma Create_Inr:
  assumes "UserRepository_Create drv r c n e w = (Inr v, w')"
  shows "\<exists>u t. v = mk_User u n e t t \<and> user_inserted uuid_in n e u t (users w) (users w')"
  using assms insert_row [of "UserRepository_getPool r" "UserRepository_queryTimeout c" n e w]
  by (fastforce simp: UserRepository_Create_def Let_def split: prod.splits sum.splits option.splits)

lemma Create_error:
  assumes "UserRepository_Create drv r c n e w = (Inl err, w')"
  shows "\<exists>e0. pool_QueryRow drv (UserRepository_getPool r) (UserRepository_queryTimeout c)
                sql_insert_user [SStr n, SStr e] w = (Inl e0, w') \<and> err = ''create user: '' @ e0"
  using assms insert_row [of "UserRepository_getPool r" "UserRepository_queryTimeout c" n e w]
  by (fastforce simp: UserRepository_Create_def Let_def split: prod.splits sum.splits option.splits)

lemma Create_Inl:
  assumes "UserRepository_Create drv r c n e w = (Inl err, w')"
  shows "users w' = users w \<or> (\<exists>u t. user_inserted uuid_in n e u t (users w) (users w'))"
  using Create_error [OF assms] insert_error by blast

lemma Create_duplicate:
  assumes "UserRepository_Create drv r c n e w = (Inl err, w')" "says_duplicate err"
  shows "users w' = users w \<and> e \<in> emails (users w)"
  using Create_error [OF assms(1)] assms(2) insert_duplicate says_duplicate_create by metis

lemma Get_keeps: "UserRepository_Get drv r c i w = (res, w') \<Longrightarrow> users w' = users w"
  by (auto simp: UserRepository_Get_def Let_def split: prod.splits sum.splits option.splits if_splits
      dest: select_keeps)

lemma Get_Some:
  assumes "UserRepository_Get drv r c i w = (Inr (Some v), w')"
  shows "\<exists>u rw. uuid_in i = Some u \<and> users w u = Some rw \<and> v = user_of_row i rw"
  using assms select_row [of "UserRepository_getPool r" "UserRepository_queryTimeout c" i w]
  by (fastforce simp: UserRepository_Get_def Let_def user_of_row_def
      split: prod.splits sum.splits option.splits if_splits)

lemma Get_None:
  assumes "UserRepository_Get drv r c i w = (Inr None, w')"
  shows "\<exists>u. uuid_in i = Some u \<and> users w u = None"
  using assms select_none [of "UserRepository_getPool r" "UserRepository_queryTimeout c" i w]
  by (fastforce simp: UserRepository_Get_def Let_def
      split: prod.splits sum.splits option.splits if_splits)

lemma Update_Some:
  assumes "ns \<or> es" "UserRepository_Update drv r c i n e ns es w = (Inr (Some v), w')"
  shows "\<exists>u t rw. uuid_in i = Some u \<and> user_updated ns es n e u t rw (users w) (users w') \<and>
           v = user_of_row u (masked_row ns es n e t rw)"
proof -
  have "\<not> (\<not> ns \<and> \<not> es)" using assms(1) by blast
  with assms(2) obtain row where
    q: "pool_QueryRow drv (UserRepository_getPool r) (UserRepository_queryTimeout c)
          (sql_update_user ns es) (update_args ns es n e @ [SStr i]) w = (Inr row, w')"
    and v: "\<exists>a b d x y. scan_user row = Some (a, b, d, x, y) \<and> v = mk_User a b d x y"
    unfolding UserRepository_Update_eq
    by (auto split: prod.splits sum.splits option.splits if_splits)
  from update_row [OF assms(1) q] v show ?thesis
    by (fastforce simp: user_of_row_def)
qed

lemma Update_None:
  assumes "ns \<or> es" "UserRepository_Update drv r c i n e ns es w = (Inr None, w')"
  shows "users w' = users w \<and> (\<exists>u. uuid_in i = Some u \<and> users w u = None)"
proof -
  have "\<not> (\<not> ns \<and> \<not> es)" using assms(1) by blast
  with assms(2) have "pool_QueryRow drv (UserRepository_getPool r) (UserRepository_queryTimeout c)
          (sql_update_user ns es) (update_args ns es n e @ [SStr i]) w = (Inl no_rows, w')"
    unfolding UserRepository_Update_eq
    by (auto split: prod.splits sum.splits option.splits if_splits)
  then show ?thesis by (rule update_none [OF assms(1)])
qed

lemma Update_query_sent:
  assumes "ns \<or> es" "UserRepository_Update drv r c i n e ns es w = (res, w')"
  obtains q where "pool_QueryRow drv (UserRepository_getPool r) (UserRepository_queryTimeout c)
      (sql_update_user ns es) (update_args ns es n e @ [SStr i]) w = (q, w')"
    and "\<And>err. res = Inl err \<Longrightarrow> \<exists>e0. q = Inl e0 \<and> err = ''update user: '' @ e0"
proof -
  have ne: "\<not> (\<not> ns \<and> \<not> es)" using assms(1) by blast
  obtain q w'' where q: "pool_QueryRow drv (UserRepository_getPool r) (UserRepository_queryTimeout c)
      (sql_update_user ns es) (update_args ns es n e @ [SStr i]) w = (q, w'')" by (meson surj_pair)
  note upd = assms(2) [unfolded UserRepository_Update_eq if_not_P [OF ne] q prod.case]
  show ?thesis
  proof (cases q)
    case (Inl e0)
    with upd that q show ?thesis by (auto split: if_splits)
  next
    case (Inr rw)
    have "\<exists>a b d x y. rw = [SStr a, SStr b, SStr d, STime x, STime y]"
      using update_row [OF assms(1) q [unfolded Inr]] by (elim exE conjE) (intro exI, assumption)
    then obtain a b d x y where "rw = [SStr a, SStr b, SStr d, STime x, STime y]" by (elim exE)
    with upd that q Inr show ?thesis by auto
  qed
qed

lemma Update_effect:
  assumes "ns \<or> es" "UserRepository_Update drv r c i n e ns es w = (res, w')"
  shows "users w' = users w \<or>
         (\<exists>u t rw. uuid_in i = Some u \<and> user_updated ns es n e u t rw (users w) (users w'))"
proof -
  obtain q where
    q: "pool_QueryRow drv (UserRepository_getPool r) (UserRepository_queryTimeout c)
          (sql_update_user ns es) (update_args ns es n e @ [SStr i]) w = (q, w')"
    by (rule Update_query_sent [OF assms], rule that)
  show ?thesis
  proof (cases q)
    case (Inl err)
    then show ?thesis using update_error [OF assms(1)] q by blast
  next
    case (Inr row)
    then show ?thesis using update_row [OF assms(1)] q by blast
  qed
qed

lemma Update_duplicate:
  assumes "ns \<or> es" "UserRepository_Update drv r c i n e ns es w = (Inl err, w')" "says_duplicate err"
  shows "users w' = users w"
proof (rule Update_query_sent [OF assms(1,2)])
  fix q
  assume q: "pool_QueryRow drv (UserRepository_getPool r) (UserRepository_queryTimeout c)
      (sql_update_user ns es) (update_args ns es n e @ [SStr i]) w = (q, w')"
    and "\<And>err'. Inl err = Inl err' \<Longrightarrow> \<exists>e0. q = Inl e0 \<and> err' = ''update user: '' @ e0"
  then obtain e0 where e0: "q = Inl e0" "err = ''update user: '' @ e0" by blast
  from assms(3) have "says_duplicate e0" unfolding e0 says_duplicate_update .
  then show ?thesis by (rule update_duplicate [OF assms(1) q [unfolded e0]])
qed

lemma Delete_Inr:
  assumes "UserRepository_Delete drv r c i w = (Inr b, w')"
  shows "\<exists>u. uuid_in i = Some u \<and> user_deleted u (users w) (users w') \<and> (b \<longleftrightarrow> users w u \<noteq> None)"
  using assms delete_row [of "UserRepository_getPool r" "UserRepository_queryTimeout c" i w]
  by (fastforce simp: UserRepository_Delete_def Let_def split: prod.splits sum.splits)

lemma Delete_Inl:
  assumes "UserRepository_Delete drv r c i w = (Inl err, w')"
  shows "users w' = users w \<or> (\<exists>u. uuid_in i = Some u \<and> user_deleted u (users w) (users w'))"
  using assms delete_error [of "UserRepository_getPool r" "UserRepository_queryTimeout c" i w]
  by (fastforce simp: UserRepository_Delete_def Let_def split: prod.splits sum.splits)

end

end
