(* ===== verification/UserService.thy ===== *)
theory UserService
  imports UserRepository
begin

text \<open>
  \<open>src/services/user-service/server.go\<close>: the four gRPC handlers of the user service. They are
  specified by an abstract service over the table alone (the inductive relation \<open>user_spec\<close>), and
  the handlers are shown to refine it over every database that keeps the promises of \<open>pg_users\<close>.
  The zap log lines of the handlers are not modelled: they go to standard output only.
\<close>

section \<open>Handlers\<close>

record UserServiceServer =
  UserServiceServer_repo :: UserRepository

definition NewUserServiceServer :: "UserRepository \<Rightarrow> UserServiceServer" where
  "NewUserServiceServer repo = \<lparr>UserServiceServer_repo = repo\<rparr>"

definition CreateUser ::
  "'w pgx \<Rightarrow> UserServiceServer \<Rightarrow> ctx \<Rightarrow> CreateUserRequest \<Rightarrow> 'w \<Rightarrow> (status + CreateUserResponse) \<times> 'w" where
  "CreateUser drv s c req0 w =
     (let req = req0\<lparr>CreateUserRequest_Name := TrimSpace (CreateUserRequest_Name req0),
                     CreateUserRequest_Email := TrimSpace (CreateUserRequest_Email req0)\<rparr>
      in if CreateUserRequest_Name req = '''' then
           (Inl (Status InvalidArgument ''name is required''), w)
         else if CreateUserRequest_Email req = '''' \<or> \<not> str_Contains (CreateUserRequest_Email req) ''@'' then
           (Inl (Status InvalidArgument ''valid email is required''), w)
         else
           (case UserRepository_Create drv (UserServiceServer_repo s) c
                   (CreateUserRequest_Name req) (CreateUserRequest_Email req) w of
              (Inl err, w') \<Rightarrow>
                (if str_Contains err ''unique'' \<or> str_Contains err ''duplicate'' then
                   (Inl (Status AlreadyExists ''email already in use''), w')
                 else (Inl (Status Internal ''failed to create user''), w'))
            | (Inr user, w') \<Rightarrow> (Inr \<lparr>CreateUserResponse_User = Some user\<rparr>, w')))"

definition GetUser ::
  "'w pgx \<Rightarrow> UserServiceServer \<Rightarrow> ctx \<Rightarrow> GetUserRequest \<Rightarrow> 'w \<Rightarrow> (status + GetUserResponse) \<times> 'w" where
  "GetUser drv s c req w =
     (if GetUserRequest_Id req = '''' then (Inl (Status InvalidArgument ''id is required''), w)
      else
        (case UserRepository_Get drv (UserServiceServer_repo s) c (GetUserRequest_Id req) w of
           (Inl err, w') \<Rightarrow> (Inl (Status Internal ''failed to get user''), w')
         | (Inr None, w') \<Rightarrow> (Inl (Status NotFound ''user not found''), w')
         | (Inr (Some user), w') \<Rightarrow> (Inr \<lparr>GetUserResponse_User = Some user\<rparr>, w')))"

text \<open>The loop over the mask: the locals are \<open>name\<close>, \<open>email\<close>, \<open>nameSet\<close> and \<open>emailSet\<close>.\<close>

fun UpdateUser_mask ::
  "User option \<Rightarrow> string list \<Rightarrow> string \<times> string \<times> bool \<times> bool \<Rightarrow>
   status + (string \<times> string \<times> bool \<times> bool)" where
  "UpdateUser_mask user [] st = Inr st"
| "UpdateUser_mask user (path # paths) (name, email, nameSet, emailSet) =
     (if path = ''name'' then
        (let name = TrimSpace (User_GetName user)
         in if name = '''' then Inl (Status InvalidArgument ''name cannot be empty'')
            else UpdateUser_mask user paths (name, email, True, emailSet))
      else if path = ''email'' then
        (let email = TrimSpace (User_GetEmail user)
         in if email = '''' \<or> \<not> str_Contains email ''@''
            then Inl (Status InvalidArgument ''valid email is required'')
            else UpdateUser_mask user paths (name, email, nameSet, True))
      else Inl (Status InvalidArgument (''unknown field: '' @ path)))"

definition UpdateUser ::
  "'w pgx \<Rightarrow> UserServiceServer \<Rightarrow> ctx \<Rightarrow> UpdateUserRequest \<Rightarrow> 'w \<Rightarrow> (status + UpdateUserResponse) \<times> 'w" where
  "UpdateUser drv s c req w =
     (if UpdateUserRequest_Id req = '''' then (Inl (Status InvalidArgument ''id is required''), w)
      else
        (case UpdateUserRequest_UpdateMask req of
           None \<Rightarrow> (Inl (Status InvalidArgument ''update_mask is required''), w)
         | Some fmask \<Rightarrow>
             if length (FieldMask_Paths fmask) = 0 then
               (Inl (Status InvalidArgument ''update_mask is required''), w)
             else
               (case UpdateUser_mask (UpdateUserRequest_User req) (FieldMask_Paths fmask)
                       ('''', '''', False, False) of
                  Inl st \<Rightarrow> (Inl st, w)
                | Inr (name, email, nameSet, emailSet) \<Rightarrow>
                    (case UserRepository_Update drv (UserServiceServer_repo s) c
                            (UpdateUserRequest_Id req) name email nameSet emailSet w of
                       (Inl err, w') \<Rightarrow>
                         (if str_Contains err ''unique'' \<or> str_Contains err ''duplicate'' then
                            (Inl (Status AlreadyExists ''email already in use''), w')
                          else (Inl (Status Internal ''failed to update user''), w'))
                     | (Inr None, w') \<Rightarrow> (Inl (Status NotFound ''user not found''), w')
                     | (Inr (Some user), w') \<Rightarrow>
                         (Inr \<lparr>UpdateUserResponse_User = Some user\<rparr>, w')))))"

definition DeleteUser ::
  "'w pgx \<Rightarrow> UserServiceServer \<Rightarrow> ctx \<Rightarrow> DeleteUserRequest \<Rightarrow> 'w \<Rightarrow> (status + DeleteUserResponse) \<times> 'w" where
  "DeleteUser drv s c req w =
     (if DeleteUserRequest_Id req = '''' then (Inl (Status InvalidArgument ''id is required''), w)
      else
        (case UserRepository_Delete drv (UserServiceServer_repo s) c (DeleteUserRequest_Id req) w of
           (Inl err, w') \<Rightarrow> (Inl (Status Internal ''failed to delete user''), w')
         | (Inr found, w') \<Rightarrow>
             (if \<not> found then (Inl (Status NotFound ''user not found''), w')
              else (Inr \<lparr>DeleteUserResponse_Message = ''user deleted''\<rparr>, w'))))"

text \<open>A call of the service and its reply, as \<open>user_grpc.pb.go\<close> dispatches them by method.\<close>

datatype user_call = CallCreateUser CreateUserRequest | CallGetUser GetUserRequest
  | CallUpdateUser UpdateUserRequest | CallDeleteUser DeleteUserRequest

datatype user_reply = ReplyCreateUser CreateUserResponse | ReplyGetUser GetUserResponse
  | ReplyUpdateUser UpdateUserResponse | ReplyDeleteUser DeleteUserResponse

fun UserService_dispatch ::
  "'w pgx \<Rightarrow> UserServiceServer \<Rightarrow> ctx \<Rightarrow> user_call \<Rightarrow> 'w \<Rightarrow> (status + user_reply) \<times> 'w" where
  "UserService_dispatch drv s c (CallCreateUser req) w =
     apfst (map_sum id ReplyCreateUser) (CreateUser drv s c req w)"
| "UserService_dispatch drv s c (CallGetUser req) w =
     apfst (map_sum id ReplyGetUser) (GetUser drv s c req w)"
| "UserService_dispatch drv s c (CallUpdateUser req) w =
     apfst (map_sum id ReplyUpdateUser) (UpdateUser drv s c req w)"
| "UserService_dispatch drv s c (CallDeleteUser req) w =
     apfst (map_sum id ReplyDeleteUser) (DeleteUser drv s c req w)"

section \<open>The mask loop\<close>

text \<open>What is wrong with one path of the mask, if anything.\<close>

definition path_error :: "User option \<Rightarrow> string \<Rightarrow> status option" where
  "path_error user path =
     (if path = ''name'' then
        (if TrimSpace (User_GetName user) = ''''
         then Some (Status InvalidArgument ''name cannot be empty'') else None)
      else if path = ''email'' then
        (if TrimSpace (User_GetEmail user) = '''' \<or> CHR ''@'' \<notin> set (TrimSpace (User_GetEmail user))
         then Some (Status InvalidArgument ''valid email is required'') else None)
      else Some (Status InvalidArgument (''unknown field: '' @ path)))"

definition mask_error :: "User option \<Rightarrow> string list \<Rightarrow> status option" where
  "mask_error user paths = (case find (\<lambda>p. path_error user p \<noteq> None) paths of
     None \<Rightarrow> None | Some p \<Rightarrow> path_error user p)"

lemma mask_error_simps [simp]:
  "mask_error user [] = None"
  "mask_error user (p # ps) = (case path_error user p of None \<Rightarrow> mask_error user ps | Some st \<Rightarrow> Some st)"
  by (auto simp: mask_error_def split: option.splits)

lemma UpdateUser_mask_gen:
  "UpdateUser_mask user paths (name, email, ns, es) =
     (case mask_error user paths of
        Some st \<Rightarrow> Inl st
      | None \<Rightarrow>
          Inr (if ''name'' \<in> set paths then TrimSpace (User_GetName user) else name,
               if ''email'' \<in> set paths then TrimSpace (User_GetEmail user) else email,
               ns \<or> ''name'' \<in> set paths, es \<or> ''email'' \<in> set paths))"
proof (induction paths arbitrary: name email ns es)
  case Nil
  then show ?case by simp
next
  case (Cons p ps)
  show ?case
    by (cases "p = ''name''"; cases "p = ''email''")
      (auto simp: Cons.IH path_error_def Let_def str_Contains_single split: option.splits)
qed

lemma mask_error_None_names:
  "mask_error user paths = None \<Longrightarrow> p \<in> set paths \<Longrightarrow> p = ''name'' \<or> p = ''email''"
  by (induction paths) (auto simp: path_error_def split: option.splits if_splits)

lemma mask_error_None_valid:
  assumes "mask_error user paths = None"
  shows "''name'' \<in> set paths \<Longrightarrow> TrimSpace (User_GetName user) \<noteq> ''''"
    and "''email'' \<in> set paths \<Longrightarrow> CHR ''@'' \<in> set (TrimSpace (User_GetEmail user))"
  using assms by (induction paths) (auto simp: path_error_def split: option.splits if_splits)

section \<open>The abstract service\<close>

text \<open>
  The service over the table alone: \<open>user_spec uuid_in m call reply m'\<close> says that \<open>reply\<close> is a
  permitted answer to \<open>call\<close> on the table \<open>m\<close>, leaving the table \<open>m'\<close>. A call that fails inside
  (\<open>Internal\<close>) promises only that the table is unchanged or carries the complete effect.
\<close>

abbreviation req_name :: "CreateUserRequest \<Rightarrow> string" where
  "req_name req \<equiv> TrimSpace (CreateUserRequest_Name req)"

abbreviation req_email :: "CreateUserRequest \<Rightarrow> string" where
  "req_email req \<equiv> TrimSpace (CreateUserRequest_Email req)"

definition valid_create :: "CreateUserRequest \<Rightarrow> bool" where
  "valid_create req \<longleftrightarrow> req_name req \<noteq> '''' \<and> CHR ''@'' \<in> set (req_email req)"

text \<open>The fields an update request sets, given by its mask.\<close>

definition req_paths :: "UpdateUserRequest \<Rightarrow> string list" where
  "req_paths req = (case UpdateUserRequest_UpdateMask req of None \<Rightarrow> [] | Some f \<Rightarrow> FieldMask_Paths f)"

definition valid_update :: "UpdateUserRequest \<Rightarrow> bool" where
  "valid_update req \<longleftrightarrow> UpdateUserRequest_Id req \<noteq> '''' \<and> req_paths req \<noteq> [] \<and>
     mask_error (UpdateUserRequest_User req) (req_paths req) = None"

definition req_updated ::
  "UpdateUserRequest \<Rightarrow> string \<Rightarrow> time \<Rightarrow> user_row \<Rightarrow> users_table \<Rightarrow> users_table \<Rightarrow> bool" where
  "req_updated req = user_updated (''name'' \<in> set (req_paths req)) (''email'' \<in> set (req_paths req))
     (TrimSpace (User_GetName (UpdateUserRequest_User req)))
     (TrimSpace (User_GetEmail (UpdateUserRequest_User req)))"

definition req_row :: "UpdateUserRequest \<Rightarrow> time \<Rightarrow> user_row \<Rightarrow> user_row" where
  "req_row req = masked_row (''name'' \<in> set (req_paths req)) (''email'' \<in> set (req_paths req))
     (TrimSpace (User_GetName (UpdateUserRequest_User req)))
     (TrimSpace (User_GetEmail (UpdateUserRequest_User req)))"

inductive user_spec ::
  "(string \<Rightarrow> string option) \<Rightarrow> users_table \<Rightarrow> user_call \<Rightarrow> status + user_reply \<Rightarrow> users_table \<Rightarrow> bool"
  for uuid_in where
  create_no_name: "req_name req = '''' \<Longrightarrow>
    user_spec uuid_in m (CallCreateUser req) (Inl (Status InvalidArgument ''name is required'')) m"
| create_no_email: "req_name req \<noteq> '''' \<Longrightarrow> CHR ''@'' \<notin> set (req_email req) \<Longrightarrow>
    user_spec uuid_in m (CallCreateUser req) (Inl (Status InvalidArgument ''valid email is required'')) m"
| create_ok: "valid_create req \<Longrightarrow> user_inserted uuid_in (req_name req) (req_email req) u t m m' \<Longrightarrow>
    user_spec uuid_in m (CallCreateUser req)
      (Inr (ReplyCreateUser \<lparr>CreateUserResponse_User =
         Some (mk_User u (req_name req) (req_email req) t t)\<rparr>)) m'"
| create_taken: "valid_create req \<Longrightarrow> req_email req \<in> emails m \<Longrightarrow>
    user_spec uuid_in m (CallCreateUser req) (Inl (Status AlreadyExists ''email already in use'')) m"
| create_failed: "valid_create req \<Longrightarrow>
    m' = m \<or> (\<exists>u t. user_inserted uuid_in (req_name req) (req_email req) u t m m') \<Longrightarrow>
    user_spec uuid_in m (CallCreateUser req) (Inl (Status Internal ''failed to create user'')) m'"
| get_no_id: "GetUserRequest_Id req = '''' \<Longrightarrow>
    user_spec uuid_in m (CallGetUser req) (Inl (Status InvalidArgument ''id is required'')) m"
| get_ok: "GetUserRequest_Id req \<noteq> '''' \<Longrightarrow> uuid_in (GetUserRequest_Id req) = Some u \<Longrightarrow> m u = Some r \<Longrightarrow>
    user_spec uuid_in m (CallGetUser req)
      (Inr (ReplyGetUser \<lparr>GetUserResponse_User = Some (user_of_row (GetUserRequest_Id req) r)\<rparr>)) m"
| get_missing: "GetUserRequest_Id req \<noteq> '''' \<Longrightarrow> uuid_in (GetUserRequest_Id req) = Some u \<Longrightarrow> m u = None \<Longrightarrow>
    user_spec uuid_in m (CallGetUser req) (Inl (Status NotFound ''user not found'')) m"
| get_failed: "GetUserRequest_Id req \<noteq> '''' \<Longrightarrow>
    user_spec uuid_in m (CallGetUser req) (Inl (Status Internal ''failed to get user'')) m"
| update_no_id: "UpdateUserRequest_Id req = '''' \<Longrightarrow>
    user_spec uuid_in m (CallUpdateUser req) (Inl (Status InvalidArgument ''id is required'')) m"
| update_no_mask: "UpdateUserRequest_Id req \<noteq> '''' \<Longrightarrow> req_paths req = [] \<Longrightarrow>
    user_spec uuid_in m (CallUpdateUser req) (Inl (Status InvalidArgument ''update_mask is required'')) m"
| update_invalid: "UpdateUserRequest_Id req \<noteq> '''' \<Longrightarrow> req_paths req \<noteq> [] \<Longrightarrow>
    mask_error (UpdateUserRequest_User req) (req_paths req) = Some st \<Longrightarrow>
    user_spec uuid_in m (CallUpdateUser req) (Inl st) m"
| update_ok: "valid_update req \<Longrightarrow> uuid_in (UpdateUserRequest_Id req) = Some u \<Longrightarrow>
    req_updated req u t r m m' \<Longrightarrow>
    user_spec uuid_in m (CallUpdateUser req)
      (Inr (ReplyUpdateUser \<lparr>UpdateUserResponse_User = Some (user_of_row u (req_row req t r))\<rparr>)) m'"
| update_missing: "valid_update req \<Longrightarrow> uuid_in (UpdateUserRequest_Id req) = Some u \<Longrightarrow> m u = None \<Longrightarrow>
    user_spec uuid_in m (CallUpdateUser req) (Inl (Status NotFound ''user not found'')) m"
| update_taken: "valid_update req \<Longrightarrow>
    user_spec uuid_in m (CallUpdateUser req) (Inl (Status AlreadyExists ''email already in use'')) m"
| update_failed: "valid_update req \<Longrightarrow>
    m' = m \<or> (\<exists>u t r. uuid_in (UpdateUserRequest_Id req) = Some u \<and> req_updated req u t r m m') \<Longrightarrow>
    user_spec uuid_in m (CallUpdateUser req) (Inl (Status Internal ''failed to update user'')) m'"
| delete_no_id: "DeleteUserRequest_Id req = '''' \<Longrightarrow>
    user_spec uuid_in m (CallDeleteUser req) (Inl (Status InvalidArgument ''id is required'')) m"
| delete_ok: "DeleteUserRequest_Id req \<noteq> '''' \<Longrightarrow> uuid_in (DeleteUserRequest_Id req) = Some u \<Longrightarrow>
    m u \<noteq> None \<Longrightarrow> user_deleted u m m' \<Longrightarrow>
    user_spec uuid_in m (CallDeleteUser req)
      (Inr (ReplyDeleteUser \<lparr>DeleteUserResponse_Message = ''user deleted''\<rparr>)) m'"
| delete_missing: "DeleteUserRequest_Id req \<noteq> '''' \<Longrightarrow> uuid_in (DeleteUserRequest_Id req) = Some u \<Longrightarrow>
    m u = None \<Longrightarrow>
    user_spec uuid_in m (CallDeleteUser req) (Inl (Status NotFound ''user not found'')) m"
| delete_failed: "DeleteUserRequest_Id req \<noteq> '''' \<Longrightarrow>
    m' = m \<or> (\<exists>u. uuid_in (DeleteUserRequest_Id req) = Some u \<and> user_deleted u m m') \<Longrightarrow>
    user_spec uuid_in m (CallDeleteUser req) (Inl (Status Internal ''failed to delete user'')) m'"

inductive_cases user_spec_createE: "user_spec uuid_in m (CallCreateUser req) reply m'"
inductive_cases user_spec_getE: "user_spec uuid_in m (CallGetUser req) reply m'"
inductive_cases user_spec_updateE: "user_spec uuid_in m (CallUpdateUser req) reply m'"
inductive_cases user_spec_deleteE: "user_spec uuid_in m (CallDeleteUser req) reply m'"

section \<open>The invariant of the table\<close>

definition user_row_wf :: "user_row \<Rightarrow> bool" where
  "user_row_wf r \<longleftrightarrow> trimmed (ur_name r) \<and> ur_name r \<noteq> '''' \<and>
     trimmed (ur_email r) \<and> CHR ''@'' \<in> set (ur_email r)"

definition users_inv :: "(string \<Rightarrow> string option) \<Rightarrow> users_table \<Rightarrow> bool" where
  "users_inv uuid_in m \<longleftrightarrow>
     (\<forall>u r. m u = Some r \<longrightarrow> uuid_in u = Some u \<and> user_row_wf r) \<and>
     (\<forall>u v r s. m u = Some r \<longrightarrow> m v = Some s \<longrightarrow> ur_email r = ur_email s \<longrightarrow> u = v)"

lemma emails_iff: "e \<in> emails m \<longleftrightarrow> (\<exists>u r. m u = Some r \<and> ur_email r = e)"
  by (auto simp: emails_def ran_def)

lemma users_invD:
  assumes "users_inv uuid_in m" "m u = Some r"
  shows "uuid_in u = Some u" "user_row_wf r" "m v = Some s \<Longrightarrow> ur_email r = ur_email s \<Longrightarrow> u = v"
  using assms unfolding users_inv_def by blast+

lemma users_inv_upd:
  assumes inv: "users_inv uuid_in m" and row: "uuid_in u = Some u" "user_row_wf r"
    and free: "\<And>v s. v \<noteq> u \<Longrightarrow> m v = Some s \<Longrightarrow> ur_email s \<noteq> ur_email r"
  shows "users_inv uuid_in (m(u \<mapsto> r))"
proof -
  have "v = w" if "(m(u \<mapsto> r)) v = Some a" "(m(u \<mapsto> r)) w = Some b" "ur_email a = ur_email b" for v w a b
  proof (cases "v = u")
    case True
    with that free [of w b] show ?thesis by (cases "w = u") auto
  next
    case False
    with that free [of v a] users_invD(3) [OF inv, of v a w b] show ?thesis by (cases "w = u") auto
  qed
  moreover have "uuid_in v = Some v \<and> user_row_wf a" if "(m(u \<mapsto> r)) v = Some a" for v a
    using that row users_invD(1,2) [OF inv, of v a] by (cases "v = u") auto
  ultimately show ?thesis unfolding users_inv_def by blast
qed

lemma users_inv_inserted:
  assumes "users_inv uuid_in m" "user_inserted uuid_in n e u t m m'"
    "trimmed n" "n \<noteq> []" "trimmed e" "CHR ''@'' \<in> set e"
  shows "users_inv uuid_in m'"
proof -
  have "users_inv uuid_in (m(u \<mapsto> \<lparr>ur_name = n, ur_email = e, ur_created = t, ur_updated = t\<rparr>))"
    using assms by (intro users_inv_upd) (auto simp: user_inserted_def user_row_wf_def emails_iff)
  then show ?thesis using assms(2) by (simp add: user_inserted_def)
qed

lemma users_inv_updated:
  assumes inv: "users_inv uuid_in m" and upd: "user_updated ns es n e u t r m m'"
    and new: "ns \<Longrightarrow> trimmed n \<and> n \<noteq> []" "es \<Longrightarrow> trimmed e \<and> CHR ''@'' \<in> set e"
  shows "users_inv uuid_in m'"
proof -
  have r: "m u = Some r" and free: "es \<Longrightarrow> e \<notin> emails (m(u := None))"
    using upd by (auto simp: user_updated_def)
  have "ur_email s \<noteq> ur_email (masked_row ns es n e t r)" if "v \<noteq> u" "m v = Some s" for v s
  proof (cases es)
    case True
    have "ur_email s \<in> emails (m(u := None))" using that unfolding emails_iff by (metis fun_upd_other)
    with True free show ?thesis by (auto simp: masked_row_def)
  next
    case False
    then show ?thesis using users_invD(3) [OF inv that(2) r] that(1) by (auto simp: masked_row_def)
  qed
  then have "users_inv uuid_in (m(u \<mapsto> masked_row ns es n e t r))"
    using users_invD(1,2) [OF inv r] new
    by (intro users_inv_upd [OF inv]) (auto simp: user_row_wf_def masked_row_def)
  then show ?thesis using upd by (simp add: user_updated_def)
qed

lemma users_inv_deleted: "users_inv uuid_in m \<Longrightarrow> user_deleted u m m' \<Longrightarrow> users_inv uuid_in m'"
  unfolding users_inv_def user_deleted_def by (auto split: if_splits)

lemma users_inv_req_updated:
  assumes "users_inv uuid_in m" "valid_update req" "req_updated req u t r m m'"
  shows "users_inv uuid_in m'"
  using assms(1) assms(3) [unfolded req_updated_def]
  by (rule users_inv_updated)
     (use assms(2) in \<open>auto simp: valid_update_def TrimSpace_trimmed dest: mask_error_None_valid\<close>)

lemma user_spec_inv: "user_spec uuid_in m call reply m' \<Longrightarrow> users_inv uuid_in m \<Longrightarrow> users_inv uuid_in m'"
proof (induction rule: user_spec.induct)
  case (create_ok req u t m m')
  then show ?case by (auto simp: valid_create_def TrimSpace_trimmed intro: users_inv_inserted)
next
  case (create_failed req m' m)
  then show ?case by (auto simp: valid_create_def TrimSpace_trimmed intro: users_inv_inserted)
qed (auto intro: users_inv_req_updated users_inv_deleted)

section \<open>A valid update\<close>

definition update_reply :: "go_error + User option \<Rightarrow> status + UpdateUserResponse" where
  "update_reply q = (case q of
       Inl err \<Rightarrow> Inl (if says_duplicate err then Status AlreadyExists ''email already in use''
                    else Status Internal ''failed to update user'')
     | Inr None \<Rightarrow> Inl (Status NotFound ''user not found'')
     | Inr (Some user) \<Rightarrow> Inr \<lparr>UpdateUserResponse_User = Some user\<rparr>)"

lemma UpdateUser_valid:
  assumes "valid_update req"
  shows "UpdateUser drv s c req w = apfst update_reply
     (UserRepository_Update drv (UserServiceServer_repo s) c (UpdateUserRequest_Id req)
        (if ''name'' \<in> set (req_paths req) then TrimSpace (User_GetName (UpdateUserRequest_User req)) else [])
        (if ''email'' \<in> set (req_paths req) then TrimSpace (User_GetEmail (UpdateUserRequest_User req)) else [])
        (''name'' \<in> set (req_paths req)) (''email'' \<in> set (req_paths req)) w)"
proof -
  obtain fm where fm: "UpdateUserRequest_UpdateMask req = Some fm" "FieldMask_Paths fm = req_paths req"
    using assms by (auto simp: valid_update_def req_paths_def split: option.splits)
  obtain q w' where q: "UserRepository_Update drv (UserServiceServer_repo s) c (UpdateUserRequest_Id req)
        (if ''name'' \<in> set (req_paths req) then TrimSpace (User_GetName (UpdateUserRequest_User req)) else [])
        (if ''email'' \<in> set (req_paths req) then TrimSpace (User_GetEmail (UpdateUserRequest_User req)) else [])
        (''name'' \<in> set (req_paths req)) (''email'' \<in> set (req_paths req)) w = (q, w')"
    by (meson surj_pair)
  show ?thesis
    using assms q unfolding UpdateUser_def valid_update_def fm
    by (auto simp: UpdateUser_mask_gen fm update_reply_def says_duplicate_def split: sum.splits option.splits)
qed

lemma valid_update_set: "valid_update req \<Longrightarrow> ''name'' \<in> set (req_paths req) \<or> ''email'' \<in> set (req_paths req)"
  unfolding valid_update_def by (metis list.set_sel(1) mask_error_None_names)

section \<open>The handlers refine the abstract service\<close>

context pg_users
begin

lemma CreateUser_refines:
  assumes run: "CreateUser drv s c req w = (res, w')"
  shows "user_spec uuid_in (users w) (CallCreateUser req) (map_sum id ReplyCreateUser res) (users w')"
proof -
  let ?n = "req_name req" and ?e = "req_email req"
  have email: "?e = [] \<or> \<not> str_Contains ?e ''@'' \<longleftrightarrow> CHR ''@'' \<notin> set ?e"
    by (auto simp: str_Contains_single)
  consider (no_name) "?n = []" | (no_email) "?n \<noteq> []" "CHR ''@'' \<notin> set ?e" | (valid) "valid_create req"
    unfolding valid_create_def by blast
  then show ?thesis
  proof cases
    case no_name
    with run show ?thesis by (auto simp: CreateUser_def intro: user_spec.create_no_name)
  next
    case no_email
    with run email have "res = Inl (Status InvalidArgument ''valid email is required'')" "w' = w"
      by (auto simp: CreateUser_def)
    with no_email show ?thesis by (simp add: user_spec.create_no_email)
  next
    case valid
    obtain q where q: "UserRepository_Create drv (UserServiceServer_repo s) c ?n ?e w = (q, w')"
      and res: "res = (case q of
          Inl err \<Rightarrow> Inl (if says_duplicate err then Status AlreadyExists ''email already in use''
                       else Status Internal ''failed to create user'')
        | Inr user \<Rightarrow> Inr \<lparr>CreateUserResponse_User = Some user\<rparr>)"
      using run valid email unfolding CreateUser_def valid_create_def says_duplicate_def
      by (auto split: prod.splits sum.splits if_splits)
    show ?thesis
    proof (cases q)
      case (Inl err)
      then show ?thesis
        using res valid Create_Inl [OF q [unfolded Inl]] Create_duplicate [OF q [unfolded Inl]]
        by (auto intro: user_spec.create_taken user_spec.create_failed)
    next
      case (Inr user)
      then show ?thesis
        using res valid Create_Inr [OF q [unfolded Inr]] by (auto intro: user_spec.create_ok)
    qed
  qed
qed

lemma GetUser_refines:
  assumes run: "GetUser drv s c req w = (res, w')"
  shows "user_spec uuid_in (users w) (CallGetUser req) (map_sum id ReplyGetUser res) (users w')"
proof (cases "GetUserRequest_Id req = []")
  case True
  with run show ?thesis by (auto simp: GetUser_def intro: user_spec.get_no_id)
next
  case False
  obtain q where q: "UserRepository_Get drv (UserServiceServer_repo s) c (GetUserRequest_Id req) w = (q, w')"
    and res: "res = (case q of
        Inl err \<Rightarrow> Inl (Status Internal ''failed to get user'')
      | Inr None \<Rightarrow> Inl (Status NotFound ''user not found'')
      | Inr (Some user) \<Rightarrow> Inr \<lparr>GetUserResponse_User = Some user\<rparr>)"
    using run False by (auto simp: GetUser_def split: prod.splits sum.splits option.splits)
  note Get_keeps [OF q, simp]
  from q res False show ?thesis
    by (auto split: sum.splits option.splits dest!: Get_Some Get_None
        intro: user_spec.get_ok user_spec.get_missing user_spec.get_failed)
qed

lemma UpdateUser_refines:
  assumes run: "UpdateUser drv s c req w = (res, w')"
  shows "user_spec uuid_in (users w) (CallUpdateUser req) (map_sum id ReplyUpdateUser res) (users w')"
proof -
  let ?u = "UpdateUserRequest_User req" and ?ps = "req_paths req"
  let ?ns = "''name'' \<in> set ?ps" and ?es = "''email'' \<in> set ?ps"
  let ?n = "TrimSpace (User_GetName ?u)" and ?e = "TrimSpace (User_GetEmail ?u)"
  consider (no_id) "UpdateUserRequest_Id req = []"
    | (no_mask) "UpdateUserRequest_Id req \<noteq> []" "?ps = []"
    | (invalid) st where "UpdateUserRequest_Id req \<noteq> []" "?ps \<noteq> []" "mask_error ?u ?ps = Some st"
    | (valid) "valid_update req"
    unfolding valid_update_def by fastforce
  then show ?thesis
  proof cases
    case no_id
    with run show ?thesis by (auto simp: UpdateUser_def intro: user_spec.update_no_id)
  next
    case no_mask
    with run have "res = Inl (Status InvalidArgument ''update_mask is required'')" "w' = w"
      by (auto simp: UpdateUser_def req_paths_def split: option.splits)
    with no_mask show ?thesis by (simp add: user_spec.update_no_mask)
  next
    case (invalid st)
    with run have "res = Inl st" "w' = w"
      by (auto simp: UpdateUser_def req_paths_def UpdateUser_mask_gen split: option.splits)
    with invalid show ?thesis by (auto intro: user_spec.update_invalid)
  next
    case valid
    note set = valid_update_set [OF valid]
    obtain q w2 where
      q2: "UserRepository_Update drv (UserServiceServer_repo s) c (UpdateUserRequest_Id req)
            (if ?ns then ?n else []) (if ?es then ?e else []) ?ns ?es w = (q, w2)"
      by (meson surj_pair)
    from run have res: "res = update_reply q" and w2: "w2 = w'"
      unfolding UpdateUser_valid [OF valid] q2 by simp_all
    note q = q2 [unfolded w2]
    have args: "user_updated ?ns ?es (if ?ns then ?n else []) (if ?es then ?e else []) = req_updated req"
      "masked_row ?ns ?es (if ?ns then ?n else []) (if ?es then ?e else []) = req_row req"
      by (auto simp: fun_eq_iff req_updated_def req_row_def user_updated_def masked_row_def)
    show ?thesis
    proof (cases q)
      case (Inl err)
      then show ?thesis
        using res valid Update_effect [OF set q] Update_duplicate [OF set q [unfolded Inl]]
        unfolding args by (auto simp: update_reply_def intro: user_spec.update_taken user_spec.update_failed)
    next
      case (Inr ou)
      show ?thesis
      proof (cases ou)
        case None
        with Update_None [OF set q [unfolded Inr None]] res valid Inr show ?thesis
          by (auto simp: update_reply_def intro: user_spec.update_missing)
      next
        case (Some user)
        from Update_Some [OF set q [unfolded Inr Some]] obtain u t r where
          "uuid_in (UpdateUserRequest_Id req) = Some u" "req_updated req u t r (users w) (users w')"
          "user = user_of_row u (req_row req t r)" unfolding args by blast
        with res valid Inr Some show ?thesis by (simp add: update_reply_def user_spec.update_ok)
      qed
    qed
  qed
qed

lemma DeleteUser_refines:
  assumes run: "DeleteUser drv s c req w = (res, w')"
  shows "user_spec uuid_in (users w) (CallDeleteUser req) (map_sum id ReplyDeleteUser res) (users w')"
proof (cases "DeleteUserRequest_Id req = []")
  case True
  with run show ?thesis by (auto simp: DeleteUser_def intro: user_spec.delete_no_id)
next
  case False
  obtain q where q: "UserRepository_Delete drv (UserServiceServer_repo s) c (DeleteUserRequest_Id req) w = (q, w')"
    and res: "res = (case q of
        Inl err \<Rightarrow> Inl (Status Internal ''failed to delete user'')
      | Inr found \<Rightarrow> if found then Inr \<lparr>DeleteUserResponse_Message = ''user deleted''\<rparr>
                     else Inl (Status NotFound ''user not found''))"
    using run False by (auto simp: DeleteUser_def split: prod.splits sum.splits if_splits)
  show ?thesis
  proof (cases q)
    case (Inl err)
    then show ?thesis
      using res False Delete_Inl [OF q [unfolded Inl]] by (auto intro: user_spec.delete_failed)
  next
    case (Inr found)
    then obtain u where u: "uuid_in (DeleteUserRequest_Id req) = Some u"
      "user_deleted u (users w) (users w')" "found \<longleftrightarrow> users w u \<noteq> None"
      using Delete_Inr [OF q [unfolded Inr]] by blast
    have "users w' = users w" if "users w u = None"
      using u(2) that by (auto simp: user_deleted_def)
    with u res Inr False show ?thesis
      by (auto intro: user_spec.delete_ok user_spec.delete_missing)
  qed
qed

lemma dispatch_refines:
  assumes "UserService_dispatch drv s c call w = (reply, w')"
  shows "user_spec uuid_in (users w) call reply (users w')"
  using assms CreateUser_refines GetUser_refines UpdateUser_refines DeleteUser_refines
  by (cases call) (auto simp: apfst_def map_prod_def split: prod.splits)

end

end
