(* ===== verification/MemUsers.thy ===== *)
theory MemUsers
  imports UserService "HOL-Library.AList"
begin

text \<open>
  An executable in-memory database for the table of
  \<open>src/db/migrations/000001_create_users.up.sql\<close>: the primary key, the NOT NULL and UNIQUE
  constraints, the VARCHAR limits, the default for \<open>id\<close> and \<open>NOW()\<close>, and connection pools that can
  be closed. It keeps the promises of \<open>pg_users\<close> (the interpretation at the end), so that the
  theorems about the user service hold for it and can be evaluated on it.
\<close>

section \<open>UUID texts\<close>

definition hex_digit :: "nat \<Rightarrow> char" where
  "hex_digit n = ''0123456789abcdef'' ! n"

definition is_hex :: "char \<Rightarrow> bool" where
  "is_hex c \<longleftrightarrow> c \<in> set ''0123456789abcdef''"

definition to_lower :: "char \<Rightarrow> char" where
  "to_lower c = (case map_of (zip ''ABCDEF'' ''abcdef'') c of None \<Rightarrow> c | Some d \<Rightarrow> d)"

text \<open>The shape of a canonical UUID text: hex digits in groups of 8, 4, 4, 4 and 12.\<close>

definition uuid_shape :: "bool list" where
  "uuid_shape = replicate 8 True @ [False] @ replicate 4 True @ [False] @ replicate 4 True @ [False] @
     replicate 4 True @ [False] @ replicate 12 True"

definition is_uuid :: "string \<Rightarrow> bool" where
  "is_uuid s \<longleftrightarrow> list_all2 (\<lambda>h c. if h then is_hex c else c = CHR ''-'') uuid_shape s"

definition mem_uuid_in :: "string \<Rightarrow> string option" where
  "mem_uuid_in s = (let t = map to_lower s in if is_uuid t then Some t else None)"

text \<open>The identifiers the database hands out: the low digits count up.\<close>

fun hex_text :: "nat \<Rightarrow> nat \<Rightarrow> string" where
  "hex_text 0 k = []"
| "hex_text (Suc n) k = hex_text n (k div 16) @ [hex_digit (k mod 16)]"

definition mem_uuid :: "nat \<Rightarrow> string" where
  "mem_uuid k = ''00000000-0000-4000-8000-'' @ hex_text 12 k"

lemma hex_digit_props:
  assumes "n < 16"
  shows "is_hex (hex_digit n)" "to_lower (hex_digit n) = hex_digit n"
proof -
  have "list_all (\<lambda>n. is_hex (hex_digit n) \<and> to_lower (hex_digit n) = hex_digit n) [0..<16]"
    by code_simp
  with assms show "is_hex (hex_digit n)" "to_lower (hex_digit n) = hex_digit n"
    by (simp_all add: list_all_iff)
qed

lemma hex_text_props:
  "length (hex_text n k) = n" "list_all is_hex (hex_text n k)" "map to_lower (hex_text n k) = hex_text n k"
  by (induction n arbitrary: k) (simp_all add: hex_digit_props)

lemma list_all2_replicate_hex:
  "list_all is_hex xs \<Longrightarrow>
   list_all2 (\<lambda>h c. if h then is_hex c else c = CHR ''-'') (replicate (length xs) True) xs"
  by (induction xs) auto

lemma mem_uuid_in_mem_uuid [simp]: "mem_uuid_in (mem_uuid k) = Some (mem_uuid k)"
proof -
  have lower: "map to_lower (mem_uuid k) = mem_uuid k"
  proof -
    have "map to_lower ''00000000-0000-4000-8000-'' = ''00000000-0000-4000-8000-''" by code_simp
    then show ?thesis by (simp only: mem_uuid_def map_append hex_text_props)
  qed
  let ?P = "\<lambda>h c. if h then is_hex c else c = CHR ''-''"
  have front: "list_all2 ?P (take 24 uuid_shape) ''00000000-0000-4000-8000-''" by code_simp
  have rear: "list_all2 ?P (replicate 12 True) (hex_text 12 k)"
    using list_all2_replicate_hex [of "hex_text 12 k"] by (simp only: hex_text_props)
  have "uuid_shape = take 24 uuid_shape @ replicate 12 True" by code_simp
  then have "is_uuid (mem_uuid k) \<longleftrightarrow>
      list_all2 ?P (take 24 uuid_shape @ replicate 12 True) (''00000000-0000-4000-8000-'' @ hex_text 12 k)"
    unfolding is_uuid_def mem_uuid_def by (simp only:)
  then have "is_uuid (mem_uuid k)" using list_all2_appendI [OF front rear] by (simp only:)
  with lower show ?thesis by (simp add: mem_uuid_in_def)
qed

text \<open>A code equation for small counters, which keeps evaluation cheap.\<close>

lemma mem_uuid_code [code]:
  "mem_uuid k =
     (if k < 16 then ''00000000-0000-4000-8000-00000000000'' @ [hex_digit k]
      else ''00000000-0000-4000-8000-'' @ hex_text 12 k)"
proof (cases "k < 16")
  case True
  have "hex_text n 0 = replicate n (CHR ''0'')" for n
    by (induction n) (simp_all add: hex_digit_def replicate_append_same)
  moreover have "hex_text (Suc 11) k = hex_text 11 (k div 16) @ [hex_digit (k mod 16)]" by (rule hex_text.simps)
  ultimately have "hex_text 12 k = replicate 11 (CHR ''0'') @ [hex_digit k]" using True by simp
  moreover have "''00000000-0000-4000-8000-'' @ replicate 11 (CHR ''0'') = ''00000000-0000-4000-8000-00000000000''"
    by code_simp
  ultimately show ?thesis using True unfolding mem_uuid_def by (metis append.assoc)
qed (simp only: mem_uuid_def if_False)

section \<open>The database\<close>

record mem_users =
  mu_rows :: "(string \<times> user_row) list"
  mu_clock :: time
  mu_next :: nat
  mu_closed :: "nat list"

definition mem_users_empty :: mem_users where
  "mem_users_empty = \<lparr>mu_rows = [], mu_clock = 1, mu_next = 1, mu_closed = []\<rparr>"

definition mem_table :: "mem_users \<Rightarrow> users_table" where
  "mem_table w = map_of (mu_rows w)"

definition mem_email_taken :: "string \<Rightarrow> (string \<times> user_row) list \<Rightarrow> bool" where
  "mem_email_taken e rows =
     list_ex (\<lambda>k. case map_of rows k of None \<Rightarrow> False | Some r \<Rightarrow> ur_email r = e) (map fst rows)"

text \<open>VARCHAR limits count characters, that is bytes that do not continue a UTF-8 sequence.\<close>

definition char_count :: "string \<Rightarrow> nat" where
  "char_count s = length (filter (\<lambda>c. \<not> (128 \<le> (of_char c :: nat) \<and> (of_char c :: nat) < 192)) s)"

definition err_too_long :: go_error where
  "err_too_long = ''ERROR: value too long for type character varying (SQLSTATE 22001)''"

definition err_email_taken :: go_error where
  "err_email_taken = ''ERROR: duplicate key value violates unique constraint users_email_key (SQLSTATE 23505)''"

definition err_bad_uuid :: "string \<Rightarrow> go_error" where
  "err_bad_uuid i = ''ERROR: invalid input syntax for type uuid: '' @ i @ '' (SQLSTATE 22P02)''"

definition err_no_id :: go_error where
  "err_no_id = ''ERROR: identifier space exhausted''"

definition err_statement :: go_error where
  "err_statement = ''ERROR: syntax error (SQLSTATE 42601)''"

definition err_closed :: go_error where
  "err_closed = ''closed pool''"

definition mem_insert :: "string \<Rightarrow> string \<Rightarrow> mem_users \<Rightarrow> (go_error + row) \<times> mem_users" where
  "mem_insert n e w =
     (let u = mem_uuid (mu_next w); t = mu_clock w
      in if 100 < char_count n \<or> 255 < char_count e then (Inl err_too_long, w)
         else if mem_email_taken e (mu_rows w) then (Inl err_email_taken, w)
         else if map_of (mu_rows w) u \<noteq> None then (Inl err_no_id, w)
         else (Inr [SStr u, STime t, STime t],
               w\<lparr>mu_rows := AList.update u \<lparr>ur_name = n, ur_email = e, ur_created = t, ur_updated = t\<rparr> (mu_rows w),
                 mu_clock := t + 1, mu_next := mu_next w + 1\<rparr>))"

definition mem_select :: "string \<Rightarrow> mem_users \<Rightarrow> (go_error + row) \<times> mem_users" where
  "mem_select i w =
     (case mem_uuid_in i of
        None \<Rightarrow> (Inl (err_bad_uuid i), w)
      | Some u \<Rightarrow>
          (case map_of (mu_rows w) u of
             None \<Rightarrow> (Inl no_rows, w)
           | Some r \<Rightarrow>
               (Inr [SStr (ur_name r), SStr (ur_email r), STime (ur_created r), STime (ur_updated r)], w)))"

definition mem_update ::
  "bool \<Rightarrow> bool \<Rightarrow> string \<Rightarrow> string \<Rightarrow> string \<Rightarrow> mem_users \<Rightarrow> (go_error + row) \<times> mem_users" where
  "mem_update ns es n e i w =
     (case mem_uuid_in i of
        None \<Rightarrow> (Inl (err_bad_uuid i), w)
      | Some u \<Rightarrow>
          (case map_of (mu_rows w) u of
             None \<Rightarrow> (Inl no_rows, w)
           | Some r \<Rightarrow>
               (let t = mu_clock w; r' = masked_row ns es n e t r
                in if (ns \<and> 100 < char_count n) \<or> (es \<and> 255 < char_count e) then (Inl err_too_long, w)
                   else if es \<and> mem_email_taken e (AList.delete u (mu_rows w)) then (Inl err_email_taken, w)
                   else (Inr [SStr u, SStr (ur_name r'), SStr (ur_email r'), STime (ur_created r'), STime (ur_updated r')],
                         w\<lparr>mu_rows := AList.update u r' (mu_rows w), mu_clock := t + 1\<rparr>))))"

definition mem_delete :: "string \<Rightarrow> mem_users \<Rightarrow> (go_error + nat) \<times> mem_users" where
  "mem_delete i w =
     (case mem_uuid_in i of
        None \<Rightarrow> (Inl (err_bad_uuid i), w)
      | Some u \<Rightarrow> (Inr (if map_of (mu_rows w) u = None then 0 else 1),
                    w\<lparr>mu_rows := AList.delete u (mu_rows w)\<rparr>))"

definition mem_pool_open :: "poolref \<Rightarrow> mem_users \<Rightarrow> bool" where
  "mem_pool_open p w = (case p of None \<Rightarrow> False | Some k \<Rightarrow> k \<notin> set (mu_closed w))"

fun mem_strs :: "sqlval list \<Rightarrow> string list" where
  "mem_strs (SStr s # xs) = s # mem_strs xs"
| "mem_strs _ = []"

definition mem_QueryRow ::
  "poolref \<Rightarrow> ctx \<Rightarrow> string \<Rightarrow> sqlval list \<Rightarrow> mem_users \<Rightarrow> (go_error + row) \<times> mem_users" where
  "mem_QueryRow p c sql args w =
     (if \<not> mem_pool_open p w then (Inl err_closed, w)
      else (case mem_strs args of
          [a] \<Rightarrow> if sql = sql_select_user then mem_select a w else (Inl err_statement, w)
        | [a, b] \<Rightarrow>
            if sql = sql_insert_user then mem_insert a b w
            else if sql = sql_update_user True False then mem_update True False a [] b w
            else if sql = sql_update_user False True then mem_update False True [] a b w
            else (Inl err_statement, w)
        | [a, b, i] \<Rightarrow> if sql = sql_update_user True True then mem_update True True a b i w
                     else (Inl err_statement, w)
        | _ \<Rightarrow> (Inl err_statement, w)))"

definition mem_Exec ::
  "poolref \<Rightarrow> ctx \<Rightarrow> string \<Rightarrow> sqlval list \<Rightarrow> mem_users \<Rightarrow> (go_error + nat) \<times> mem_users" where
  "mem_Exec p c sql args w =
     (if \<not> mem_pool_open p w then (Inl err_closed, w)
      else (case mem_strs args of
          [a] \<Rightarrow> if sql = sql_delete_user then mem_delete a w else (Inl err_statement, w)
        | _ \<Rightarrow> (Inl err_statement, w)))"

definition mem_pgx :: "mem_users pgx" where
  "mem_pgx =
     \<lparr>pool_QueryRow = mem_QueryRow,
      pool_Query = (\<lambda>p c sql args w. (Inl err_statement, w)),
      pool_Exec = mem_Exec,
      pool_Begin = (\<lambda>p c w. (Inl err_statement, w)),
      pool_Close = (\<lambda>p w. case p of None \<Rightarrow> w | Some k \<Rightarrow> w\<lparr>mu_closed := k # mu_closed w\<rparr>),
      tx_QueryRow = (\<lambda>t c sql args w. (Inl err_statement, w)),
      tx_Exec = (\<lambda>t c sql args w. (Inl err_statement, w)),
      tx_Commit = (\<lambda>t c w. (Some err_statement, w)),
      tx_Rollback = (\<lambda>t c w. w),
      scan_error = (\<lambda>rw. ''can't scan into dest'')\<rparr>"

section \<open>It keeps the promises\<close>

lemma mem_email_taken_iff: "mem_email_taken e rows \<longleftrightarrow> e \<in> emails (map_of rows)"
proof
  assume "mem_email_taken e rows"
  then show "e \<in> emails (map_of rows)"
    by (auto simp: mem_email_taken_def list_ex_iff emails_iff split: option.splits)
next
  assume "e \<in> emails (map_of rows)"
  then obtain u r where ur: "map_of rows u = Some r" "ur_email r = e" by (auto simp: emails_iff)
  then have "u \<in> set (map fst rows)" by (force dest: map_of_SomeD)
  then show "mem_email_taken e rows"
    unfolding mem_email_taken_def list_ex_iff by (rule bexI [rotated]) (simp add: ur)
qed

lemma sql_user_distinct:
  "sql_insert_user \<noteq> sql_update_user True False" "sql_insert_user \<noteq> sql_update_user False True"
  "sql_update_user True False \<noteq> sql_update_user False True"
  by code_simp+

lemma err_not_duplicate:
  "\<not> says_duplicate err_too_long" "\<not> says_duplicate err_no_id" "\<not> says_duplicate err_statement"
  "\<not> says_duplicate err_closed"
  by code_simp+

lemma err_not_no_rows:
  "err_too_long \<noteq> no_rows" "err_email_taken \<noteq> no_rows" "err_no_id \<noteq> no_rows"
  "err_statement \<noteq> no_rows" "err_closed \<noteq> no_rows" "err_bad_uuid i \<noteq> no_rows"
  by (simp_all add: err_too_long_def err_email_taken_def err_no_id_def err_statement_def
      err_closed_def err_bad_uuid_def no_rows_def)

lemma mem_update_args:
  "ns \<or> es \<Longrightarrow> mem_pool_open p w \<Longrightarrow>
   mem_QueryRow p c (sql_update_user ns es) (update_args ns es n e @ [SStr i]) w =
     mem_update ns es (if ns then n else []) (if es then e else []) i w"
  using sql_user_distinct by (auto simp: mem_QueryRow_def update_args_def)

lemma masked_row_args:
  "masked_row ns es (if ns then n else []) (if es then e else []) = masked_row ns es n e"
  by (auto simp: fun_eq_iff masked_row_def)

lemma mem_update_cases:
  obtains (bad) err where "mem_update ns es n e i w = (Inl err, w)" "err \<noteq> no_rows"
  | (none) u where "mem_update ns es n e i w = (Inl no_rows, w)" "mem_uuid_in i = Some u" "mem_table w u = None"
  | (row) u t r r' where "mem_uuid_in i = Some u" "r' = masked_row ns es n e t r"
      "user_updated ns es n e u t r (mem_table w) (mem_table (snd (mem_update ns es n e i w)))"
      "fst (mem_update ns es n e i w) =
         Inr [SStr u, SStr (ur_name r'), SStr (ur_email r'), STime (ur_created r'), STime (ur_updated r')]"
proof (cases "mem_uuid_in i")
  case None
  then show ?thesis using bad [of "err_bad_uuid i"] by (simp add: mem_update_def err_not_no_rows)
next
  case u: (Some u)
  show ?thesis
  proof (cases "map_of (mu_rows w) u")
    case None
    then show ?thesis using none u by (simp add: mem_update_def mem_table_def)
  next
    case r: (Some r)
    let ?r = "masked_row ns es n e (mu_clock w) r"
    consider (long) "(ns \<and> 100 < char_count n) \<or> (es \<and> 255 < char_count e)"
      | (taken) "\<not> ((ns \<and> 100 < char_count n) \<or> (es \<and> 255 < char_count e))"
          "es \<and> mem_email_taken e (AList.delete u (mu_rows w))"
      | (fine) "\<not> ((ns \<and> 100 < char_count n) \<or> (es \<and> 255 < char_count e))"
          "\<not> (es \<and> mem_email_taken e (AList.delete u (mu_rows w)))"
      by blast
    then show ?thesis
    proof cases
      case long
      then show ?thesis
        using bad [of err_too_long] u r by (simp add: mem_update_def Let_def err_not_no_rows)
    next
      case taken
      then have "mem_update ns es n e i w = (Inl err_email_taken, w)"
        using u r by (auto simp: mem_update_def Let_def)
      then show ?thesis by (rule bad) (rule err_not_no_rows)
    next
      case fine
      then have res: "mem_update ns es n e i w =
          (Inr [SStr u, SStr (ur_name ?r), SStr (ur_email ?r), STime (ur_created ?r), STime (ur_updated ?r)],
           w\<lparr>mu_rows := AList.update u ?r (mu_rows w), mu_clock := mu_clock w + 1\<rparr>)"
        using u r by (simp add: mem_update_def Let_def)
      have "es \<longrightarrow> e \<notin> emails ((map_of (mu_rows w))(u := None))"
        using fine(2) by (simp add: mem_email_taken_iff delete_conv')
      then show ?thesis
        using row [of u ?r "mu_clock w" r] u r
        by (simp add: res user_updated_def mem_table_def update_conv')
    qed
  qed
qed

lemma mem_update_effect:
  assumes "mem_update ns es (if ns then n else []) (if es then e else []) i w = (res, w')"
  shows "(\<exists>u t r r'. mem_uuid_in i = Some u \<and> user_updated ns es n e u t r (mem_table w) (mem_table w') \<and>
             r' = masked_row ns es n e t r \<and>
             res = Inr [SStr u, SStr (ur_name r'), SStr (ur_email r'), STime (ur_created r'), STime (ur_updated r')])
         \<or> (\<exists>err. res = Inl err \<and> w' = w \<and>
              (err = no_rows \<longrightarrow> (\<exists>u. mem_uuid_in i = Some u \<and> mem_table w u = None)))"
proof (cases rule: mem_update_cases [of ns es "if ns then n else []" "if es then e else []" i w])
  case (row u t r r')
  moreover have "user_updated ns es (if ns then n else []) (if es then e else []) = user_updated ns es n e"
    by (auto simp: fun_eq_iff user_updated_def masked_row_args)
  ultimately show ?thesis using assms masked_row_args by (metis fst_conv snd_conv)
qed (use assms in auto)

lemma mem_update_law:
  assumes "ns \<or> es" "mem_QueryRow p c (sql_update_user ns es) (update_args ns es n e @ [SStr i]) w = (res, w')"
  shows "(\<exists>u t r r'. mem_uuid_in i = Some u \<and> user_updated ns es n e u t r (mem_table w) (mem_table w') \<and>
             r' = masked_row ns es n e t r \<and>
             res = Inr [SStr u, SStr (ur_name r'), SStr (ur_email r'), STime (ur_created r'), STime (ur_updated r')])
         \<or> (\<exists>err. res = Inl err \<and> w' = w \<and>
              (err = no_rows \<longrightarrow> (\<exists>u. mem_uuid_in i = Some u \<and> mem_table w u = None)))"
proof (cases "mem_pool_open p w")
  case True
  from assms(2) [unfolded mem_update_args [OF assms(1) True]] show ?thesis by (rule mem_update_effect)
next
  case False
  with assms(2) show ?thesis by (auto simp: mem_QueryRow_def err_not_no_rows)
qed

lemma mem_insert_law:
  assumes "mem_QueryRow p c sql_insert_user [SStr n, SStr e] w = (res, w')"
  shows "(\<exists>u t. res = Inr [SStr u, STime t, STime t] \<and>
             user_inserted mem_uuid_in n e u t (mem_table w) (mem_table w'))
         \<or> (\<exists>err. res = Inl err \<and> w' = w \<and> (says_duplicate err \<longrightarrow> e \<in> emails (mem_table w)))"
  using assms
  by (auto simp: mem_QueryRow_def mem_insert_def Let_def user_inserted_def mem_table_def
      mem_email_taken_iff update_conv' err_not_duplicate split: if_splits)

lemma mem_select_law:
  assumes "mem_QueryRow p c sql_select_user [SStr i] w = (res, w')"
  shows "w' = w \<and>
    (case res of
       Inr rw \<Rightarrow> \<exists>u r. mem_uuid_in i = Some u \<and> mem_table w u = Some r \<and>
          rw = [SStr (ur_name r), SStr (ur_email r), STime (ur_created r), STime (ur_updated r)]
     | Inl err \<Rightarrow> err = no_rows \<longrightarrow> (\<exists>u. mem_uuid_in i = Some u \<and> mem_table w u = None))"
  using assms
  by (auto simp: mem_QueryRow_def mem_select_def mem_table_def err_not_no_rows
      split: if_splits option.splits)

lemma mem_delete_law:
  assumes "mem_Exec p c sql_delete_user [SStr i] w = (res, w')"
  shows "(\<exists>u k. res = Inr k \<and> mem_uuid_in i = Some u \<and> user_deleted u (mem_table w) (mem_table w') \<and>
             (0 < k \<longleftrightarrow> mem_table w u \<noteq> None))
         \<or> (\<exists>err. res = Inl err \<and> w' = w)"
  using assms
  by (auto simp: mem_Exec_def mem_delete_def mem_table_def user_deleted_def delete_conv'
      split: if_splits option.splits)

lemma mem_pgx_simps [simp]:
  "pool_QueryRow mem_pgx = mem_QueryRow" "pool_Exec mem_pgx = mem_Exec"
  by (simp_all add: mem_pgx_def)

interpretation mem: pg_users mem_pgx mem_uuid_in mem_table
proof (unfold_locales, unfold mem_pgx_simps, goal_cases)
  case (1 p c n e w rw w')
  then show ?case using mem_insert_law by blast
next
  case (2 p c n e w err w')
  then show ?case using mem_insert_law by blast
next
  case (3 p c n e w err w')
  then show ?case using mem_insert_law by blast
next
  case (4 p c i w res w')
  then show ?case using mem_select_law by blast
next
  case (5 p c i w rw w')
  then show ?case using mem_select_law by fastforce
next
  case (6 p c i w w')
  then show ?case using mem_select_law by fastforce
next
  case (7 ns es p c n e i w rw w')
  then show ?case using mem_update_law by blast
next
  case (8 ns es p c n e i w w')
  then show ?case using mem_update_law by blast
next
  case (9 ns es p c n e i w err w')
  then show ?case using mem_update_law by blast
next
  case (10 ns es p c n e i w err w')
  then show ?case using mem_update_law by blast
next
  case (11 p c i w k w')
  then show ?case using mem_delete_law by blast
next
  case (12 p c i w err w')
  then show ?case using mem_delete_law by blast
qed

end
