(* ===== verification/UserProps.thy ===== *)
theory UserProps
  imports MemUsers
begin

text \<open>
  The properties of the user service that hold over every database keeping the promises of
  \<open>pg_users\<close>, or over every driver whatsoever, each with a witness on the in-memory database.
\<close>

section \<open>Sequences of calls\<close>

fun UserService_run ::
  "'w pgx \<Rightarrow> UserServiceServer \<Rightarrow> (ctx \<times> user_call) list \<Rightarrow> 'w \<Rightarrow> 'w" where
  "UserService_run drv s [] w = w"
| "UserService_run drv s ((c, call) # calls) w =
     UserService_run drv s calls (snd (UserService_dispatch drv s c call w))"

text \<open>Every status the service can answer with, apart from a path the mask does not know.\<close>

definition user_statuses :: "status list" where
  "user_statuses =
     [Status InvalidArgument ''name is required'', Status InvalidArgument ''valid email is required'',
      Status AlreadyExists ''email already in use'', Status Internal ''failed to create user'',
      Status InvalidArgument ''id is required'', Status Internal ''failed to get user'',
      Status NotFound ''user not found'', Status InvalidArgument ''update_mask is required'',
      Status InvalidArgument ''name cannot be empty'', Status Internal ''failed to update user'',
      Status Internal ''failed to delete user'']"

text \<open>The server, requests and calls of the witnesses.\<close>

definition mem_server :: UserServiceServer where
  "mem_server = NewUserServiceServer (NewUserRepository (Some 1))"

definition ada_req :: CreateUserRequest where
  "ada_req = \<lparr>CreateUserRequest_Name = ''  Ada '', CreateUserRequest_Email = '' ada@x.org''\<rparr>"

definition ada_world :: mem_users where
  "ada_world = snd (CreateUser mem_pgx mem_server Background ada_req mem_users_empty)"

definition rename_req :: "string \<Rightarrow> UpdateUserRequest" where
  "rename_req i = \<lparr>UpdateUserRequest_Id = i,
     UpdateUserRequest_User = Some (mk_User [] '' Bea '' [] 0 0),
     UpdateUserRequest_UpdateMask = Some \<lparr>FieldMask_Paths = [''name'']\<rparr>\<rparr>"

text \<open>The calls that pass validation.\<close>

fun valid_call :: "user_call \<Rightarrow> bool" where
  "valid_call (CallCreateUser req) = valid_create req"
| "valid_call (CallGetUser req) = (GetUserRequest_Id req \<noteq> [])"
| "valid_call (CallUpdateUser req) = valid_update req"
| "valid_call (CallDeleteUser req) = (DeleteUserRequest_Id req \<noteq> [])"

section \<open>Helper lemmas\<close>

lemma user_run_inv:
  assumes "pg_users drv uuid_in users"
  shows "users_inv uuid_in (users w) \<Longrightarrow> users_inv uuid_in (users (UserService_run drv s calls w))"
proof (induction calls arbitrary: w)
  case (Cons x calls)
  obtain c call where x: "x = (c, call)" by (cases x)
  obtain reply w' where d: "UserService_dispatch drv s c call w = (reply, w')" by fastforce
  have "users_inv uuid_in (users w')"
    using user_spec_inv [OF pg_users.dispatch_refines [OF assms d] Cons.prems] .
  then show ?case using Cons.IH x d by simp
qed simp

text \<open>The statuses that a call may fail with: only an update can name a path, and only one of its own mask.\<close>

definition user_status_ok :: "user_call \<Rightarrow> status \<Rightarrow> bool" where
  "user_status_ok call st \<longleftrightarrow>
     st \<in> set user_statuses \<or>
     (\<exists>req path. call = CallUpdateUser req \<and> path \<in> set (req_paths req) \<and> path \<notin> {''name'', ''email''} \<and>
        st = Status InvalidArgument (''unknown field: '' @ path))"

lemma user_status_okI: "st \<in> set user_statuses \<Longrightarrow> user_status_ok call st"
  by (simp add: user_status_ok_def)

lemma path_error_status:
  "path_error u p = Some st \<Longrightarrow> st \<in> set user_statuses \<or>
   (p \<notin> {''name'', ''email''} \<and> st = Status InvalidArgument (''unknown field: '' @ p))"
  unfolding path_error_def user_statuses_def by (auto split: if_splits)

lemma mask_error_status:
  "mask_error u ps = Some st \<Longrightarrow> st \<in> set user_statuses \<or>
   (\<exists>p \<in> set ps. p \<notin> {''name'', ''email''} \<and> st = Status InvalidArgument (''unknown field: '' @ p))"
proof (induction ps)
  case (Cons p ps)
  show ?case
  proof (cases "path_error u p")
    case None
    with Cons show ?thesis by (simp only: mask_error_simps option.case list.set) blast
  next
    case (Some st')
    with Cons.prems have "path_error u p = Some st" by simp
    from path_error_status [OF this] show ?thesis by (simp only: list.set) blast
  qed
qed simp

lemma mask_error_code: "mask_error u ps = Some st \<Longrightarrow> status_code st = InvalidArgument"
  by (induction ps) (auto simp: path_error_def split: option.splits if_splits)

lemma invalid_create:
  "\<not> valid_create req \<Longrightarrow> \<exists>msg. CreateUser drv s c req w = (Inl (Status InvalidArgument msg), w)"
  by (auto simp: valid_create_def CreateUser_def Let_def str_Contains_single)

lemma invalid_update:
  assumes "\<not> valid_update req"
  shows "\<exists>msg. UpdateUser drv s c req w = (Inl (Status InvalidArgument msg), w)"
proof (cases "mask_error (UpdateUserRequest_User req) (req_paths req)")
  case None
  with assms show ?thesis
    by (auto simp: valid_update_def UpdateUser_def req_paths_def split: option.splits)
next
  case (Some st)
  then obtain msg where "st = Status InvalidArgument msg" using mask_error_code by (cases st) force
  with Some show ?thesis
    by (auto simp: UpdateUser_def req_paths_def UpdateUser_mask_gen split: option.splits)
qed

lemma UpdateUser_status:
  assumes "UpdateUser drv s c req w = (Inl st, w')"
  shows "user_status_ok (CallUpdateUser req) st"
proof -
  have "mask_error (UpdateUserRequest_User req) (req_paths req) = Some st \<or> st \<in> set user_statuses"
    using assms
    by (auto simp: UpdateUser_def UpdateUser_mask_gen user_statuses_def req_paths_def
        split: option.splits if_splits prod.splits sum.splits)
  then show ?thesis using mask_error_status unfolding user_status_ok_def by blast
qed

lemma CreateUser_status: "CreateUser drv s c req w = (Inl st, w') \<Longrightarrow> st \<in> set user_statuses"
  by (auto simp: CreateUser_def user_statuses_def Let_def split: if_splits prod.splits sum.splits)

lemma GetUser_status: "GetUser drv s c req w = (Inl st, w') \<Longrightarrow> st \<in> set user_statuses"
  by (auto simp: GetUser_def user_statuses_def split: if_splits prod.splits sum.splits option.splits)

lemma DeleteUser_status: "DeleteUser drv s c req w = (Inl st, w') \<Longrightarrow> st \<in> set user_statuses"
  by (auto simp: DeleteUser_def user_statuses_def split: if_splits prod.splits sum.splits)

lemma user_spec_get:
  assumes "user_spec uuid_in m (CallGetUser req) (map_sum id ReplyGetUser res) m'"
    and "GetUserRequest_Id req \<noteq> []" "uuid_in (GetUserRequest_Id req) = Some u"
  shows "res = Inl (Status Internal ''failed to get user'') \<or>
    res = (case m u of None \<Rightarrow> Inl (Status NotFound ''user not found'')
           | Some r \<Rightarrow> Inr \<lparr>GetUserResponse_User = Some (user_of_row (GetUserRequest_Id req) r)\<rparr>)"
  using assms(1)
  apply (rule user_spec_getE)
     apply (use assms(2,3) in \<open>cases res; simp\<close>)+
  done

lemma user_spec_create_ok:
  assumes "user_spec uuid_in m (CallCreateUser req) (map_sum id ReplyCreateUser (Inr resp)) m'"
  shows "\<exists>u t. resp = \<lparr>CreateUserResponse_User = Some (mk_User u (req_name req) (req_email req) t t)\<rparr> \<and>
    user_inserted uuid_in (req_name req) (req_email req) u t m m'"
  using assms by (rule user_spec_createE) auto

lemma user_spec_delete_ok:
  assumes "user_spec uuid_in m (CallDeleteUser req) (map_sum id ReplyDeleteUser (Inr resp)) m'"
  shows "DeleteUserRequest_Id req \<noteq> [] \<and>
    (\<exists>u. uuid_in (DeleteUserRequest_Id req) = Some u \<and> user_deleted u m m')"
  using assms by (rule user_spec_deleteE) auto

lemma user_spec_update_ok:
  assumes "user_spec uuid_in m (CallUpdateUser req) (map_sum id ReplyUpdateUser (Inr resp)) m'"
  shows "\<exists>u t r. uuid_in (UpdateUserRequest_Id req) = Some u \<and> req_updated req u t r m m' \<and>
    resp = \<lparr>UpdateUserResponse_User = Some (user_of_row u (req_row req t r))\<rparr>"
  using assms by (rule user_spec_updateE) auto

section \<open>Properties\<close>

text \<open>
  (C1) The user service refines its abstract specification: over every database that keeps the
  promises of \<open>pg_users\<close>, whatever a handler answers, and whatever it leaves in the table, is what
  \<open>user_spec\<close> permits for that call.
\<close>

theorem user_service_refines:
  assumes "pg_users drv uuid_in users"
    and "UserService_dispatch drv s c call w = (reply, w')"
  shows "user_spec uuid_in (users w) call reply (users w')"
  using pg_users.dispatch_refines [OF assms] .

theorem user_service_refines_witness:
  "UserService_dispatch mem_pgx mem_server Background (CallCreateUser ada_req) mem_users_empty =
     (Inr (ReplyCreateUser \<lparr>CreateUserResponse_User = Some (mk_User (mem_uuid 1) ''Ada'' ''ada@x.org'' 1 1)\<rparr>),
      ada_world) \<and>
   user_spec mem_uuid_in (mem_table mem_users_empty) (CallCreateUser ada_req)
     (Inr (ReplyCreateUser \<lparr>CreateUserResponse_User = Some (mk_User (mem_uuid 1) ''Ada'' ''ada@x.org'' 1 1)\<rparr>))
     (mem_table ada_world)"
proof -
  have run: "UserService_dispatch mem_pgx mem_server Background (CallCreateUser ada_req) mem_users_empty =
     (Inr (ReplyCreateUser \<lparr>CreateUserResponse_User = Some (mk_User (mem_uuid 1) ''Ada'' ''ada@x.org'' 1 1)\<rparr>),
      ada_world)"
    by code_simp
  with user_service_refines [OF mem.pg_users_axioms run] show ?thesis by blast
qed

text \<open>
  (C2) No sequence of calls can break the table: if every stored user has a non-empty trimmed name
  and a trimmed email with an at sign, and no two users share an email, then the same holds after
  any run of calls, whatever their arguments and whichever of them fail.
\<close>

theorem user_service_invariant:
  assumes "pg_users drv uuid_in users"
    and "users_inv uuid_in (users w)"
  shows "users_inv uuid_in (users (UserService_run drv s calls w))"
  using user_run_inv [OF assms] .

theorem user_service_invariant_witness:
  "mem_table (UserService_run mem_pgx mem_server
      [(Background, CallCreateUser ada_req), (Background, CallUpdateUser (rename_req (mem_uuid 1)))]
      mem_users_empty) (mem_uuid 1) = Some \<lparr>ur_name = ''Bea'', ur_email = ''ada@x.org'', ur_created = 1, ur_updated = 2\<rparr> \<and>
   users_inv mem_uuid_in (mem_table (UserService_run mem_pgx mem_server
      [(Background, CallCreateUser ada_req), (Background, CallUpdateUser (rename_req (mem_uuid 1)))]
      mem_users_empty))"
proof -
  have "users_inv mem_uuid_in (mem_table mem_users_empty)"
    by (simp add: users_inv_def mem_table_def mem_users_empty_def)
  note inv = user_service_invariant [OF mem.pg_users_axioms this]
  have "mem_table (UserService_run mem_pgx mem_server
      [(Background, CallCreateUser ada_req), (Background, CallUpdateUser (rename_req (mem_uuid 1)))]
      mem_users_empty) (mem_uuid 1) = Some \<lparr>ur_name = ''Bea'', ur_email = ''ada@x.org'', ur_created = 1, ur_updated = 2\<rparr>"
    by code_simp
  with inv show ?thesis by blast
qed

text \<open>
  (C3) A created user can be read back: after a successful \<open>CreateUser\<close>, \<open>GetUser\<close> with the returned
  identifier answers with exactly the returned user, unless the database fails to answer.
\<close>

theorem create_then_get:
  assumes "pg_users drv uuid_in users"
    and "CreateUser drv s c req w = (Inr \<lparr>CreateUserResponse_User = Some user\<rparr>, w1)"
    and "User_Id user \<noteq> []"
    and "GetUser drv s c' \<lparr>GetUserRequest_Id = User_Id user\<rparr> w1 = (res, w2)"
  shows "res = Inr \<lparr>GetUserResponse_User = Some user\<rparr> \<or> res = Inl (Status Internal ''failed to get user'')"
proof -
  from user_spec_create_ok [OF pg_users.CreateUser_refines [OF assms(1,2)]] obtain u t where
    user: "user = mk_User u (req_name req) (req_email req) t t"
    and ins: "user_inserted uuid_in (req_name req) (req_email req) u t (users w) (users w1)"
    by auto
  then have "uuid_in (User_Id user) = Some u" by (simp add: user_inserted_def mk_User_def)
  then show ?thesis
    using user_spec_get [OF pg_users.GetUser_refines [OF assms(1,4)], of u] assms(3) user ins
    by (auto simp: user_inserted_def user_of_row_def mk_User_def)
qed

theorem create_then_get_witness:
  "fst (GetUser mem_pgx mem_server Background
      \<lparr>GetUserRequest_Id = User_Id (mk_User (mem_uuid 1) ''Ada'' ''ada@x.org'' 1 1)\<rparr> ada_world) =
     Inr \<lparr>GetUserResponse_User = Some (mk_User (mem_uuid 1) ''Ada'' ''ada@x.org'' 1 1)\<rparr>"
proof -
  let ?g = "GetUser mem_pgx mem_server Background
    \<lparr>GetUserRequest_Id = User_Id (mk_User (mem_uuid 1) ''Ada'' ''ada@x.org'' 1 1)\<rparr> ada_world"
  have c: "CreateUser mem_pgx mem_server Background ada_req mem_users_empty =
     (Inr \<lparr>CreateUserResponse_User = Some (mk_User (mem_uuid 1) ''Ada'' ''ada@x.org'' 1 1)\<rparr>, ada_world)"
    by code_simp
  have i: "User_Id (mk_User (mem_uuid 1) ''Ada'' ''ada@x.org'' 1 1) \<noteq> []" by code_simp
  have "?g = (fst ?g, snd ?g)" by simp
  note g = create_then_get [OF mem.pg_users_axioms c i this]
  have "fst ?g \<noteq> Inl (Status Internal ''failed to get user'')" by code_simp
  with g show ?thesis by blast
qed

text \<open>
  A deleted user is gone: after a successful \<open>DeleteUser\<close>, \<open>GetUser\<close> with the same identifier
  answers NotFound, unless the database fails to answer.
\<close>

theorem delete_then_get:
  assumes "pg_users drv uuid_in users"
    and "DeleteUser drv s c \<lparr>DeleteUserRequest_Id = i\<rparr> w = (Inr resp, w1)"
    and "GetUser drv s c' \<lparr>GetUserRequest_Id = i\<rparr> w1 = (res, w2)"
  shows "res = Inl (Status NotFound ''user not found'') \<or> res = Inl (Status Internal ''failed to get user'')"
proof -
  from user_spec_delete_ok [OF pg_users.DeleteUser_refines [OF assms(1,2)]] obtain u where
    "i \<noteq> []" "uuid_in i = Some u" "users w1 u = None"
    by (auto simp: user_deleted_def)
  then show ?thesis
    using user_spec_get [OF pg_users.GetUser_refines [OF assms(1,3)], of u] by auto
qed

theorem delete_then_get_witness:
  "fst (GetUser mem_pgx mem_server Background \<lparr>GetUserRequest_Id = mem_uuid 1\<rparr>
      (snd (DeleteUser mem_pgx mem_server Background \<lparr>DeleteUserRequest_Id = mem_uuid 1\<rparr> ada_world))) =
   Inl (Status NotFound ''user not found'')"
proof -
  let ?d = "DeleteUser mem_pgx mem_server Background \<lparr>DeleteUserRequest_Id = mem_uuid 1\<rparr> ada_world"
  let ?g = "GetUser mem_pgx mem_server Background \<lparr>GetUserRequest_Id = mem_uuid 1\<rparr> (snd ?d)"
  have "fst ?d = Inr \<lparr>DeleteUserResponse_Message = ''user deleted''\<rparr>" by code_simp
  then have d: "?d = (Inr \<lparr>DeleteUserResponse_Message = ''user deleted''\<rparr>, snd ?d)" by (metis prod.collapse)
  have "?g = (fst ?g, snd ?g)" by simp
  note g = delete_then_get [OF mem.pg_users_axioms d this]
  have "fst ?g \<noteq> Inl (Status Internal ''failed to get user'')" by code_simp
  with g show ?thesis by blast
qed

text \<open>
  (C4) A partial update touches what its mask names and nothing else: after a successful
  \<open>UpdateUser\<close> there is exactly one row that changed, its identifier and creation time are kept, a
  field changes only if the mask names it, and then to the trimmed value of the request; the reply
  is that row.
\<close>

theorem update_frame:
  assumes "pg_users drv uuid_in users"
    and "UpdateUser drv s c req w = (Inr \<lparr>UpdateUserResponse_User = Some user\<rparr>, w')"
  shows "\<exists>u r r'. uuid_in (UpdateUserRequest_Id req) = Some u \<and> users w u = Some r \<and>
     users w' = (users w)(u \<mapsto> r') \<and> user = user_of_row u r' \<and> ur_created r' = ur_created r \<and>
     ur_name r' = (if ''name'' \<in> set (req_paths req)
                   then TrimSpace (User_GetName (UpdateUserRequest_User req)) else ur_name r) \<and>
     ur_email r' = (if ''email'' \<in> set (req_paths req)
                    then TrimSpace (User_GetEmail (UpdateUserRequest_User req)) else ur_email r)"
proof -
  from user_spec_update_ok [OF pg_users.UpdateUser_refines [OF assms]] obtain u t r where
    "uuid_in (UpdateUserRequest_Id req) = Some u" "req_updated req u t r (users w) (users w')"
    "user = user_of_row u (req_row req t r)"
    by auto
  then show ?thesis
    by (intro exI [of _ u] exI [of _ r] exI [of _ "req_row req t r"])
       (simp add: req_updated_def user_updated_def req_row_def masked_row_def)
qed

theorem update_frame_witness:
  "\<exists>u r r'. mem_uuid_in (mem_uuid 1) = Some u \<and> mem_table ada_world u = Some r \<and>
     ur_name r' = ''Bea'' \<and> ur_email r' = ur_email r \<and>
     mem_table (snd (UpdateUser mem_pgx mem_server Background (rename_req (mem_uuid 1)) ada_world)) =
       (mem_table ada_world)(u \<mapsto> r')"
proof -
  let ?u = "UpdateUser mem_pgx mem_server Background (rename_req (mem_uuid 1)) ada_world"
  have "fst ?u = Inr \<lparr>UpdateUserResponse_User = Some (mk_User (mem_uuid 1) ''Bea'' ''ada@x.org'' 1 2)\<rparr>" by code_simp
  then have "?u = (Inr \<lparr>UpdateUserResponse_User = Some (mk_User (mem_uuid 1) ''Bea'' ''ada@x.org'' 1 2)\<rparr>, snd ?u)"
    by (metis prod.collapse)
  note f = update_frame [OF mem.pg_users_axioms this]
  have "''name'' \<in> set (req_paths (rename_req (mem_uuid 1)))" "''email'' \<notin> set (req_paths (rename_req (mem_uuid 1)))"
    "TrimSpace (User_GetName (UpdateUserRequest_User (rename_req (mem_uuid 1)))) = ''Bea''"
    "UpdateUserRequest_Id (rename_req (mem_uuid 1)) = mem_uuid 1"
    by code_simp+
  with f show ?thesis by (simp only: if_True if_False) blast
qed

text \<open>
  (C5) Requests that fail validation are answered without a single database call: for every driver
  the state of the world is untouched, and the answer is InvalidArgument. They are the requests
  with a blank name, an email without an at sign, an empty identifier, an empty mask, or a mask
  with an unknown or invalid field.
\<close>

theorem invalid_requests_rejected:
  assumes "\<not> valid_call call"
  shows "\<exists>msg. UserService_dispatch drv s c call w = (Inl (Status InvalidArgument msg), w)"
proof (cases call)
  case (CallCreateUser req)
  with assms invalid_create [of req drv s c w] show ?thesis by auto
next
  case (CallUpdateUser req)
  with assms invalid_update [of req drv s c w] show ?thesis by auto
qed (use assms in \<open>auto simp: GetUser_def DeleteUser_def\<close>)

theorem invalid_requests_rejected_witness:
  "\<exists>msg. UserService_dispatch mem_pgx mem_server Background
     (CallCreateUser \<lparr>CreateUserRequest_Name = ''Ada'', CreateUserRequest_Email = ''ada.x.org''\<rparr>) ada_world =
     (Inl (Status InvalidArgument msg), ada_world)"
proof -
  have "\<not> valid_call (CallCreateUser \<lparr>CreateUserRequest_Name = ''Ada'', CreateUserRequest_Email = ''ada.x.org''\<rparr>)"
    by code_simp
  then show ?thesis by (rule invalid_requests_rejected)
qed

text \<open>
  (C6) No driver error text reaches a client: for every driver and every failure, the status of a
  failed call is one of eleven fixed ones, or, for an update only, names a path of the mask of that
  very request that is neither name nor email.
\<close>

theorem user_errors_opaque:
  assumes "UserService_dispatch drv s c call w = (Inl st, w')"
  shows "user_status_ok call st"
proof (cases call)
  case (CallCreateUser req)
  with assms CreateUser_status [of drv s c req w st w'] user_status_okI show ?thesis
    by (cases "CreateUser drv s c req w"; cases "fst (CreateUser drv s c req w)") simp_all
next
  case (CallGetUser req)
  with assms GetUser_status [of drv s c req w st w'] user_status_okI show ?thesis
    by (cases "GetUser drv s c req w"; cases "fst (GetUser drv s c req w)") simp_all
next
  case (CallUpdateUser req)
  with assms UpdateUser_status [of drv s c req w st w'] show ?thesis
    by (cases "UpdateUser drv s c req w"; cases "fst (UpdateUser drv s c req w)") simp_all
next
  case (CallDeleteUser req)
  with assms DeleteUser_status [of drv s c req w st w'] user_status_okI show ?thesis
    by (cases "DeleteUser drv s c req w"; cases "fst (DeleteUser drv s c req w)") simp_all
qed

theorem user_errors_opaque_witness:
  "UserService_dispatch mem_pgx mem_server Background (CallGetUser \<lparr>GetUserRequest_Id = ''x''\<rparr>) ada_world =
     (Inl (Status Internal ''failed to get user''), ada_world) \<and>
   user_status_ok (CallGetUser \<lparr>GetUserRequest_Id = ''x''\<rparr>) (Status Internal ''failed to get user'')"
proof -
  have "UserService_dispatch mem_pgx mem_server Background (CallGetUser \<lparr>GetUserRequest_Id = ''x''\<rparr>) ada_world =
     (Inl (Status Internal ''failed to get user''), ada_world)" by code_simp
  with user_errors_opaque [OF this] show ?thesis by blast
qed

text \<open>
  The dynamic UPDATE statement is well formed: whichever fields are set, the text that
  \<open>Update\<close> sends numbers its placeholders 1, 2, ... in the order of its arguments, uses exactly as
  many as there are arguments, ends with the identifier's, and is one of three constants: no part
  of the client's data becomes SQL text.
\<close>

theorem update_statement_well_formed:
  assumes "nameSet \<or> emailSet"
    and "Update_setClauses name email nameSet emailSet = (setClauses, args, argIdx)"
  shows "placeholders (Update_query (setClauses @ ''updated_at = NOW()'') argIdx) = [1..<length (args @ [SStr i]) + 1] \<and>
    args @ [SStr i] = update_args nameSet emailSet name email @ [SStr i] \<and>
    Update_query (setClauses @ ''updated_at = NOW()'') argIdx = sql_update_user nameSet emailSet"
proof -
  have "placeholders (sql_update_user True True) = [1, 2, 3]"
    "placeholders (sql_update_user True False) = [1, 2]" "placeholders (sql_update_user False True) = [1, 2]"
    by code_simp+
  with assms Update_setClauses_args [OF assms(2)] Update_query_text [OF assms(2,1)] show ?thesis
    by (auto simp: update_args_def upt_rec)
qed

theorem update_statement_well_formed_witness:
  "placeholders (Update_query (''email = $1, updated_at = NOW()'') 2) = [1, 2]"
proof -
  have "Update_setClauses '''' ''a@b'' False True = (''email = $1, '', [SStr ''a@b''], 2)" by code_simp
  from update_statement_well_formed [OF _ this, of "[]"] have
    "placeholders (Update_query (''email = $1, '' @ ''updated_at = NOW()'') 2) = [1..<length ([SStr ''a@b''] @ [SStr []]) + 1]"
    by blast
  moreover have "[1..<length ([SStr ''a@b''] @ [SStr []]) + 1] = [1, 2]" by code_simp
  ultimately show ?thesis by simp
qed

text \<open>
  (C7) An update with a malformed identifier can be answered AlreadyExists: PostgreSQL quotes the
  malformed UUID in its error text, and the handler searches that text for \<open>unique\<close> and
  \<open>duplicate\<close>. For every driver that reports the identifier in its error, an identifier containing
  one of the two words yields ``email already in use'', although no email is in use.
\<close>

theorem malformed_id_reported_as_duplicate:
  assumes "valid_update req"
    and "str_Contains (UpdateUserRequest_Id req) ''unique'' \<or> str_Contains (UpdateUserRequest_Id req) ''duplicate''"
    and "\<And>n e. pool_QueryRow drv (UserRepository_pool (UserServiceServer_repo s)) (WithTimeout c dbQueryTimeout)
             (sql_update_user (''name'' \<in> set (req_paths req)) (''email'' \<in> set (req_paths req)))
             (update_args (''name'' \<in> set (req_paths req)) (''email'' \<in> set (req_paths req)) n e @
               [SStr (UpdateUserRequest_Id req)]) w =
           (Inl (before @ UpdateUserRequest_Id req @ after), w)"
  shows "UpdateUser drv s c req w = (Inl (Status AlreadyExists ''email already in use''), w)"
proof -
  let ?err = "''update user: '' @ before @ UpdateUserRequest_Id req @ after"
  have dup: "says_duplicate ?err"
    using assms(2) str_Contains_mid [of _ _ "''update user: '' @ before" after]
    unfolding says_duplicate_def by auto
  then have not_none: "before @ UpdateUserRequest_Id req @ after \<noteq> no_rows"
    using no_rows_not_duplicate says_duplicate_update by metis
  note set = valid_update_set [OF assms(1)]
  have upd: "UserRepository_Update drv (UserServiceServer_repo s) c (UpdateUserRequest_Id req) n e
      (''name'' \<in> set (req_paths req)) (''email'' \<in> set (req_paths req)) w = (Inl ?err, w)" for n e
    unfolding UserRepository_Update_eq UserRepository_getPool_def UserRepository_queryTimeout_def assms(3)
    using set not_none by auto
  show ?thesis
    unfolding UpdateUser_valid [OF assms(1)] upd apfst_conv update_reply_def sum.case using dup by (simp only: if_True)
qed

theorem malformed_id_reported_as_duplicate_witness:
  "mem_table mem_users_empty = Map.empty \<and>
   UpdateUser mem_pgx mem_server Background (rename_req ''duplicate'') mem_users_empty =
     (Inl (Status AlreadyExists ''email already in use''), mem_users_empty)"
proof -
  have v: "valid_update (rename_req ''duplicate'')" by code_simp
  have d: "str_Contains (UpdateUserRequest_Id (rename_req ''duplicate'')) ''unique'' \<or>
    str_Contains (UpdateUserRequest_Id (rename_req ''duplicate'')) ''duplicate''" by code_simp
  have "mem_uuid_in ''duplicate'' = None" by code_simp
  then have upd: "mem_update ns es n e ''duplicate'' mem_users_empty =
     (Inl (''ERROR: invalid input syntax for type uuid: '' @ ''duplicate'' @ '' (SQLSTATE 22P02)''), mem_users_empty)" for ns es n e
    by (simp only: mem_update_def err_bad_uuid_def option.case)
  have "mem_pool_open (UserRepository_pool (UserServiceServer_repo mem_server)) mem_users_empty" by code_simp
  note args = mem_update_args [OF valid_update_set [OF v] this]
  have i: "UpdateUserRequest_Id (rename_req ''duplicate'') = ''duplicate''" by code_simp
  have sent: "pool_QueryRow mem_pgx (UserRepository_pool (UserServiceServer_repo mem_server)) c
      (sql_update_user (''name'' \<in> set (req_paths (rename_req ''duplicate'')))
        (''email'' \<in> set (req_paths (rename_req ''duplicate''))))
      (update_args (''name'' \<in> set (req_paths (rename_req ''duplicate'')))
        (''email'' \<in> set (req_paths (rename_req ''duplicate''))) n e @
          [SStr (UpdateUserRequest_Id (rename_req ''duplicate''))]) mem_users_empty =
      (Inl (''ERROR: invalid input syntax for type uuid: '' @ UpdateUserRequest_Id (rename_req ''duplicate'') @
         '' (SQLSTATE 22P02)''), mem_users_empty)" for c n e
    unfolding i mem_pgx_def pgx.simps args upd ..
  from malformed_id_reported_as_duplicate [OF v d sent] show ?thesis
    by (simp add: mem_table_def mem_users_empty_def)
qed

end
