(* ===== verification/OrderCache.thy ===== *)
theory OrderCache
  imports Proto
begin

text \<open>
  \<open>src/services/order-service/cache.go\<close>: the order cache over Redis. The Redis client and the
  \<open>protojson\<close> codec are not part of the repository; they are parameters, and the locales
  \<open>redis_kv\<close> and \<open>order_codec\<close> state what is relied on: Redis is a key-value store that may drop an
  entry at any time (time to live, eviction, restart), and the codec restores what it encoded.
\<close>

section \<open>The Redis client and the codec\<close>

type_synonym rdbref = "nat option"   \<comment> \<open>\<open>*redis.Client\<close>, nil when no Redis is configured\<close>

text \<open>What \<open>rdb.Get(...).Bytes()\<close> yields: \<open>redis.Nil\<close>, another error, or data.\<close>

datatype redis_reply = RNil | RErr go_error | RData string

record 'w redis =
  redis_Get :: "rdbref \<Rightarrow> ctx \<Rightarrow> string \<Rightarrow> 'w \<Rightarrow> redis_reply \<times> 'w"
  redis_Set :: "rdbref \<Rightarrow> ctx \<Rightarrow> string \<Rightarrow> string \<Rightarrow> duration \<Rightarrow> 'w \<Rightarrow> go_error option \<times> 'w"
  redis_Del :: "rdbref \<Rightarrow> ctx \<Rightarrow> string \<Rightarrow> 'w \<Rightarrow> go_error option \<times> 'w"

record order_json =
  protojson_Marshal :: "Order \<Rightarrow> go_error + string"
  protojson_Unmarshal :: "string \<Rightarrow> go_error + Order"

section \<open>Operations\<close>

definition orderCacheTTL :: duration where
  "orderCacheTTL = 5 * time_Minute"

definition orderCachePrefix :: string where
  "orderCachePrefix = ''order:''"

record OrderCache =
  OrderCache_rdb :: rdbref

definition NewOrderCache :: "rdbref \<Rightarrow> OrderCache" where
  "NewOrderCache rdb = \<lparr>OrderCache_rdb = rdb\<rparr>"

definition OrderCache_key :: "string \<Rightarrow> string" where
  "OrderCache_key i = orderCachePrefix @ i"

definition OrderCache_Get ::
  "'w redis \<Rightarrow> order_json \<Rightarrow> OrderCache \<Rightarrow> ctx \<Rightarrow> string \<Rightarrow> 'w \<Rightarrow> (go_error + Order option) \<times> 'w" where
  "OrderCache_Get red js oc c i w =
     (case redis_Get red (OrderCache_rdb oc) c (OrderCache_key i) w of
        (RNil, w') \<Rightarrow> (Inr None, w')
      | (RErr err, w') \<Rightarrow> (Inl (''cache get: '' @ err), w')
      | (RData data, w') \<Rightarrow>
          (case protojson_Unmarshal js data of
             Inl err \<Rightarrow> (Inl (''cache unmarshal: '' @ err), w')
           | Inr order \<Rightarrow> (Inr (Some order), w')))"

definition OrderCache_Set ::
  "'w redis \<Rightarrow> order_json \<Rightarrow> OrderCache \<Rightarrow> ctx \<Rightarrow> Order \<Rightarrow> 'w \<Rightarrow> go_error option \<times> 'w" where
  "OrderCache_Set red js oc c order w =
     (case protojson_Marshal js order of
        Inl err \<Rightarrow> (Some (''cache marshal: '' @ err), w)
      | Inr data \<Rightarrow>
          redis_Set red (OrderCache_rdb oc) c (OrderCache_key (Order_Id order)) data orderCacheTTL w)"

definition OrderCache_Invalidate ::
  "'w redis \<Rightarrow> OrderCache \<Rightarrow> ctx \<Rightarrow> string \<Rightarrow> 'w \<Rightarrow> 'w" where
  "OrderCache_Invalidate red oc c i w = snd (redis_Del red (OrderCache_rdb oc) c (OrderCache_key i) w)"

lemma OrderCache_key_inj [simp]: "OrderCache_key i = OrderCache_key j \<longleftrightarrow> i = j"
  by (simp add: OrderCache_key_def)

section \<open>What Redis and the codec promise\<close>

text \<open>The orders that a reader of the cache can see in the Redis content \<open>m\<close>.\<close>

definition cached :: "order_json \<Rightarrow> (string \<rightharpoonup> string) \<Rightarrow> string \<Rightarrow> Order \<Rightarrow> bool" where
  "cached js m i order \<longleftrightarrow>
     (\<exists>data. m (OrderCache_key i) = Some data \<and> protojson_Unmarshal js data = Inr order)"

locale order_codec =
  fixes js :: order_json
  assumes decode_encode:
    "protojson_Marshal js order = Inr data \<Longrightarrow> None \<notin> set (Order_Items order) \<Longrightarrow>
     protojson_Unmarshal js data = Inr order"

text \<open>
  \<open>kv w\<close> is the live content of Redis. Any entry may be gone after any operation; none appears that
  was not there or written. A failed \<open>SET\<close> may have been carried out, a failed \<open>DEL\<close> may not.
\<close>

locale redis_kv =
  fixes red :: "'w redis"
    and kv :: "'w \<Rightarrow> (string \<rightharpoonup> string)"
  assumes get_data: "redis_Get red p c k w = (RData data, w') \<Longrightarrow> kv w k = Some data"
    and get_keeps: "redis_Get red p c k w = (rep, w') \<Longrightarrow> kv w' \<subseteq>\<^sub>m kv w"
    and set_effect: "redis_Set red p c k data ttl w = (err, w') \<Longrightarrow>
      kv w' \<subseteq>\<^sub>m (kv w)(k \<mapsto> data) \<or> (err \<noteq> None \<and> kv w' \<subseteq>\<^sub>m kv w)"
    and del_effect: "redis_Del red p c k w = (None, w') \<Longrightarrow> kv w' \<subseteq>\<^sub>m (kv w)(k := None)"
    and del_error: "redis_Del red p c k w = (Some e, w') \<Longrightarrow> kv w' \<subseteq>\<^sub>m kv w"

text \<open>
  The cache over both: it returns only an order whose encoding is in Redis under the key of the
  asked identifier, and it writes under the key of the order's own identifier.
\<close>

locale order_cache = redis_kv red kv + order_codec js
  for red :: "'w redis" and kv and js
begin

lemma cached_mono: "kv w' \<subseteq>\<^sub>m kv w \<Longrightarrow> cached js (kv w') i order \<Longrightarrow> cached js (kv w) i order"
  unfolding cached_def by (blast dest: map_le_SomeD)

lemma cache_Get_hit:
  assumes "OrderCache_Get red js oc c i w = (Inr (Some order), w')"
  shows "cached js (kv w) i order"
  using assms get_data [of "OrderCache_rdb oc" c "OrderCache_key i" w]
  by (auto simp: OrderCache_Get_def cached_def split: prod.splits redis_reply.splits sum.splits)

lemma cache_Get_keeps:
  assumes "OrderCache_Get red js oc c i w = (res, w')"
  shows "kv w' \<subseteq>\<^sub>m kv w"
  using assms get_keeps [of "OrderCache_rdb oc" c "OrderCache_key i" w]
  by (auto simp: OrderCache_Get_def split: prod.splits redis_reply.splits sum.splits)

lemma cache_Set_effect:
  assumes "OrderCache_Set red js oc c order w = (err, w')" "None \<notin> set (Order_Items order)"
    and "cached js (kv w') i order'"
  shows "cached js (kv w) i order' \<or> (i = Order_Id order \<and> order' = order)"
proof (cases "protojson_Marshal js order")
  case (Inl e)
  with assms show ?thesis by (simp add: OrderCache_Set_def)
next
  case (Inr data)
  note dec = decode_encode [OF Inr assms(2)]
  from assms(1) Inr have "redis_Set red (OrderCache_rdb oc) c (OrderCache_key (Order_Id order)) data orderCacheTTL w = (err, w')"
    by (simp add: OrderCache_Set_def)
  from set_effect [OF this] show ?thesis
  proof (elim disjE conjE)
    assume "kv w' \<subseteq>\<^sub>m (kv w)(OrderCache_key (Order_Id order) \<mapsto> data)"
    with assms(3) dec show ?thesis
      by (auto simp: cached_def dest!: map_le_SomeD split: if_splits)
  qed (use assms(3) cached_mono in blast)
qed

lemma cache_Invalidate_keeps:
  assumes "cached js (kv (OrderCache_Invalidate red oc c i w)) j order"
  shows "cached js (kv w) j order"
proof -
  let ?d = "redis_Del red (OrderCache_rdb oc) c (OrderCache_key i) w"
  have "kv (snd ?d) \<subseteq>\<^sub>m kv w"
    using del_effect [of "OrderCache_rdb oc" c "OrderCache_key i" w] del_error [of "OrderCache_rdb oc" c "OrderCache_key i" w]
    by (cases ?d; cases "fst ?d") (auto dest: map_le_delD)
  with assms show ?thesis unfolding OrderCache_Invalidate_def by (rule cached_mono [rotated])
qed

lemma cache_Invalidate_done:
  assumes "fst (redis_Del red (OrderCache_rdb oc) c (OrderCache_key i) w) = None"
  shows "\<not> cached js (kv (OrderCache_Invalidate red oc c i w)) i order"
proof -
  obtain w' where "redis_Del red (OrderCache_rdb oc) c (OrderCache_key i) w = (None, w')"
    using assms by (metis prod.collapse)
  with del_effect [OF this] show ?thesis
    by (auto simp: OrderCache_Invalidate_def cached_def dest: map_le_SomeD)
qed

end

end
