(* ===== verification/OrderRepository.thy ===== *)
theory OrderRepository
  imports Pgx OrderCache
begin

text \<open>
  \<open>src/services/order-service/repository.go\<close>: orders and their items in PostgreSQL, written in one
  transaction, read through the Redis cache. PostgreSQL, Redis, \<open>protojson\<close> and
  \<open>uuid.New\<close> are the fields of an environment; the definitions are the source's, call by call.
\<close>

section \<open>Environment and state\<close>

record 'w order_env =
  env_drv :: "'w pgx"
  env_red :: "'w redis"
  env_js :: order_json
  env_uuid :: "'w \<Rightarrow> string \<times> 'w"   \<comment> \<open>\<open>uuid.New().String()\<close>\<close>

definition OrderRepository_dbQueryTimeout :: duration where
  "OrderRepository_dbQueryTimeout = 10 * time_Second"

record OrderRepository =
  OrderRepository_pool :: poolref
  OrderRepository_rdb :: rdbref
  OrderRepository_cache :: OrderCache

definition NewOrderRepository :: "poolref \<Rightarrow> rdbref \<Rightarrow> OrderRepository" where
  "NewOrderRepository pool rdb =
     \<lparr>OrderRepository_pool = pool, OrderRepository_rdb = rdb, OrderRepository_cache = NewOrderCache rdb\<rparr>"

definition OrderRepository_getPool :: "OrderRepository \<Rightarrow> poolref" where
  "OrderRepository_getPool r = OrderRepository_pool r"

definition OrderRepository_SetPool ::
  "'w pgx \<Rightarrow> poolref \<Rightarrow> OrderRepository \<Rightarrow> 'w \<Rightarrow> OrderRepository \<times> 'w" where
  "OrderRepository_SetPool drv pool r w =
     (let old = OrderRepository_pool r;
          r' = r\<lparr>OrderRepository_pool := pool\<rparr>
      in if old \<noteq> None then (r', pool_Close drv old w) else (r', w))"

definition OrderRepository_queryTimeout :: "ctx \<Rightarrow> ctx" where
  "OrderRepository_queryTimeout c = WithTimeout c OrderRepository_dbQueryTimeout"

definition parseOrderStatus :: "string \<Rightarrow> OrderStatus" where
  "parseOrderStatus s =
     (if s = ''PENDING'' then ORDER_STATUS_PENDING
      else if s = ''CONFIRMED'' then ORDER_STATUS_CONFIRMED
      else if s = ''SHIPPED'' then ORDER_STATUS_SHIPPED
      else if s = ''DELIVERED'' then ORDER_STATUS_DELIVERED
      else if s = ''CANCELLED'' then ORDER_STATUS_CANCELLED
      else ORDER_STATUS_UNSPECIFIED)"

section \<open>Create\<close>

definition sql_insert_order :: string where
  "sql_insert_order = ''INSERT INTO orders (id, user_id, total) VALUES ($1, $2, $3)'' @ sql_break @
     ''RETURNING created_at''"

definition sql_insert_item :: string where
  "sql_insert_item =
     ''INSERT INTO order_items (id, order_id, product_id, product_name, quantity, unit_price)'' @
     [CHR 0x0A, CHR 0x09, CHR 0x09, CHR 0x09, CHR '' ''] @ ''VALUES ($1, $2, $3, $4, $5, $6)''"

fun scan_time :: "row \<Rightarrow> time option" where
  "scan_time [STime t] = Some t"
| "scan_time _ = None"

text \<open>The loop that adds up the total; a nil item is a nil dereference.\<close>

fun Create_total :: "OrderItem option list \<Rightarrow> float64 \<Rightarrow> float64 outcome" where
  "Create_total [] tot = Done tot"
| "Create_total (None # items) tot = Panicked"
| "Create_total (Some item # items) tot =
     Create_total items
       (fadd tot (fmul (float_of_int (sint (OrderItem_Quantity item))) (OrderItem_UnitPrice item)))"

text \<open>The loop that inserts the items; \<open>Done None\<close> when every insert succeeded.\<close>

fun Create_items ::
  "'w order_env \<Rightarrow> txref \<Rightarrow> ctx \<Rightarrow> string \<Rightarrow> OrderItem option list \<Rightarrow> 'w \<Rightarrow>
   go_error option outcome \<times> 'w" where
  "Create_items env tx qCtx orderID [] w = (Done None, w)"
| "Create_items env tx qCtx orderID (oitem # items) w =
     (case env_uuid env w of (itemID, w1) \<Rightarrow>
      (case oitem of
         None \<Rightarrow> (Panicked, w1)
       | Some item \<Rightarrow>
           (case tx_Exec (env_drv env) tx qCtx sql_insert_item
                   [SStr itemID, SStr orderID, SStr (OrderItem_ProductId item), SStr (OrderItem_ProductName item),
                    SInt (OrderItem_Quantity item), SFloat (OrderItem_UnitPrice item)] w1 of
              (Inl err, w2) \<Rightarrow> (Done (Some (''insert order_item: '' @ err)), w2)
            | (Inr _, w2) \<Rightarrow> Create_items env tx qCtx orderID items w2)))"

text \<open>Everything between \<open>Begin\<close> and the deferred \<open>Rollback\<close>.\<close>

definition Create_body ::
  "'w order_env \<Rightarrow> txref \<Rightarrow> ctx \<Rightarrow> string \<Rightarrow> OrderItem option list \<Rightarrow> 'w \<Rightarrow>
   (go_error + Order) outcome \<times> 'w" where
  "Create_body env tx qCtx userID items w =
     (case env_uuid env w of (orderID, w1) \<Rightarrow>
      (case Create_total items fzero of
         Panicked \<Rightarrow> (Panicked, w1)
       | Done tot \<Rightarrow>
           (case tx_QueryRow (env_drv env) tx qCtx sql_insert_order [SStr orderID, SStr userID, SFloat tot] w1 of
              (Inl err, w2) \<Rightarrow> (Done (Inl (''insert order: '' @ err)), w2)
            | (Inr rw, w2) \<Rightarrow>
                (case scan_time rw of
                   None \<Rightarrow> (Done (Inl (''insert order: '' @ scan_error (env_drv env) rw)), w2)
                 | Some createdAt \<Rightarrow>
                     (case Create_items env tx qCtx orderID items w2 of
                        (Panicked, w3) \<Rightarrow> (Panicked, w3)
                      | (Done (Some err), w3) \<Rightarrow> (Done (Inl err), w3)
                      | (Done None, w3) \<Rightarrow>
                          (case tx_Commit (env_drv env) tx qCtx w3 of
                             (Some err, w4) \<Rightarrow> (Done (Inl (''commit tx: '' @ err)), w4)
                           | (None, w4) \<Rightarrow>
                               (Done (Inr \<lparr>Order_Id = orderID, Order_UserId = userID, Order_Items = items,
                                  Order_Total = tot, Order_Status = ORDER_STATUS_PENDING,
                                  Order_CreatedAt = Some (timestamppb_New createdAt)\<rparr>), w4)))))))"

definition OrderRepository_Create ::
  "'w order_env \<Rightarrow> OrderRepository \<Rightarrow> ctx \<Rightarrow> string \<Rightarrow> OrderItem option list \<Rightarrow> 'w \<Rightarrow>
   (go_error + Order) outcome \<times> 'w" where
  "OrderRepository_Create env r c userID items w =
     (let qCtx = OrderRepository_queryTimeout c in
      case pool_Begin (env_drv env) (OrderRepository_getPool r) qCtx w of
        (Inl err, w1) \<Rightarrow> (Done (Inl (''begin tx: '' @ err)), w1)
      | (Inr tx, w1) \<Rightarrow>
          (case Create_body env tx qCtx userID items w1 of
             (res, w2) \<Rightarrow> (res, tx_Rollback (env_drv env) tx c w2)))"

section \<open>Get and Cancel\<close>

definition sql_select_order :: string where
  "sql_select_order = ''SELECT user_id, status, total, created_at FROM orders WHERE id = $1''"

definition sql_select_items :: string where
  "sql_select_items = ''SELECT product_id, product_name, quantity, unit_price'' @ sql_break @
     ''FROM order_items WHERE order_id = $1''"

definition sql_cancel_order :: string where
  "sql_cancel_order = ''UPDATE orders SET status = '' @ [CHR 0x27] @ ''CANCELLED'' @ [CHR 0x27] @
     '' WHERE id = $1'' @ sql_break @ ''RETURNING status''"

fun scan_order :: "row \<Rightarrow> (string \<times> string \<times> float64 \<times> time) option" where
  "scan_order [SStr uid, SStr st, SFloat tot, STime t] = Some (uid, st, tot, t)"
| "scan_order _ = None"

fun scan_item :: "row \<Rightarrow> OrderItem option" where
  "scan_item [SStr pid, SStr pname, SInt q, SFloat price] =
     Some \<lparr>OrderItem_ProductId = pid, OrderItem_ProductName = pname, OrderItem_Quantity = q, OrderItem_UnitPrice = price\<rparr>"
| "scan_item _ = None"

fun scan_status :: "row \<Rightarrow> string option" where
  "scan_status [SStr st] = Some st"
| "scan_status _ = None"

fun getItems_rows :: "'w pgx \<Rightarrow> row list \<Rightarrow> go_error + OrderItem option list" where
  "getItems_rows drv [] = Inr []"
| "getItems_rows drv (rw # rows) =
     (case scan_item rw of
        None \<Rightarrow> Inl (''scan item: '' @ scan_error drv rw)
      | Some item \<Rightarrow>
          (case getItems_rows drv rows of Inl err \<Rightarrow> Inl err | Inr items \<Rightarrow> Inr (Some item # items)))"

text \<open>The error that \<open>rows.Err()\<close> would give after the loop is never looked at.\<close>

definition OrderRepository_getItems ::
  "'w order_env \<Rightarrow> OrderRepository \<Rightarrow> ctx \<Rightarrow> string \<Rightarrow> 'w \<Rightarrow> (go_error + OrderItem option list) \<times> 'w" where
  "OrderRepository_getItems env r c orderID w =
     (let qCtx = OrderRepository_queryTimeout c in
      case pool_Query (env_drv env) (OrderRepository_getPool r) qCtx sql_select_items [SStr orderID] w of
        (Inl err, w') \<Rightarrow> (Inl (''get items: '' @ err), w')
      | (Inr (rows, rows_Err), w') \<Rightarrow> (getItems_rows (env_drv env) rows, w'))"

definition OrderRepository_getFromDB ::
  "'w order_env \<Rightarrow> OrderRepository \<Rightarrow> ctx \<Rightarrow> string \<Rightarrow> 'w \<Rightarrow> (go_error + Order option) \<times> 'w" where
  "OrderRepository_getFromDB env r c i w =
     (let qCtx = OrderRepository_queryTimeout c in
      case pool_QueryRow (env_drv env) (OrderRepository_getPool r) qCtx sql_select_order [SStr i] w of
        (Inl err, w') \<Rightarrow>
          (if err = no_rows then (Inr None, w') else (Inl (''get order: '' @ err), w'))
      | (Inr rw, w') \<Rightarrow>
          (case scan_order rw of
             None \<Rightarrow> (Inl (''get order: '' @ scan_error (env_drv env) rw), w')
           | Some (userID, st, tot, createdAt) \<Rightarrow>
               (case OrderRepository_getItems env r c i w' of
                  (Inl err, w'') \<Rightarrow> (Inl err, w'')
                | (Inr items, w'') \<Rightarrow>
                    (Inr (Some \<lparr>Order_Id = i, Order_UserId = userID, Order_Items = items, Order_Total = tot,
                       Order_Status = parseOrderStatus st,
                       Order_CreatedAt = Some (timestamppb_New createdAt)\<rparr>), w''))))"

text \<open>The read path: a cache hit ends it; a cache error is the same as a miss.\<close>

definition OrderRepository_Get ::
  "'w order_env \<Rightarrow> OrderRepository \<Rightarrow> ctx \<Rightarrow> string \<Rightarrow> 'w \<Rightarrow> (go_error + Order option) \<times> 'w" where
  "OrderRepository_Get env r c i w =
     (case (if OrderRepository_rdb r \<noteq> None
            then (case OrderCache_Get (env_red env) (env_js env) (OrderRepository_cache r) c i w of
                    (Inr (Some order), w') \<Rightarrow> (Some order, w')
                  | (_, w') \<Rightarrow> (None, w'))
            else (None, w)) of
        (Some order, w1) \<Rightarrow> (Inr (Some order), w1)
      | (None, w1) \<Rightarrow>
          (case OrderRepository_getFromDB env r c i w1 of
             (Inl err, w2) \<Rightarrow> (Inl err, w2)
           | (Inr None, w2) \<Rightarrow> (Inr None, w2)
           | (Inr (Some order), w2) \<Rightarrow>
               (Inr (Some order),
                if OrderRepository_rdb r \<noteq> None
                then snd (OrderCache_Set (env_red env) (env_js env) (OrderRepository_cache r) c order w2)
                else w2)))"

definition OrderRepository_Cancel ::
  "'w order_env \<Rightarrow> OrderRepository \<Rightarrow> ctx \<Rightarrow> string \<Rightarrow> 'w \<Rightarrow> (go_error + Order option) \<times> 'w" where
  "OrderRepository_Cancel env r c i w =
     (let qCtx = OrderRepository_queryTimeout c in
      case pool_QueryRow (env_drv env) (OrderRepository_getPool r) qCtx sql_cancel_order [SStr i] w of
        (Inl err, w1) \<Rightarrow>
          (if err = no_rows then (Inr None, w1) else (Inl (''cancel order: '' @ err), w1))
      | (Inr rw, w1) \<Rightarrow>
          (case scan_status rw of
             None \<Rightarrow> (Inl (''cancel order: '' @ scan_error (env_drv env) rw), w1)
           | Some st \<Rightarrow>
               OrderRepository_getFromDB env r c i
                 (if OrderRepository_rdb r \<noteq> None
                  then OrderCache_Invalidate (env_red env) (OrderRepository_cache r) c i w1
                  else w1)))"

section \<open>List\<close>

text \<open>The page size and page that are used, and the offset, all in 32-bit arithmetic.\<close>

definition List_clamp :: "int32 \<Rightarrow> int32 \<Rightarrow> int32 \<times> int32 \<times> int32" where
  "List_clamp page pageSize =
     (let pageSize' = (if sint pageSize \<le> 0 \<or> 100 < sint pageSize then 20 else pageSize);
          page' = (if sint page < 1 then 1 else page)
      in (page', pageSize', (page' - 1) * pageSize'))"

definition List_countQuery :: "string \<Rightarrow> string \<times> sqlval list" where
  "List_countQuery userID =
     (let q = ''SELECT COUNT(*) FROM orders''; args = []
      in if userID \<noteq> '''' then (q @ '' WHERE user_id = $1'', args @ [SStr userID]) else (q, args))"

definition List_listQuery :: "string \<Rightarrow> int32 \<Rightarrow> int32 \<Rightarrow> string \<times> sqlval list" where
  "List_listQuery userID pageSize offset =
     (let q = ''SELECT id, user_id, status, total, created_at FROM orders'';
          (q1, args1, argIdx) =
            (if userID \<noteq> '''' then (q @ '' WHERE user_id = $'' @ dec_nat 1, [SStr userID], 1 + 1) else (q, [], 1))
      in (q1 @ '' ORDER BY created_at DESC LIMIT $'' @ dec_nat argIdx @ '' OFFSET $'' @ dec_nat (argIdx + 1),
          args1 @ [SInt pageSize, SInt offset]))"

fun scan_count :: "row \<Rightarrow> int32 option" where
  "scan_count [SInt n] = Some n"
| "scan_count _ = None"

fun scan_list_order :: "row \<Rightarrow> (string \<times> string \<times> string \<times> float64 \<times> time) option" where
  "scan_list_order [SStr i, SStr uid, SStr st, SFloat tot, STime t] = Some (i, uid, st, tot, t)"
| "scan_list_order _ = None"

fun List_rows :: "'w pgx \<Rightarrow> row list \<Rightarrow> go_error + Order list" where
  "List_rows drv [] = Inr []"
| "List_rows drv (rw # rows) =
     (case scan_list_order rw of
        None \<Rightarrow> Inl (''scan order: '' @ scan_error drv rw)
      | Some (i, uid, st, tot, createdAt) \<Rightarrow>
          (case List_rows drv rows of
             Inl err \<Rightarrow> Inl err
           | Inr orders \<Rightarrow>
               Inr (\<lparr>Order_Id = i, Order_UserId = uid, Order_Items = [], Order_Total = tot,
                     Order_Status = parseOrderStatus st,
                     Order_CreatedAt = Some (timestamppb_New createdAt)\<rparr> # orders)))"

definition OrderRepository_List ::
  "'w order_env \<Rightarrow> OrderRepository \<Rightarrow> ctx \<Rightarrow> string \<Rightarrow> int32 \<Rightarrow> int32 \<Rightarrow> 'w \<Rightarrow>
   (go_error + Order list \<times> int32) \<times> 'w" where
  "OrderRepository_List env r c userID page pageSize w =
     (case List_clamp page pageSize of (page', pageSize', offset) \<Rightarrow>
      let qCtx = OrderRepository_queryTimeout c;
          (countQuery, countArgs) = List_countQuery userID;
          (listQuery, listArgs) = List_listQuery userID pageSize' offset
      in case pool_QueryRow (env_drv env) (OrderRepository_getPool r) qCtx countQuery countArgs w of
           (Inl err, w1) \<Rightarrow> (Inl (''count orders: '' @ err), w1)
         | (Inr rw, w1) \<Rightarrow>
             (case scan_count rw of
                None \<Rightarrow> (Inl (''count orders: '' @ scan_error (env_drv env) rw), w1)
              | Some tot \<Rightarrow>
                  (case pool_Query (env_drv env) (OrderRepository_getPool r) qCtx listQuery listArgs w1 of
                     (Inl err, w2) \<Rightarrow> (Inl (''list orders: '' @ err), w2)
                   | (Inr (rows, rows_Err), w2) \<Rightarrow>
                       (case List_rows (env_drv env) rows of
                          Inl err \<Rightarrow> (Inl err, w2)
                        | Inr orders \<Rightarrow> (Inr (orders, tot), w2)))))"

end
