(* ===== verification/OrderStore.thy ===== *)
theory OrderStore
  imports OrderRepository "HOL-Library.Multiset"
begin

text \<open>
  The abstract order store and the repository over it. The tables that
  \<open>src/db/migrations/000002_create_orders.up.sql\<close> and \<open>000003_create_order_items.up.sql\<close> create are
  maps; the locale \<open>pg_orders\<close> states what PostgreSQL promises for the statements of the order
  repository, transactions included; \<open>order_backend\<close> adds Redis, the codec and the identifiers. The
  effect of every repository operation on the store and on the cache is proved in it.
\<close>

section \<open>The abstract store\<close>

record order_row =
  or_user :: string
  or_status :: string
  or_total :: float64
  or_created :: time

record orders_db =
  od_orders :: "string \<rightharpoonup> order_row"
  od_items :: "string \<Rightarrow> OrderItem multiset"

datatype order_write = InsOrder string order_row | InsItem string OrderItem

fun apply_write :: "order_write \<Rightarrow> orders_db \<Rightarrow> orders_db" where
  "apply_write (InsOrder u r) d = d\<lparr>od_orders := (od_orders d)(u \<mapsto> r)\<rparr>"
| "apply_write (InsItem u it) d = d\<lparr>od_items := (od_items d)(u := add_mset it (od_items d u))\<rparr>"

abbreviation apply_writes :: "order_write list \<Rightarrow> orders_db \<Rightarrow> orders_db" where
  "apply_writes ws d \<equiv> fold apply_write ws d"

definition order_cancelled :: "string \<Rightarrow> orders_db \<Rightarrow> orders_db" where
  "order_cancelled u d =
     d\<lparr>od_orders := (od_orders d)(u := map_option (or_status_update (\<lambda>_. ''CANCELLED'')) (od_orders d u))\<rparr>"

text \<open>The rows that the statements return.\<close>

definition order_cols :: "order_row \<Rightarrow> row" where
  "order_cols r = [SStr (or_user r), SStr (or_status r), SFloat (or_total r), STime (or_created r)]"

definition item_cols :: "OrderItem \<Rightarrow> row" where
  "item_cols it = [SStr (OrderItem_ProductId it), SStr (OrderItem_ProductName it),
     SInt (OrderItem_Quantity it), SFloat (OrderItem_UnitPrice it)]"

definition list_cols :: "string \<times> order_row \<Rightarrow> row" where
  "list_cols x = SStr (fst x) # order_cols (snd x)"

text \<open>The orders that the filter of \<open>List\<close> selects, and their listings, newest first.\<close>

definition listed :: "(string \<Rightarrow> string option) \<Rightarrow> string \<Rightarrow> orders_db \<Rightarrow> (string \<times> order_row) set" where
  "listed uuid_in userID d =
     {(u, r). od_orders d u = Some r \<and> (userID = '''' \<or> uuid_in userID = Some (or_user r))}"

definition newest_first :: "(string \<times> order_row) set \<Rightarrow> (string \<times> order_row) list \<Rightarrow> bool" where
  "newest_first S xs \<longleftrightarrow>
     set xs = S \<and> distinct xs \<and> sorted_wrt (\<lambda>x y. or_created (snd y) \<le> or_created (snd x)) xs"

text \<open>An item as it is stored: its price goes through the column type \<open>NUMERIC(10,2)\<close>.\<close>

definition stored_item :: "(float64 \<Rightarrow> float64 option) \<Rightarrow> OrderItem \<Rightarrow> OrderItem \<Rightarrow> bool" where
  "stored_item numeric it it' \<longleftrightarrow>
     (\<exists>y. numeric (OrderItem_UnitPrice it) = Some y \<and> it' = it\<lparr>OrderItem_UnitPrice := y\<rparr>)"

definition order_total :: "OrderItem list \<Rightarrow> float64" where
  "order_total its = foldl (\<lambda>t it. fadd t
     (fmul (float_of_int (sint (OrderItem_Quantity it))) (OrderItem_UnitPrice it))) fzero its"

text \<open>The one effect \<open>Create\<close> can have: a new order and all of its items.\<close>

definition order_created ::
  "(string \<Rightarrow> string option) \<Rightarrow> (float64 \<Rightarrow> float64 option) \<Rightarrow> string \<Rightarrow> string \<Rightarrow> OrderItem list \<Rightarrow> time \<Rightarrow>
   orders_db \<Rightarrow> orders_db \<Rightarrow> bool" where
  "order_created uuid_in numeric i userID its t d d' \<longleftrightarrow>
     (\<exists>v y its'. uuid_in i = Some i \<and> uuid_in userID = Some v \<and> od_orders d i = None \<and>
        numeric (order_total its) = Some y \<and> list_all2 (stored_item numeric) its its' \<and>
        d' = d\<lparr>od_orders := (od_orders d)(i \<mapsto> \<lparr>or_user = v, or_status = ''PENDING'', or_total = y, or_created = t\<rparr>),
               od_items := (od_items d)(i := od_items d i + mset its')\<rparr>)"

text \<open>
  An order message that shows what the store holds under the identifier \<open>i\<close>. When rows can be lost
  on the way (\<open>lossy\<close>), some of the items may be missing.
\<close>

definition items_shown :: "bool \<Rightarrow> OrderItem list \<Rightarrow> OrderItem multiset \<Rightarrow> bool" where
  "items_shown lossy its M \<longleftrightarrow> mset its \<subseteq># M \<and> (\<not> lossy \<longrightarrow> mset its = M)"

definition shows_order ::
  "bool \<Rightarrow> (string \<Rightarrow> string option) \<Rightarrow> orders_db \<Rightarrow> string \<Rightarrow> Order \<Rightarrow> bool" where
  "shows_order lossy uuid_in d i order \<longleftrightarrow>
     (\<exists>u r its. uuid_in i = Some u \<and> od_orders d u = Some r \<and> items_shown lossy its (od_items d u) \<and>
        order = \<lparr>Order_Id = i, Order_UserId = or_user r, Order_Items = map Some its, Order_Total = or_total r,
                 Order_Status = parseOrderStatus (or_status r),
                 Order_CreatedAt = Some (timestamppb_New (or_created r))\<rparr>)"

section \<open>What PostgreSQL promises\<close>

text \<open>
  \<open>db w\<close> is the committed content, \<open>pend w t\<close> the writes of the open transaction \<open>t\<close>. A failed
  statement or commit may have been carried out when its acknowledgement was lost; nothing of a
  transaction is visible before its commit, and rolling back changes nothing committed. \<open>uuid_in\<close> is
  the input function of the type \<open>uuid\<close>, \<open>numeric\<close> what a float64 becomes in a \<open>NUMERIC(10,2)\<close>
  column. \<open>Query\<close> reports what goes wrong in the execution of a statement, a malformed \<open>uuid\<close> or a
  negative \<open>OFFSET\<close> included, not as its own error but as that of the row stream (\<open>rows.Err\<close>); without
  \<open>lossy\<close>, no other stream breaks off. \<open>QueryRow\<close> has no such gap: its \<open>Scan\<close> returns the error of the
  stream.
\<close>

locale pg_orders =
  fixes drv :: "'w pgx"
    and uuid_in :: "string \<Rightarrow> string option"
    and numeric :: "float64 \<Rightarrow> float64 option"
    and db :: "'w \<Rightarrow> orders_db"
    and pend :: "'w \<Rightarrow> txref \<Rightarrow> order_write list"
    and lossy :: bool
  assumes begin_ok: "pool_Begin drv p c w = (Inr t, w') \<Longrightarrow> db w' = db w \<and> pend w' t = []"
    and begin_error: "pool_Begin drv p c w = (Inl err, w') \<Longrightarrow> db w' = db w"
    and tx_order_ok: "tx_QueryRow drv t c sql_insert_order [SStr i, SStr a, SFloat x] w = (Inr rw, w') \<Longrightarrow>
      \<exists>u v y tm. uuid_in i = Some u \<and> uuid_in a = Some v \<and> numeric x = Some y \<and> od_orders (db w) u = None \<and>
        rw = [STime tm] \<and> db w' = db w \<and>
        pend w' t = pend w t @ [InsOrder u \<lparr>or_user = v, or_status = ''PENDING'', or_total = y, or_created = tm\<rparr>]"
    and tx_order_error: "tx_QueryRow drv t c sql_insert_order args w = (Inl err, w') \<Longrightarrow> db w' = db w"
    and tx_item_ok: "tx_Exec drv t c sql_insert_item [SStr j, SStr i, SStr pid, SStr pn, SInt q, SFloat x] w = (Inr n, w') \<Longrightarrow>
      \<exists>u y. uuid_in i = Some u \<and> numeric x = Some y \<and> db w' = db w \<and>
        pend w' t = pend w t @ [InsItem u \<lparr>OrderItem_ProductId = pid, OrderItem_ProductName = pn,
                                            OrderItem_Quantity = q, OrderItem_UnitPrice = y\<rparr>]"
    and tx_item_error: "tx_Exec drv t c sql_insert_item args w = (Inl err, w') \<Longrightarrow> db w' = db w"
    and commit_ok: "tx_Commit drv t c w = (None, w') \<Longrightarrow> db w' = apply_writes (pend w t) (db w)"
    and commit_error: "tx_Commit drv t c w = (Some err, w') \<Longrightarrow>
      db w' = db w \<or> db w' = apply_writes (pend w t) (db w)"
    and rollback_keeps: "db (tx_Rollback drv t c w) = db w"
    and order_keeps: "pool_QueryRow drv p c sql_select_order [SStr i] w = (res, w') \<Longrightarrow> db w' = db w"
    and order_row: "pool_QueryRow drv p c sql_select_order [SStr i] w = (Inr rw, w') \<Longrightarrow>
      \<exists>u r. uuid_in i = Some u \<and> od_orders (db w) u = Some r \<and> rw = order_cols r"
    and order_none: "pool_QueryRow drv p c sql_select_order [SStr i] w = (Inl no_rows, w') \<Longrightarrow>
      \<exists>u. uuid_in i = Some u \<and> od_orders (db w) u = None"
    and items_keeps: "pool_Query drv p c sql_select_items [SStr i] w = (qres, w') \<Longrightarrow> db w' = db w"
    and items_rows: "pool_Query drv p c sql_select_items [SStr i] w = (Inr (rows, rerr), w') \<Longrightarrow>
      (uuid_in i = None \<and> rows = [] \<and> rerr \<noteq> None) \<or>
      (\<exists>u its. uuid_in i = Some u \<and> rows = map item_cols its \<and> mset its \<subseteq># od_items (db w) u \<and>
        (rerr = None \<longrightarrow> mset its = od_items (db w) u) \<and> (\<not> lossy \<longrightarrow> rerr = None))"
    and cancel_row: "pool_QueryRow drv p c sql_cancel_order [SStr i] w = (Inr rw, w') \<Longrightarrow>
      \<exists>u r. uuid_in i = Some u \<and> od_orders (db w) u = Some r \<and> rw = [SStr ''CANCELLED''] \<and>
        db w' = order_cancelled u (db w)"
    and cancel_none: "pool_QueryRow drv p c sql_cancel_order [SStr i] w = (Inl no_rows, w') \<Longrightarrow>
      db w' = db w \<and> (\<exists>u. uuid_in i = Some u \<and> od_orders (db w) u = None)"
    and cancel_error: "pool_QueryRow drv p c sql_cancel_order [SStr i] w = (Inl err, w') \<Longrightarrow>
      db w' = db w \<or> (\<exists>u. uuid_in i = Some u \<and> db w' = order_cancelled u (db w))"
    and count_keeps: "List_countQuery a = (q1, args) \<Longrightarrow> pool_QueryRow drv p c q1 args w = (res, w') \<Longrightarrow> db w' = db w"
    and count_row: "List_countQuery a = (q1, args) \<Longrightarrow> pool_QueryRow drv p c q1 args w = (Inr rw, w') \<Longrightarrow>
      (a = '''' \<or> uuid_in a \<noteq> None) \<and> finite (listed uuid_in a (db w)) \<and> (\<exists>m. rw = [SInt m] \<and> sint m = int (card (listed uuid_in a (db w))))"
    and list_keeps: "List_listQuery a lmt off = (q1, args) \<Longrightarrow> pool_Query drv p c q1 args w = (qres, w') \<Longrightarrow> db w' = db w"
    and list_rows: "List_listQuery a lmt off = (q1, args) \<Longrightarrow> pool_Query drv p c q1 args w = (Inr (rows, rerr), w') \<Longrightarrow>
      (rows = [] \<and> rerr \<noteq> None \<and> (sint lmt < 0 \<or> sint off < 0 \<or> a \<noteq> '''' \<and> uuid_in a = None)) \<or>
      (0 \<le> sint lmt \<and> 0 \<le> sint off \<and> (a = '''' \<or> uuid_in a \<noteq> None) \<and>
       (\<exists>xs k. newest_first (listed uuid_in a (db w)) xs \<and>
         rows = map list_cols (take k (take (nat (sint lmt)) (drop (nat (sint off)) xs))) \<and>
         (rerr = None \<longrightarrow> nat (sint lmt) \<le> k) \<and> (\<not> lossy \<longrightarrow> rerr = None)))"

text \<open>
  The whole environment: Redis and PostgreSQL do not touch each other, Redis entries may expire
  while PostgreSQL works, and \<open>uuid.New\<close> gives canonical identifiers.
\<close>

locale order_backend =
  pg: pg_orders "env_drv env" uuid_in numeric db pend lossy +
  ch: order_cache "env_red env" kv "env_js env"
  for env :: "'w order_env" and uuid_in numeric db pend lossy kv +
  assumes uuid_keeps: "env_uuid env w = (i, w') \<Longrightarrow> db w' = db w \<and> pend w' = pend w \<and> uuid_in i = Some i"
    and redis_get_keeps: "redis_Get (env_red env) rp c k w = (rep, w') \<Longrightarrow> db w' = db w"
    and redis_set_keeps: "redis_Set (env_red env) rp c k data ttl w = (err, w') \<Longrightarrow> db w' = db w"
    and redis_del_keeps: "redis_Del (env_red env) rp c k w = (err, w') \<Longrightarrow> db w' = db w"
    and uuid_kv: "kv (snd (env_uuid env w)) \<subseteq>\<^sub>m kv w"
    and query_row_kv: "kv (snd (pool_QueryRow (env_drv env) p c q args w)) \<subseteq>\<^sub>m kv w"
    and query_kv: "kv (snd (pool_Query (env_drv env) p c q args w)) \<subseteq>\<^sub>m kv w"
    and begin_kv: "kv (snd (pool_Begin (env_drv env) p c w)) \<subseteq>\<^sub>m kv w"
    and tx_query_row_kv: "kv (snd (tx_QueryRow (env_drv env) t c q args w)) \<subseteq>\<^sub>m kv w"
    and tx_exec_kv: "kv (snd (tx_Exec (env_drv env) t c q args w)) \<subseteq>\<^sub>m kv w"
    and commit_kv: "kv (snd (tx_Commit (env_drv env) t c w)) \<subseteq>\<^sub>m kv w"
    and rollback_kv: "kv (tx_Rollback (env_drv env) t c w) \<subseteq>\<^sub>m kv w"

section \<open>Generic facts\<close>

lemma Create_total_map: "Create_total (map Some its) t = Done (foldl (\<lambda>t it. fadd t
     (fmul (float_of_int (sint (OrderItem_Quantity it))) (OrderItem_UnitPrice it))) t its)"
  by (induction its arbitrary: t) simp_all

lemma Create_total_Done: "Create_total items t = Done x \<Longrightarrow> \<exists>its. items = map Some its"
proof (induction items arbitrary: t)
  case (Cons a items)
  then obtain it where a: "a = Some it" by (cases a) auto
  with Cons obtain its where "items = map Some its" by auto
  with a show ?case by (metis list.simps(9))
qed simp

lemma Create_total_eq: "Create_total items fzero = Done x \<longleftrightarrow> (\<exists>its. items = map Some its \<and> x = order_total its)"
  using Create_total_Done [of items fzero x] Create_total_map [of _ fzero] by (auto simp: order_total_def)

lemma getItems_rows_cols [simp]: "getItems_rows drv (map item_cols its) = Inr (map Some its)"
  by (induction its) (simp_all add: item_cols_def)

definition order_summary :: "string \<times> order_row \<Rightarrow> Order" where
  "order_summary x =
     \<lparr>Order_Id = fst x, Order_UserId = or_user (snd x), Order_Items = [], Order_Total = or_total (snd x),
      Order_Status = parseOrderStatus (or_status (snd x)),
      Order_CreatedAt = Some (timestamppb_New (or_created (snd x)))\<rparr>"

lemma List_rows_cols [simp]: "List_rows drv (map list_cols xs) = Inr (map order_summary xs)"
  by (induction xs) (simp_all add: list_cols_def order_cols_def order_summary_def)

lemma List_clamp_size: "List_clamp page pageSize = (page', sz, off) \<Longrightarrow> 1 \<le> sint sz \<and> sint sz \<le> 100"
  by (auto simp: List_clamp_def Let_def split: if_splits)

lemma fold_items:
  "fold apply_write (map (InsItem u) its) d = d\<lparr>od_items := (od_items d)(u := od_items d u + mset its)\<rparr>"
  by (induction its arbitrary: d) simp_all

lemma order_cancelled_simps [simp]:
  "od_orders (order_cancelled u d) u = map_option (or_status_update (\<lambda>_. ''CANCELLED'')) (od_orders d u)"
  "v \<noteq> u \<Longrightarrow> od_orders (order_cancelled u d) v = od_orders d v"
  "od_items (order_cancelled u d) = od_items d"
  by (simp_all add: order_cancelled_def)

lemma order_cancelled_idem [simp]: "order_cancelled u (order_cancelled u d) = order_cancelled u d"
  by (cases "od_orders d u") (simp_all add: order_cancelled_def)

lemma order_cancelled_None [simp]: "od_orders d u = None \<Longrightarrow> order_cancelled u d = d"
  by (simp add: order_cancelled_def fun_upd_idem)

text \<open>
  The cache is coherent with the store when everything a reader can see in it is what the store
  holds; it is canonical when its entries are under the canonical spelling of the identifier.
\<close>

definition coherent ::
  "bool \<Rightarrow> order_json \<Rightarrow> (string \<Rightarrow> string option) \<Rightarrow> orders_db \<Rightarrow> (string \<rightharpoonup> string) \<Rightarrow> bool" where
  "coherent lossy js uuid_in d m \<longleftrightarrow>
     (\<forall>i order. cached js m i order \<longrightarrow> shows_order lossy uuid_in d i order)"

definition canonical_cache :: "order_json \<Rightarrow> (string \<Rightarrow> string option) \<Rightarrow> (string \<rightharpoonup> string) \<Rightarrow> bool" where
  "canonical_cache js uuid_in m \<longleftrightarrow> (\<forall>i order. cached js m i order \<longrightarrow> uuid_in i = Some i)"

lemma shows_order_no_nil: "shows_order lossy uuid_in d i order \<Longrightarrow> None \<notin> set (Order_Items order)"
  by (auto simp: shows_order_def)

lemma shows_order_id: "shows_order lossy uuid_in d i order \<Longrightarrow> Order_Id order = i"
  by (auto simp: shows_order_def)

lemma shows_order_frame:
  assumes "shows_order lossy uuid_in d i order" "uuid_in i = Some u"
    and "od_orders d' u = od_orders d u" "od_items d' u = od_items d u"
  shows "shows_order lossy uuid_in d' i order"
  using assms by (auto simp: shows_order_def)

lemma order_created_coherent:
  assumes "order_created uuid_in numeric k a its t d d'" "coherent lossy js uuid_in d m"
  shows "coherent lossy js uuid_in d' m"
  unfolding coherent_def
proof (intro allI impI)
  fix i order assume "cached js m i order"
  then have s: "shows_order lossy uuid_in d i order" using assms(2) by (simp add: coherent_def)
  then obtain u where u: "uuid_in i = Some u" "od_orders d u \<noteq> None" by (auto simp: shows_order_def)
  with assms(1) have "u \<noteq> k" by (auto simp: order_created_def)
  with assms(1) shows_order_frame [OF s u(1)] show "shows_order lossy uuid_in d' i order"
    by (auto simp: order_created_def)
qed

section \<open>The repository over the store\<close>

context order_backend
begin

lemma Create_items_effect:
  "Create_items env tx c i (map Some its) w = (res, w') \<Longrightarrow> uuid_in i = Some u \<Longrightarrow>
   db w' = db w \<and> (\<exists>e. res = Done e \<and> (e = None \<longrightarrow>
     (\<exists>its'. list_all2 (stored_item numeric) its its' \<and> pend w' tx = pend w tx @ map (InsItem u) its')))"
proof (induction its arbitrary: w)
  case (Cons it its)
  obtain j w1 where j: "env_uuid env w = (j, w1)" by fastforce
  note k = uuid_keeps [OF j]
  obtain q w2 where q: "tx_Exec (env_drv env) tx c sql_insert_item
      [SStr j, SStr i, SStr (OrderItem_ProductId it), SStr (OrderItem_ProductName it),
       SInt (OrderItem_Quantity it), SFloat (OrderItem_UnitPrice it)] w1 = (q, w2)" by fastforce
  show ?case
  proof (cases q)
    case (Inl err)
    with Cons.prems j q k pg.tx_item_error [OF q [unfolded Inl]] show ?thesis by auto
  next
    case (Inr n)
    from pg.tx_item_ok [OF q [unfolded Inr]] Cons.prems(2) obtain y where
      y: "numeric (OrderItem_UnitPrice it) = Some y" "db w2 = db w1"
      "pend w2 tx = pend w1 tx @ [InsItem u (it\<lparr>OrderItem_UnitPrice := y\<rparr>)]"
      by (cases it) auto
    from Cons.prems j q Inr have "Create_items env tx c i (map Some its) w2 = (res, w')" by simp
    from Cons.IH [OF this Cons.prems(2)] obtain e where e: "db w' = db w2" "res = Done e"
      "e = None \<longrightarrow> (\<exists>its'. list_all2 (stored_item numeric) its its' \<and> pend w' tx = pend w2 tx @ map (InsItem u) its')"
      by blast
    have "stored_item numeric it (it\<lparr>OrderItem_UnitPrice := y\<rparr>)" using y(1) by (auto simp: stored_item_def)
    with e y k show ?thesis by (fastforce intro: exI [of _ "it\<lparr>OrderItem_UnitPrice := y\<rparr> # its'" for its'])
  qed
qed auto

lemma Create_body_effect:
  assumes run: "Create_body env tx c userID items w = (res, w')" and "pend w tx = []"
  shows "(db w' = db w \<and> (\<forall>order. res \<noteq> Done (Inr order))) \<or>
    (\<exists>i its t. items = map Some its \<and> order_created uuid_in numeric i userID its t (db w) (db w') \<and>
       ((\<exists>err. res = Done (Inl err)) \<or> res = Done (Inr \<lparr>Order_Id = i, Order_UserId = userID, Order_Items = items,
          Order_Total = order_total its, Order_Status = ORDER_STATUS_PENDING,
          Order_CreatedAt = Some (timestamppb_New t)\<rparr>)))"
proof -
  obtain i w1 where i: "env_uuid env w = (i, w1)" by fastforce
  note k = uuid_keeps [OF i]
  show ?thesis
  proof (cases "Create_total items fzero")
    case Panicked
    with run i k show ?thesis by (auto simp: Create_body_def)
  next
    case (Done tot)
    then obtain its where its: "items = map Some its" "tot = order_total its" by (auto simp: Create_total_eq)
    obtain q w2 where q: "tx_QueryRow (env_drv env) tx c sql_insert_order [SStr i, SStr userID, SFloat tot] w1 = (q, w2)"
      by fastforce
    show ?thesis
    proof (cases q)
      case (Inl err)
      with run i k Done q pg.tx_order_error [OF q [unfolded Inl]] show ?thesis by (auto simp: Create_body_def)
    next
      case (Inr rw)
      from pg.tx_order_ok [OF q [unfolded Inr]] k assms(2) obtain v y t where
        o: "uuid_in userID = Some v" "numeric tot = Some y" "od_orders (db w) i = None" "rw = [STime t]" "db w2 = db w"
        "pend w2 tx = [InsOrder i \<lparr>or_user = v, or_status = ''PENDING'', or_total = y, or_created = t\<rparr>]"
        by auto
      obtain e w3 where e: "Create_items env tx c i items w2 = (e, w3)" by fastforce
      from Create_items_effect [OF e [unfolded its]] k obtain e' where
        e': "db w3 = db w" "e = Done e'" "e' = None \<longrightarrow> (\<exists>its'. list_all2 (stored_item numeric) its its' \<and>
           pend w3 tx = pend w2 tx @ map (InsItem i) its')" using o(5) by auto
      show ?thesis
      proof (cases e')
        case (Some err)
        with run i Done q Inr o e e' show ?thesis by (auto simp: Create_body_def)
      next
        case None
        with e' obtain its' where its': "list_all2 (stored_item numeric) its its'"
          "pend w3 tx = pend w2 tx @ map (InsItem i) its'" by blast
        have "order_created uuid_in numeric i userID its t (db w) (apply_writes (pend w3 tx) (db w3))"
          unfolding order_created_def
          using o k its its'(1) e'(1) by (auto simp: its'(2) fold_items)
        with run i Done q Inr o e e' None its show ?thesis
          using pg.commit_ok [of tx c w3] pg.commit_error [of tx c w3]
          by (cases "tx_Commit (env_drv env) tx c w3"; cases "fst (tx_Commit (env_drv env) tx c w3)")
             (auto simp: Create_body_def)
      qed
    qed
  qed
qed

lemma Create_effect:
  assumes run: "OrderRepository_Create env r c userID items w = (res, w')"
  shows "(db w' = db w \<and> (\<forall>order. res \<noteq> Done (Inr order))) \<or>
    (\<exists>i its t. items = map Some its \<and> order_created uuid_in numeric i userID its t (db w) (db w') \<and>
       ((\<exists>err. res = Done (Inl err)) \<or> res = Done (Inr \<lparr>Order_Id = i, Order_UserId = userID, Order_Items = items,
          Order_Total = order_total its, Order_Status = ORDER_STATUS_PENDING,
          Order_CreatedAt = Some (timestamppb_New t)\<rparr>)))"
proof -
  let ?q = "OrderRepository_queryTimeout c"
  obtain b w1 where b: "pool_Begin (env_drv env) (OrderRepository_getPool r) ?q w = (b, w1)" by fastforce
  show ?thesis
  proof (cases b)
    case (Inl err)
    with run b pg.begin_error [OF b [unfolded Inl]] show ?thesis by (auto simp: OrderRepository_Create_def)
  next
    case (Inr tx)
    note bo = pg.begin_ok [OF b [unfolded Inr]]
    obtain x w2 where x: "Create_body env tx ?q userID items w1 = (x, w2)" by fastforce
    with run b Inr have "res = x" "db w' = db w2"
      by (auto simp: OrderRepository_Create_def pg.rollback_keeps)
    with Create_body_effect [OF x] bo show ?thesis by simp
  qed
qed

lemma Create_not_Panicked:
  assumes "OrderRepository_Create env r c userID (map Some its) w = (Panicked, w')"
  shows False
proof -
  have "fst (Create_body env tx q userID (map Some its) w1) \<noteq> Panicked" for tx q w1
  proof -
    obtain i w2 where i: "env_uuid env w1 = (i, w2)" by fastforce
    have "fst (Create_items env tx q i (map Some its) w3) \<noteq> Panicked" for w3
      by (induction its arbitrary: w3) (auto simp: case_prod_beta split: sum.split)
    with i show ?thesis
      by (auto simp: Create_body_def Create_total_map case_prod_beta split: sum.split option.split outcome.split)
  qed
  with assms show ?thesis
    by (auto simp: OrderRepository_Create_def Let_def case_prod_beta split: sum.splits)
qed

lemma getItems_keeps: "OrderRepository_getItems env r c i w = (res, w') \<Longrightarrow> db w' = db w"
  using pg.items_keeps [of "OrderRepository_getPool r" "OrderRepository_queryTimeout c" i w]
  by (auto simp: OrderRepository_getItems_def split: prod.splits sum.splits)

lemma getItems_Inr:
  assumes "OrderRepository_getItems env r c i w = (Inr items, w')" "uuid_in i = Some u"
  shows "\<exists>its. items = map Some its \<and> items_shown lossy its (od_items (db w) u)"
proof -
  from assms obtain rows rerr where
    "pool_Query (env_drv env) (OrderRepository_getPool r) (OrderRepository_queryTimeout c) sql_select_items [SStr i] w =
       (Inr (rows, rerr), w')" and items: "getItems_rows (env_drv env) rows = Inr items"
    by (auto simp: OrderRepository_getItems_def split: prod.splits sum.splits)
  from pg.items_rows [OF this(1)] items assms(2) show ?thesis by (auto simp: items_shown_def)
qed

lemma getFromDB_keeps: "OrderRepository_getFromDB env r c i w = (res, w') \<Longrightarrow> db w' = db w"
  using pg.order_keeps [of "OrderRepository_getPool r" "OrderRepository_queryTimeout c" i w] getItems_keeps
  by (auto simp: OrderRepository_getFromDB_def split: prod.splits sum.splits option.splits if_splits)

lemma getFromDB_Some:
  assumes "OrderRepository_getFromDB env r c i w = (Inr (Some order), w')"
  shows "shows_order lossy uuid_in (db w) i order"
proof -
  from assms obtain rw w1 a st tot t items where
    q: "pool_QueryRow (env_drv env) (OrderRepository_getPool r) (OrderRepository_queryTimeout c) sql_select_order [SStr i] w =
       (Inr rw, w1)" and rw: "scan_order rw = Some (a, st, tot, t)"
    and it: "OrderRepository_getItems env r c i w1 = (Inr items, w')"
    and order: "order = \<lparr>Order_Id = i, Order_UserId = a, Order_Items = items, Order_Total = tot,
       Order_Status = parseOrderStatus st, Order_CreatedAt = Some (timestamppb_New t)\<rparr>"
    by (auto simp: OrderRepository_getFromDB_def split: prod.splits sum.splits option.splits if_splits)
  obtain u row where u: "uuid_in i = Some u" "od_orders (db w) u = Some row" "rw = order_cols row"
    using pg.order_row [OF q] by blast
  from getItems_Inr [OF it u(1)] pg.order_keeps [OF q] u rw order show ?thesis
    by (auto simp: shows_order_def order_cols_def)
qed

lemma getFromDB_None:
  assumes "OrderRepository_getFromDB env r c i w = (Inr None, w')"
  shows "\<exists>u. uuid_in i = Some u \<and> od_orders (db w) u = None"
  using assms pg.order_none [of "OrderRepository_getPool r" "OrderRepository_queryTimeout c" i w]
  by (auto simp: OrderRepository_getFromDB_def split: prod.splits sum.splits option.splits if_splits)

lemma Create_items_kv: "kv (snd (Create_items env tx c i items w)) \<subseteq>\<^sub>m kv w"
proof (induction items arbitrary: w)
  case (Cons a items)
  have step: "kv (snd (tx_Exec (env_drv env) tx c q args (snd (env_uuid env w)))) \<subseteq>\<^sub>m kv w" for q args
    using map_le_trans [OF tx_exec_kv uuid_kv] .
  show ?case
    using uuid_kv [of w] step map_le_trans [OF Cons.IH step]
    by (simp add: case_prod_beta split: option.split sum.split)
qed simp

lemma Create_body_kv: "kv (snd (Create_body env tx c userID items w)) \<subseteq>\<^sub>m kv w"
proof -
  let ?u = "env_uuid env w"
  let ?q = "\<lambda>x. tx_QueryRow (env_drv env) tx c sql_insert_order [SStr (fst ?u), SStr userID, SFloat x] (snd ?u)"
  let ?i = "\<lambda>x. Create_items env tx c (fst ?u) items (snd (?q x))"
  have q: "kv (snd (?q x)) \<subseteq>\<^sub>m kv w" for x using map_le_trans [OF tx_query_row_kv uuid_kv] .
  have i: "kv (snd (?i x)) \<subseteq>\<^sub>m kv w" for x using map_le_trans [OF Create_items_kv q] .
  have c: "kv (snd (tx_Commit (env_drv env) tx c (snd (?i x)))) \<subseteq>\<^sub>m kv w" for x using map_le_trans [OF commit_kv i] .
  show ?thesis
    unfolding Create_body_def using uuid_kv [of w] q i c
    by (simp add: case_prod_beta split: outcome.split sum.split option.split)
qed

lemma Create_kv: "kv (snd (OrderRepository_Create env r c userID items w)) \<subseteq>\<^sub>m kv w"
  unfolding OrderRepository_Create_def
  using begin_kv map_le_trans [OF rollback_kv map_le_trans [OF Create_body_kv begin_kv]]
  by (simp add: Let_def case_prod_beta split: sum.split)

lemma getItems_kv: "kv (snd (OrderRepository_getItems env r c i w)) \<subseteq>\<^sub>m kv w"
  unfolding OrderRepository_getItems_def using query_kv
  by (simp add: Let_def case_prod_beta split: sum.split)

lemma getFromDB_kv: "kv (snd (OrderRepository_getFromDB env r c i w)) \<subseteq>\<^sub>m kv w"
  unfolding OrderRepository_getFromDB_def
  using query_row_kv map_le_trans [OF getItems_kv query_row_kv]
  by (simp add: Let_def case_prod_beta split: sum.split option.split)

lemma List_kv: "kv (snd (OrderRepository_List env r c a page pageSize w)) \<subseteq>\<^sub>m kv w"
  unfolding OrderRepository_List_def
  using query_row_kv map_le_trans [OF query_kv query_row_kv]
  by (simp add: Let_def case_prod_beta split: sum.split option.split)

lemma coherent_mono:
  "coherent lossy (env_js env) uuid_in d (kv w) \<Longrightarrow> kv w' \<subseteq>\<^sub>m kv w \<Longrightarrow> coherent lossy (env_js env) uuid_in d (kv w')"
  unfolding coherent_def using ch.cached_mono by blast

lemma canonical_mono:
  "canonical_cache (env_js env) uuid_in (kv w) \<Longrightarrow> kv w' \<subseteq>\<^sub>m kv w \<Longrightarrow> canonical_cache (env_js env) uuid_in (kv w')"
  unfolding canonical_cache_def using ch.cached_mono by blast

lemma cache_Get_db: "OrderCache_Get (env_red env) (env_js env) oc c i w = (res, w') \<Longrightarrow> db w' = db w"
  by (auto simp: OrderCache_Get_def split: prod.splits redis_reply.splits sum.splits dest: redis_get_keeps)

lemma cache_Set_db: "db (snd (OrderCache_Set (env_red env) (env_js env) oc c order w)) = db w"
  by (auto simp: OrderCache_Set_def split: sum.splits intro: redis_set_keeps prod.collapse [symmetric])

lemma cache_Invalidate_db: "db (OrderCache_Invalidate (env_red env) oc c i w) = db w"
  by (auto simp: OrderCache_Invalidate_def intro: redis_del_keeps prod.collapse [symmetric])

text \<open>The two ways \<open>Get\<close> can go: a hit in the cache, or the database followed by a write to the cache.\<close>

lemma Get_cases:
  assumes "OrderRepository_Get env r c i w = (res, w')"
  obtains (hit) order where "OrderRepository_rdb r \<noteq> None" "res = Inr (Some order)"
      "cached (env_js env) (kv w) i order" "db w' = db w" "kv w' \<subseteq>\<^sub>m kv w"
  | (read) w1 w2 where "db w1 = db w" "kv w1 \<subseteq>\<^sub>m kv w"
      "OrderRepository_getFromDB env r c i w1 = (res, w2)"
      "w' = (case res of Inr (Some order) \<Rightarrow>
               (if OrderRepository_rdb r \<noteq> None
                then snd (OrderCache_Set (env_red env) (env_js env) (OrderRepository_cache r) c order w2) else w2)
             | _ \<Rightarrow> w2)"
proof -
  obtain g w1 where g: "OrderCache_Get (env_red env) (env_js env) (OrderRepository_cache r) c i w = (g, w1)" by fastforce
  note gk = cache_Get_db [OF g] ch.cache_Get_keeps [OF g]
  show ?thesis
  proof (cases "OrderRepository_rdb r \<noteq> None \<and> (\<exists>order. g = Inr (Some order))")
    case True
    then obtain order where o: "g = Inr (Some order)" "OrderRepository_rdb r \<noteq> None" by blast
    with assms g have "res = Inr (Some order)" "w' = w1" by (auto simp: OrderRepository_Get_def)
    with hit o gk ch.cache_Get_hit [OF g [unfolded o]] show ?thesis by blast
  next
    case False
    define w0 where "w0 = (if OrderRepository_rdb r \<noteq> None then w1 else w)"
    obtain q w2 where q: "OrderRepository_getFromDB env r c i w0 = (q, w2)" by fastforce
    have "(if OrderRepository_rdb r \<noteq> None
            then (case OrderCache_Get (env_red env) (env_js env) (OrderRepository_cache r) c i w of
                    (Inr (Some order), w') \<Rightarrow> (Some order, w')
                  | (_, w') \<Rightarrow> (None, w'))
            else (None, w)) = (None, w0)"
      using False g by (auto simp: w0_def split: sum.splits option.splits)
    with assms q have "res = q" "w' = (case q of Inr (Some order) \<Rightarrow>
               (if OrderRepository_rdb r \<noteq> None
                then snd (OrderCache_Set (env_red env) (env_js env) (OrderRepository_cache r) c order w2) else w2)
             | _ \<Rightarrow> w2)"
      by (cases q; auto simp: OrderRepository_Get_def split: option.splits)+
    with read [of w0 w2] q gk show ?thesis by (simp add: w0_def split: if_splits)
  qed
qed

lemma Get_keeps:
  assumes "OrderRepository_Get env r c i w = (res, w')"
  shows "db w' = db w"
  using assms
proof (cases rule: Get_cases)
  case (read w1 w2)
  with getFromDB_keeps [OF read(3)] show ?thesis
    by (simp add: cache_Set_db split: sum.split option.split)
qed simp

lemma Get_None:
  assumes "OrderRepository_Get env r c i w = (Inr None, w')"
  shows "\<exists>u. uuid_in i = Some u \<and> od_orders (db w) u = None"
  using assms
proof (cases rule: Get_cases)
  case (read w1 w2)
  with getFromDB_None [OF read(3)] show ?thesis by simp
qed simp

lemma Get_Some:
  assumes "OrderRepository_Get env r c i w = (Inr (Some order), w')"
    and "coherent lossy (env_js env) uuid_in (db w) (kv w)"
  shows "shows_order lossy uuid_in (db w) i order"
  using assms(1)
proof (cases rule: Get_cases)
  case (hit o')
  with assms(2) show ?thesis by (auto simp: coherent_def)
next
  case (read w1 w2)
  with getFromDB_Some [OF read(3)] show ?thesis by simp
qed

text \<open>Without Redis, every read is a read of the database.\<close>

lemma Get_Some_uncached:
  assumes "OrderRepository_Get env r c i w = (Inr (Some order), w')" "OrderRepository_rdb r = None"
  shows "shows_order lossy uuid_in (db w) i order"
  using assms(1)
proof (cases rule: Get_cases)
  case (read w1 w2)
  with getFromDB_Some [OF read(3)] show ?thesis by simp
qed (use assms(2) in simp)

text \<open>What can be seen in the cache after a \<open>Get\<close>: what could be seen before, and what it returned.\<close>

lemma Get_cached:
  assumes "OrderRepository_Get env r c i w = (res, w')" "cached (env_js env) (kv w') j order"
  shows "cached (env_js env) (kv w) j order \<or> (j = i \<and> shows_order lossy uuid_in (db w) i order)"
  using assms(1)
proof (cases rule: Get_cases)
  case (hit o')
  with assms(2) ch.cached_mono show ?thesis by blast
next
  case (read w1 w2)
  have w2: "cached (env_js env) (kv w) j order" if "cached (env_js env) (kv w2) j order"
    using getFromDB_kv [of r c i w1] read(2,3) that ch.cached_mono map_le_trans by (metis snd_conv)
  show ?thesis
  proof (cases "OrderRepository_rdb r \<noteq> None \<and> (\<exists>o'. res = Inr (Some o'))")
    case True
    then obtain o' where o': "res = Inr (Some o')" "OrderRepository_rdb r \<noteq> None" by blast
    note s = getFromDB_Some [OF read(3) [unfolded o'(1)]]
    from read(4) o' have "OrderCache_Set (env_red env) (env_js env) (OrderRepository_cache r) c o' w2 =
      (fst (OrderCache_Set (env_red env) (env_js env) (OrderRepository_cache r) c o' w2), w')" by simp
    from ch.cache_Set_effect [OF this shows_order_no_nil [OF s] assms(2)] w2 s read(1) shows_order_id [OF s]
    show ?thesis by auto
  next
    case False
    with read(4) have "w' = w2" by (auto split: sum.splits option.splits)
    with w2 assms(2) show ?thesis by blast
  qed
qed

lemma Get_coherent:
  assumes "OrderRepository_Get env r c i w = (res, w')"
    and "coherent lossy (env_js env) uuid_in (db w) (kv w)"
  shows "coherent lossy (env_js env) uuid_in (db w') (kv w')"
  using assms(2) Get_cached [OF assms(1)] unfolding coherent_def Get_keeps [OF assms(1)] by blast

lemma Get_canonical:
  assumes "OrderRepository_Get env r c i w = (res, w')" "uuid_in i = None \<or> uuid_in i = Some i"
    and "canonical_cache (env_js env) uuid_in (kv w)"
  shows "canonical_cache (env_js env) uuid_in (kv w')"
  using assms(2,3) Get_cached [OF assms(1)] unfolding canonical_cache_def shows_order_def by fastforce

text \<open>
  The ways \<open>Cancel\<close> can go: the statement fails, nothing matches, or the order is cancelled, its
  cache entry is invalidated and it is read back.
\<close>

lemma Cancel_cases:
  assumes "OrderRepository_Cancel env r c i w = (res, w')"
  obtains (failed) err where "res = Inl (''cancel order: '' @ err)" "kv w' \<subseteq>\<^sub>m kv w"
      "pool_QueryRow (env_drv env) (OrderRepository_getPool r) (OrderRepository_queryTimeout c) sql_cancel_order [SStr i] w =
         (Inl err, w')" "err \<noteq> no_rows"
  | (missing) u where "res = Inr None" "kv w' \<subseteq>\<^sub>m kv w" "db w' = db w" "uuid_in i = Some u" "od_orders (db w) u = None"
  | (cancelled) u row w1 w2 where "uuid_in i = Some u" "od_orders (db w) u = Some row"
      "db w1 = order_cancelled u (db w)" "kv w1 \<subseteq>\<^sub>m kv w"
      "w2 = (if OrderRepository_rdb r \<noteq> None
             then OrderCache_Invalidate (env_red env) (OrderRepository_cache r) c i w1 else w1)"
      "db w2 = order_cancelled u (db w)" "OrderRepository_getFromDB env r c i w2 = (res, w')"
proof -
  obtain q w1 where q: "pool_QueryRow (env_drv env) (OrderRepository_getPool r) (OrderRepository_queryTimeout c)
      sql_cancel_order [SStr i] w = (q, w1)" by fastforce
  have kv: "kv w1 \<subseteq>\<^sub>m kv w"
    using query_row_kv [of "OrderRepository_getPool r" "OrderRepository_queryTimeout c" sql_cancel_order "[SStr i]" w] q by simp
  show ?thesis
  proof (cases q)
    case (Inl err)
    with assms q have "w' = w1" "res = (if err = no_rows then Inr None else Inl (''cancel order: '' @ err))"
      by (cases "err = no_rows"; simp add: OrderRepository_Cancel_def)+
    with kv Inl q failed missing pg.cancel_none [of "OrderRepository_getPool r" "OrderRepository_queryTimeout c" i w w1]
    show ?thesis by (cases "err = no_rows") auto
  next
    case (Inr rw)
    from pg.cancel_row [OF q [unfolded Inr]] obtain u row where
      u: "uuid_in i = Some u" "od_orders (db w) u = Some row" "rw = [SStr ''CANCELLED'']" "db w1 = order_cancelled u (db w)"
      by blast
    define w2 where "w2 = (if OrderRepository_rdb r \<noteq> None
      then OrderCache_Invalidate (env_red env) (OrderRepository_cache r) c i w1 else w1)"
    from assms q Inr u have "OrderRepository_getFromDB env r c i w2 = (res, w')"
      by (simp add: OrderRepository_Cancel_def w2_def)
    with cancelled [OF u(1,2,4) kv w2_def] u(4) show ?thesis by (simp add: w2_def cache_Invalidate_db)
  qed
qed

lemma Cancel_Some:
  assumes "OrderRepository_Cancel env r c i w = (Inr (Some order), w')"
  shows "\<exists>u row. uuid_in i = Some u \<and> od_orders (db w) u = Some row \<and> db w' = order_cancelled u (db w) \<and>
    shows_order lossy uuid_in (db w') i order"
  using assms
proof (cases rule: Cancel_cases)
  case (cancelled u row w1 w2)
  with getFromDB_Some [OF cancelled(7)] getFromDB_keeps [OF cancelled(7)] show ?thesis by auto
qed simp_all

lemma Cancel_None:
  assumes "OrderRepository_Cancel env r c i w = (Inr None, w')"
  shows "db w' = db w \<and> (\<exists>u. uuid_in i = Some u \<and> od_orders (db w) u = None)"
  using assms
proof (cases rule: Cancel_cases)
  case (cancelled u row w1 w2)
  with getFromDB_None [OF cancelled(7)] show ?thesis by auto
qed simp_all

lemma Cancel_effect:
  assumes "OrderRepository_Cancel env r c i w = (res, w')"
  shows "db w' = db w \<or> (\<exists>u. uuid_in i = Some u \<and> db w' = order_cancelled u (db w))"
  using assms
proof (cases rule: Cancel_cases)
  case (failed err)
  with pg.cancel_error [OF failed(3)] show ?thesis by blast
next
  case (cancelled u row w1 w2)
  with getFromDB_keeps [OF cancelled(7)] show ?thesis by auto
qed simp

lemma Cancel_cached:
  assumes "OrderRepository_Cancel env r c i w = (res, w')" "cached (env_js env) (kv w') j order"
  shows "cached (env_js env) (kv w) j order"
  using assms(1)
proof (cases rule: Cancel_cases)
  case (cancelled u row w1 w2)
  have "cached (env_js env) (kv w2) j order"
    using getFromDB_kv [of r c i w2] cancelled(7) assms(2) ch.cached_mono by (metis snd_conv)
  with cancelled(4,5) ch.cached_mono ch.cache_Invalidate_keeps show ?thesis by (metis (full_types))
qed (use assms(2) ch.cached_mono in blast)+

lemma List_keeps:
  assumes "OrderRepository_List env r c a page pageSize w = (res, w')"
  shows "db w' = db w"
proof -
  obtain page' sz off where cl: "List_clamp page pageSize = (page', sz, off)" by (cases "List_clamp page pageSize")
  obtain cq cargs lq largs where cq: "List_countQuery a = (cq, cargs)" and lq: "List_listQuery a sz off = (lq, largs)"
    by fastforce
  from assms show ?thesis
    by (auto simp: OrderRepository_List_def cl cq lq Let_def split: prod.splits sum.splits option.splits
        dest!: pg.count_keeps [OF cq] pg.list_keeps [OF lq])
qed

lemma List_Inr:
  assumes run: "OrderRepository_List env r c a page pageSize w = (Inr (orders, n), w')"
    and clamp: "List_clamp page pageSize = (page', sz, off)"
  shows "db w' = db w \<and> finite (listed uuid_in a (db w)) \<and> sint n = int (card (listed uuid_in a (db w))) \<and>
    (sint off < 0 \<and> orders = [] \<or>
     0 \<le> sint off \<and> (\<exists>xs k. newest_first (listed uuid_in a (db w)) xs \<and>
       orders = map order_summary (take k (take (nat (sint sz)) (drop (nat (sint off)) xs))) \<and>
       (\<not> lossy \<longrightarrow> nat (sint sz) \<le> k)))"
proof -
  obtain cq cargs lq largs where cq: "List_countQuery a = (cq, cargs)" and lq: "List_listQuery a sz off = (lq, largs)"
    by fastforce
  let ?p = "OrderRepository_getPool r" and ?c = "OrderRepository_queryTimeout c"
  from run obtain rw w1 rows rerr where
    c: "pool_QueryRow (env_drv env) ?p ?c cq cargs w = (Inr rw, w1)" and n: "scan_count rw = Some n"
    and l: "pool_Query (env_drv env) ?p ?c lq largs w1 = (Inr (rows, rerr), w')"
    and o: "List_rows (env_drv env) rows = Inr orders"
    by (auto simp: OrderRepository_List_def clamp cq lq Let_def split: prod.splits sum.splits option.splits)
  note k = pg.count_keeps [OF cq c] pg.list_keeps [OF lq l]
  from pg.count_row [OF cq c] n have count: "a = '''' \<or> uuid_in a \<noteq> None"
    "finite (listed uuid_in a (db w))" "sint n = int (card (listed uuid_in a (db w)))" by auto
  have rejected: "rows = [] \<and> rerr \<noteq> None \<and> sint off < 0 \<or>
      0 \<le> sint off \<and> (\<exists>xs k. newest_first (listed uuid_in a (db w)) xs \<and>
        rows = map list_cols (take k (take (nat (sint sz)) (drop (nat (sint off)) xs))) \<and>
        (rerr = None \<longrightarrow> nat (sint sz) \<le> k) \<and> (\<not> lossy \<longrightarrow> rerr = None))"
    using pg.list_rows [OF lq l] k(1) count(1) List_clamp_size [OF clamp] by auto
  then show ?thesis
  proof (elim disjE conjE exE)
    assume "rows = []" "sint off < 0"
    then show ?thesis using count k o List_rows_cols [of _ "[]"] by simp
  next
    fix xs k
    assume "0 \<le> sint off" "newest_first (listed uuid_in a (db w)) xs"
      "rows = map list_cols (take k (take (nat (sint sz)) (drop (nat (sint off)) xs)))"
      "rerr = None \<longrightarrow> nat (sint sz) \<le> k" "\<not> lossy \<longrightarrow> rerr = None"
    then show ?thesis using count \<open>db w1 = db w\<close> \<open>db w' = db w1\<close> o by auto
  qed
qed

end

text \<open>
  A backend whose failures are clean: Redis carries out every \<open>DEL\<close>, and a failed UPDATE has left
  nothing behind.
\<close>

locale reliable_backend = order_backend +
  assumes del_ok: "fst (redis_Del (env_red env) rp c k w) = None"
    and cancel_atomic: "pool_QueryRow (env_drv env) p c sql_cancel_order [SStr i] w = (Inl err, w') \<Longrightarrow> db w' = db w"
begin

lemma Cancel_coherent:
  assumes run: "OrderRepository_Cancel env r c i w = (res, w')" and rdb: "OrderRepository_rdb r \<noteq> None"
    and canon: "uuid_in i = None \<or> uuid_in i = Some i" "canonical_cache (env_js env) uuid_in (kv w)"
    and coh: "coherent lossy (env_js env) uuid_in (db w) (kv w)"
  shows "coherent lossy (env_js env) uuid_in (db w') (kv w')"
  using run
proof (cases rule: Cancel_cases)
  case (failed err)
  with cancel_atomic [OF failed(3)] coh coherent_mono show ?thesis by simp
next
  case (missing u)
  with coh coherent_mono show ?thesis by simp
next
  case (cancelled u row w1 w2)
  from canon(1) cancelled(1) have u: "u = i" by simp
  show ?thesis unfolding coherent_def
  proof (intro allI impI)
    fix j order assume j: "cached (env_js env) (kv w') j order"
    have "cached (env_js env) (kv w2) j order"
      using getFromDB_kv [of r c i w2] cancelled(7) j ch.cached_mono by (metis snd_conv)
    then have "j \<noteq> i" using ch.cache_Invalidate_done [OF del_ok] cancelled(5) rdb by auto
    from Cancel_cached [OF run j] coh canon(2) have
      s: "shows_order lossy uuid_in (db w) j order" "uuid_in j = Some j"
      by (auto simp: coherent_def canonical_cache_def)
    have "db w' = order_cancelled i (db w)" using getFromDB_keeps [OF cancelled(7)] cancelled(6) u by simp
    with shows_order_frame [OF s] \<open>j \<noteq> i\<close> show "shows_order lossy uuid_in (db w') j order" by simp
  qed
qed

end

end
