(* ===== verification/UserClient.thy ===== *)
theory UserClient
  imports Proto
begin

text \<open>
  \<open>src/services/order-service/client.go\<close>: the order service's client of the user service. The
  connection and \<open>codes.Code.String\<close> belong to grpc-go and are parameters.
\<close>

section \<open>Errors of a call\<close>

text \<open>
  An error of a remote call: one that carries a status (\<open>status.FromError\<close> gives it back), or any
  other error.
\<close>

datatype rpc_error = StatusErr status | OtherErr go_error

record 'w user_conn =
  rpc_GetUser :: "ctx \<Rightarrow> GetUserRequest \<Rightarrow> 'w \<Rightarrow> (rpc_error + GetUserResponse) \<times> 'w"
  code_String :: "code \<Rightarrow> string"
  rpc_error_text :: "rpc_error \<Rightarrow> string"

definition status_FromError :: "rpc_error \<Rightarrow> status option" where
  "status_FromError err = (case err of StatusErr st \<Rightarrow> Some st | OtherErr _ \<Rightarrow> None)"

section \<open>The client\<close>

definition UserClient_GetUser ::
  "'w user_conn \<Rightarrow> ctx \<Rightarrow> string \<Rightarrow> 'w \<Rightarrow> (go_error + User option) \<times> 'w" where
  "UserClient_GetUser conn c i w =
     (case rpc_GetUser conn c \<lparr>GetUserRequest_Id = i\<rparr> w of
        (Inl err, w') \<Rightarrow>
          (case status_FromError err of
             Some st \<Rightarrow>
               (if code_String conn (status_code st) = ''NotFound'' then (Inr None, w')
                else (Inl (''get user: '' @ rpc_error_text conn err), w'))
           | None \<Rightarrow> (Inl (''get user: '' @ rpc_error_text conn err), w'))
      | (Inr resp, w') \<Rightarrow> (Inr (GetUserResponse_User resp), w'))"

text \<open>What the client relies on: only the code NotFound prints as \<open>NotFound\<close>.\<close>

locale code_names =
  fixes conn :: "'w user_conn"
  assumes code_String_NotFound: "code_String conn cd = ''NotFound'' \<longleftrightarrow> cd = NotFound"
begin

lemma UserClient_GetUser_cases:
  "UserClient_GetUser conn c i w =
     (case rpc_GetUser conn c \<lparr>GetUserRequest_Id = i\<rparr> w of
        (Inr resp, w') \<Rightarrow> (Inr (GetUserResponse_User resp), w')
      | (Inl (StatusErr (Status NotFound msg)), w') \<Rightarrow> (Inr None, w')
      | (Inl err, w') \<Rightarrow> (Inl (''get user: '' @ rpc_error_text conn err), w'))"
  by (auto simp: UserClient_GetUser_def status_FromError_def code_String_NotFound
      split: prod.splits sum.splits rpc_error.splits status.splits code.splits)

end

end
