(* ===== verification/OrderService.thy ===== *)
theory OrderService
  imports OrderStore UserClient
begin

text \<open>
  \<open>src/services/order-service/server.go\<close>: the four handlers of the order service, over the order
  repository and the client of the user service, and their abstract specification \<open>order_spec\<close>. The
  locales \<open>order_world\<close> and \<open>order_system\<close> add the connection to the user service to the backend; the
  handlers refine the specification in \<open>order_system\<close>, and keep the cache coherent.
\<close>

section \<open>Handlers\<close>

record OrderServiceServer =
  OrderServiceServer_repo :: OrderRepository

definition NewOrderServiceServer :: "OrderRepository \<Rightarrow> OrderServiceServer" where
  "NewOrderServiceServer repo = \<lparr>OrderServiceServer_repo = repo\<rparr>"

text \<open>The validation loop over the items, from index \<open>i\<close>; a nil item is a nil dereference.\<close>

fun CreateOrder_items :: "nat \<Rightarrow> OrderItem option list \<Rightarrow> status option outcome" where
  "CreateOrder_items i [] = Done None"
| "CreateOrder_items i (None # items) = Panicked"
| "CreateOrder_items i (Some item # items) =
     (if OrderItem_ProductId item = '''' then
        Done (Some (Status InvalidArgument (''items['' @ dec_nat i @ ''].product_id is required'')))
      else if sint (OrderItem_Quantity item) \<le> 0 then
        Done (Some (Status InvalidArgument (''items['' @ dec_nat i @ ''].quantity must be positive'')))
      else if flt (OrderItem_UnitPrice item) fzero then
        Done (Some (Status InvalidArgument (''items['' @ dec_nat i @ ''].unit_price must be non-negative'')))
      else CreateOrder_items (i + 1) items)"

definition CreateOrder ::
  "'w order_env \<Rightarrow> 'w user_conn \<Rightarrow> OrderServiceServer \<Rightarrow> ctx \<Rightarrow> CreateOrderRequest \<Rightarrow> 'w \<Rightarrow>
   (status + CreateOrderResponse) outcome \<times> 'w" where
  "CreateOrder env conn s c req w =
     (let userId = TrimSpace (CreateOrderRequest_UserId req); items = CreateOrderRequest_Items req in
      if userId = '''' then (Done (Inl (Status InvalidArgument ''user_id is required'')), w)
      else if length items = 0 then (Done (Inl (Status InvalidArgument ''at least one item is required'')), w)
      else case CreateOrder_items 0 items of
        Panicked \<Rightarrow> (Panicked, w)
      | Done (Some st) \<Rightarrow> (Done (Inl st), w)
      | Done None \<Rightarrow>
          (case UserClient_GetUser conn c userId w of
             (Inl err, w1) \<Rightarrow> (Done (Inl (Status Internal ''failed to verify user'')), w1)
           | (Inr None, w1) \<Rightarrow> (Done (Inl (Status NotFound ''user not found'')), w1)
           | (Inr (Some user), w1) \<Rightarrow>
               (case OrderRepository_Create env (OrderServiceServer_repo s) c userId items w1 of
                  (Panicked, w2) \<Rightarrow> (Panicked, w2)
                | (Done (Inl err), w2) \<Rightarrow> (Done (Inl (Status Internal ''failed to create order'')), w2)
                | (Done (Inr order), w2) \<Rightarrow> (Done (Inr \<lparr>CreateOrderResponse_Order = Some order\<rparr>), w2))))"

definition GetOrder ::
  "'w order_env \<Rightarrow> OrderServiceServer \<Rightarrow> ctx \<Rightarrow> GetOrderRequest \<Rightarrow> 'w \<Rightarrow> (status + GetOrderResponse) \<times> 'w" where
  "GetOrder env s c req w =
     (if GetOrderRequest_Id req = '''' then (Inl (Status InvalidArgument ''id is required''), w)
      else case OrderRepository_Get env (OrderServiceServer_repo s) c (GetOrderRequest_Id req) w of
        (Inl err, w') \<Rightarrow> (Inl (Status Internal ''failed to get order''), w')
      | (Inr None, w') \<Rightarrow> (Inl (Status NotFound ''order not found''), w')
      | (Inr (Some order), w') \<Rightarrow> (Inr \<lparr>GetOrderResponse_Order = Some order\<rparr>, w'))"

text \<open>The page and page size that the handler passes on.\<close>

definition ListOrders_page :: "ListOrdersRequest \<Rightarrow> int32 \<times> int32" where
  "ListOrders_page req =
     (case ListOrdersRequest_Pagination req of
        None \<Rightarrow> (1, 20)
      | Some p \<Rightarrow> (if 0 < sint (Pagination_Page p) then Pagination_Page p else 1,
                    if 0 < sint (Pagination_PageSize p) then Pagination_PageSize p else 20))"

definition ListOrders ::
  "'w order_env \<Rightarrow> OrderServiceServer \<Rightarrow> ctx \<Rightarrow> ListOrdersRequest \<Rightarrow> 'w \<Rightarrow> (status + ListOrdersResponse) \<times> 'w" where
  "ListOrders env s c req w =
     (case ListOrders_page req of (page, pageSize) \<Rightarrow>
      (case OrderRepository_List env (OrderServiceServer_repo s) c (ListOrdersRequest_UserId req) page pageSize w of
         (Inl err, w') \<Rightarrow> (Inl (Status Internal ''failed to list orders''), w')
       | (Inr (orders, tot), w') \<Rightarrow>
           (let hasMore = sint (page * pageSize) < sint tot in
            (Inr \<lparr>ListOrdersResponse_Orders = orders,
                  ListOrdersResponse_Pagination =
                    Some \<lparr>PaginationResponse_TotalCount = tot, PaginationResponse_HasMore = hasMore\<rparr>\<rparr>, w'))))"

definition CancelOrder ::
  "'w order_env \<Rightarrow> OrderServiceServer \<Rightarrow> ctx \<Rightarrow> CancelOrderRequest \<Rightarrow> 'w \<Rightarrow> (status + CancelOrderResponse) \<times> 'w" where
  "CancelOrder env s c req w =
     (if CancelOrderRequest_Id req = '''' then (Inl (Status InvalidArgument ''id is required''), w)
      else case OrderRepository_Cancel env (OrderServiceServer_repo s) c (CancelOrderRequest_Id req) w of
        (Inl err, w') \<Rightarrow> (Inl (Status Internal ''failed to cancel order''), w')
      | (Inr None, w') \<Rightarrow> (Inl (Status NotFound ''order not found''), w')
      | (Inr (Some order), w') \<Rightarrow> (Inr \<lparr>CancelOrderResponse_Order = Some order\<rparr>, w'))"

datatype order_call = CallCreateOrder CreateOrderRequest | CallGetOrder GetOrderRequest
  | CallListOrders ListOrdersRequest | CallCancelOrder CancelOrderRequest

datatype order_reply = ReplyCreateOrder CreateOrderResponse | ReplyGetOrder GetOrderResponse
  | ReplyListOrders ListOrdersResponse | ReplyCancelOrder CancelOrderResponse

fun OrderService_dispatch ::
  "'w order_env \<Rightarrow> 'w user_conn \<Rightarrow> OrderServiceServer \<Rightarrow> ctx \<Rightarrow> order_call \<Rightarrow> 'w \<Rightarrow>
   (status + order_reply) outcome \<times> 'w" where
  "OrderService_dispatch env conn s c (CallCreateOrder req) w =
     apfst (map_outcome (map_sum id ReplyCreateOrder)) (CreateOrder env conn s c req w)"
| "OrderService_dispatch env conn s c (CallGetOrder req) w =
     apfst (\<lambda>x. Done (map_sum id ReplyGetOrder x)) (GetOrder env s c req w)"
| "OrderService_dispatch env conn s c (CallListOrders req) w =
     apfst (\<lambda>x. Done (map_sum id ReplyListOrders x)) (ListOrders env s c req w)"
| "OrderService_dispatch env conn s c (CallCancelOrder req) w =
     apfst (\<lambda>x. Done (map_sum id ReplyCancelOrder x)) (CancelOrder env s c req w)"

section \<open>Validation of an order\<close>

definition item_error :: "OrderItem \<Rightarrow> string option" where
  "item_error item =
     (if OrderItem_ProductId item = '''' then Some ''product_id is required''
      else if sint (OrderItem_Quantity item) \<le> 0 then Some ''quantity must be positive''
      else if flt (OrderItem_UnitPrice item) fzero then Some ''unit_price must be non-negative''
      else None)"

definition valid_order :: "CreateOrderRequest \<Rightarrow> bool" where
  "valid_order req \<longleftrightarrow> TrimSpace (CreateOrderRequest_UserId req) \<noteq> [] \<and> CreateOrderRequest_Items req \<noteq> [] \<and>
     (\<exists>its. CreateOrderRequest_Items req = map Some its \<and> (\<forall>it \<in> set its. item_error it = None))"

lemma CreateOrder_items_eq:
  "CreateOrder_items i (Some item # items) =
     (case item_error item of
        Some msg \<Rightarrow> Done (Some (Status InvalidArgument (''items['' @ dec_nat i @ ''].'' @ msg)))
      | None \<Rightarrow> CreateOrder_items (i + 1) items)"
  by (simp add: item_error_def)

lemma CreateOrder_items_None:
  "CreateOrder_items i items = Done None \<longleftrightarrow> (\<exists>its. items = map Some its \<and> (\<forall>it \<in> set its. item_error it = None))"
proof (induction items arbitrary: i)
  case (Cons a items)
  show ?case
  proof (cases a)
    case (Some it)
    have "(\<exists>its. a # items = map Some its \<and> (\<forall>it \<in> set its. item_error it = None)) \<longleftrightarrow>
        item_error it = None \<and> (\<exists>its. items = map Some its \<and> (\<forall>it \<in> set its. item_error it = None))"
      unfolding Some by (auto simp: Cons_eq_map_conv)
    with Cons.IH [of "i + 1"] Some show ?thesis
      by (simp only: CreateOrder_items_eq) (cases "item_error it"; simp)
  qed auto
qed simp

text \<open>The items before the first wrong one are passed over; the status names its index.\<close>

lemma CreateOrder_items_skip:
  "\<forall>it \<in> set its. item_error it = None \<Longrightarrow>
   CreateOrder_items i (map Some its @ items) = CreateOrder_items (i + length its) items"
proof (induction its arbitrary: i)
  case (Cons it its)
  then have "CreateOrder_items i (Some it # (map Some its @ items)) = CreateOrder_items (i + 1) (map Some its @ items)"
    by (simp only: CreateOrder_items_eq) simp
  with Cons show ?case by simp
qed simp

lemma CreateOrder_items_bad:
  assumes "\<forall>it \<in> set its. item_error it = None" "item_error it = Some msg"
  shows "CreateOrder_items i (map Some its @ Some it # items) =
    Done (Some (Status InvalidArgument (''items['' @ dec_nat (i + length its) @ ''].'' @ msg)))"
  using assms(2) by (simp only: CreateOrder_items_skip [OF assms(1)] CreateOrder_items_eq option.case)

lemma CreateOrder_items_code:
  "CreateOrder_items i items = Done (Some st) \<Longrightarrow> status_code st = InvalidArgument"
  by (induction i items rule: CreateOrder_items.induct) (auto split: if_splits)

lemma CreateOrder_items_Panicked: "CreateOrder_items i items = Panicked \<Longrightarrow> None \<in> set items"
  by (induction i items rule: CreateOrder_items.induct) (auto split: if_splits)

text \<open>A request that fails validation touches nothing; a valid one goes on to the user service.\<close>

lemma CreateOrder_invalid:
  assumes "\<not> valid_order req"
  shows "(\<exists>msg. CreateOrder env conn s c req w = (Done (Inl (Status InvalidArgument msg)), w)) \<or>
    (None \<in> set (CreateOrderRequest_Items req) \<and> CreateOrder env conn s c req w = (Panicked, w))"
proof (cases "TrimSpace (CreateOrderRequest_UserId req) = [] \<or> CreateOrderRequest_Items req = []")
  case True
  then show ?thesis by (auto simp: CreateOrder_def Let_def)
next
  case False
  show ?thesis
  proof (cases "CreateOrder_items 0 (CreateOrderRequest_Items req)")
    case Panicked
    with False CreateOrder_items_Panicked [OF Panicked] show ?thesis by (simp add: CreateOrder_def)
  next
    case (Done e)
    with False assms obtain st where e: "CreateOrder_items 0 (CreateOrderRequest_Items req) = Done (Some st)"
      unfolding valid_order_def CreateOrder_items_None [of 0, symmetric] by (cases e) auto
    moreover obtain msg where "st = Status InvalidArgument msg" using CreateOrder_items_code [OF e] by (cases st) simp
    ultimately show ?thesis using False by (simp add: CreateOrder_def)
  qed
qed

lemma CreateOrder_valid:
  assumes "valid_order req"
  shows "CreateOrder env conn s c req w =
    (case UserClient_GetUser conn c (TrimSpace (CreateOrderRequest_UserId req)) w of
       (Inl err, w1) \<Rightarrow> (Done (Inl (Status Internal ''failed to verify user'')), w1)
     | (Inr None, w1) \<Rightarrow> (Done (Inl (Status NotFound ''user not found'')), w1)
     | (Inr (Some user), w1) \<Rightarrow>
         (case OrderRepository_Create env (OrderServiceServer_repo s) c (TrimSpace (CreateOrderRequest_UserId req))
                 (CreateOrderRequest_Items req) w1 of
            (Panicked, w2) \<Rightarrow> (Panicked, w2)
          | (Done (Inl err), w2) \<Rightarrow> (Done (Inl (Status Internal ''failed to create order'')), w2)
          | (Done (Inr order), w2) \<Rightarrow> (Done (Inr \<lparr>CreateOrderResponse_Order = Some order\<rparr>), w2)))"
proof -
  from assms have "TrimSpace (CreateOrderRequest_UserId req) \<noteq> []" "length (CreateOrderRequest_Items req) \<noteq> 0"
    "CreateOrder_items 0 (CreateOrderRequest_Items req) = Done None"
    unfolding valid_order_def CreateOrder_items_None by auto
  then show ?thesis unfolding CreateOrder_def Let_def by (simp only: if_False outcome.case option.case)
qed

section \<open>The abstract service\<close>

definition created_order :: "string \<Rightarrow> string \<Rightarrow> OrderItem list \<Rightarrow> time \<Rightarrow> Order" where
  "created_order i userID its t =
     \<lparr>Order_Id = i, Order_UserId = userID, Order_Items = map Some its, Order_Total = order_total its,
      Order_Status = ORDER_STATUS_PENDING, Order_CreatedAt = Some (timestamppb_New t)\<rparr>"

text \<open>
  The page that a listing request asks for: a page size of at most 100 is honoured, any other one
  becomes 20.
\<close>

definition page_of :: "ListOrdersRequest \<Rightarrow> 'a list \<Rightarrow> 'a list" where
  "page_of req xs =
     (case ListOrders_page req of (page, pageSize) \<Rightarrow>
      (case List_clamp page pageSize of (page', sz, off) \<Rightarrow> take (nat (sint sz)) (drop (nat (sint off)) xs)))"

definition page_offset :: "ListOrdersRequest \<Rightarrow> int" where
  "page_offset req =
     (case ListOrders_page req of (page, pageSize) \<Rightarrow>
      (case List_clamp page pageSize of (page', sz, off) \<Rightarrow> sint off))"

definition has_more :: "ListOrdersRequest \<Rightarrow> nat \<Rightarrow> bool" where
  "has_more req n = (case ListOrders_page req of (page, pageSize) \<Rightarrow> sint (page * pageSize) < int n)"

text \<open>
  What a call may answer, and what it may leave in the store, when the store held \<open>d\<close>. Panics occur
  for nil items only, before anything is written. The offset of a page is computed in 32 bits; where it
  wraps around to a negative one, PostgreSQL rejects the query, but the rejection is the error of the
  row stream, which nobody looks at: the answer is an empty page (\<open>list_rejected\<close>).
\<close>

inductive order_spec ::
  "bool \<Rightarrow> (string \<Rightarrow> string option) \<Rightarrow> (float64 \<Rightarrow> float64 option) \<Rightarrow> orders_db \<Rightarrow> order_call \<Rightarrow>
   (status + order_reply) outcome \<Rightarrow> orders_db \<Rightarrow> bool"
  for lossy uuid_in numeric d where
  create_invalid: "\<not> valid_order req \<Longrightarrow> status_code st = InvalidArgument \<Longrightarrow>
    order_spec lossy uuid_in numeric d (CallCreateOrder req) (Done (Inl st)) d"
| create_nil: "None \<in> set (CreateOrderRequest_Items req) \<Longrightarrow>
    order_spec lossy uuid_in numeric d (CallCreateOrder req) Panicked d"
| create_unverified: "valid_order req \<Longrightarrow>
    order_spec lossy uuid_in numeric d (CallCreateOrder req) (Done (Inl (Status Internal ''failed to verify user''))) d"
| create_no_user: "valid_order req \<Longrightarrow>
    order_spec lossy uuid_in numeric d (CallCreateOrder req) (Done (Inl (Status NotFound ''user not found''))) d"
| create_failed: "valid_order req \<Longrightarrow>
    d' = d \<or> (\<exists>i its t. CreateOrderRequest_Items req = map Some its \<and>
       order_created uuid_in numeric i (TrimSpace (CreateOrderRequest_UserId req)) its t d d') \<Longrightarrow>
    order_spec lossy uuid_in numeric d (CallCreateOrder req) (Done (Inl (Status Internal ''failed to create order''))) d'"
| create_ok: "valid_order req \<Longrightarrow> CreateOrderRequest_Items req = map Some its \<Longrightarrow>
    order_created uuid_in numeric i (TrimSpace (CreateOrderRequest_UserId req)) its t d d' \<Longrightarrow>
    order_spec lossy uuid_in numeric d (CallCreateOrder req)
      (Done (Inr (ReplyCreateOrder \<lparr>CreateOrderResponse_Order =
         Some (created_order i (TrimSpace (CreateOrderRequest_UserId req)) its t)\<rparr>))) d'"
| get_no_id: "GetOrderRequest_Id req = '''' \<Longrightarrow>
    order_spec lossy uuid_in numeric d (CallGetOrder req) (Done (Inl (Status InvalidArgument ''id is required''))) d"
| get_failed: "GetOrderRequest_Id req \<noteq> '''' \<Longrightarrow>
    order_spec lossy uuid_in numeric d (CallGetOrder req) (Done (Inl (Status Internal ''failed to get order''))) d"
| get_missing: "GetOrderRequest_Id req \<noteq> '''' \<Longrightarrow> uuid_in (GetOrderRequest_Id req) = Some u \<Longrightarrow> od_orders d u = None \<Longrightarrow>
    order_spec lossy uuid_in numeric d (CallGetOrder req) (Done (Inl (Status NotFound ''order not found''))) d"
| get_ok: "GetOrderRequest_Id req \<noteq> '''' \<Longrightarrow> shows_order lossy uuid_in d (GetOrderRequest_Id req) order \<Longrightarrow>
    order_spec lossy uuid_in numeric d (CallGetOrder req)
      (Done (Inr (ReplyGetOrder \<lparr>GetOrderResponse_Order = Some order\<rparr>))) d"
| list_failed: "order_spec lossy uuid_in numeric d (CallListOrders req) (Done (Inl (Status Internal ''failed to list orders''))) d"
| list_rejected: "page_offset req < 0 \<Longrightarrow> finite (listed uuid_in (ListOrdersRequest_UserId req) d) \<Longrightarrow>
    m = card (listed uuid_in (ListOrdersRequest_UserId req) d) \<Longrightarrow> sint n = int m \<Longrightarrow>
    order_spec lossy uuid_in numeric d (CallListOrders req)
      (Done (Inr (ReplyListOrders \<lparr>ListOrdersResponse_Orders = [],
         ListOrdersResponse_Pagination = Some \<lparr>PaginationResponse_TotalCount = n,
           PaginationResponse_HasMore = has_more req m\<rparr>\<rparr>))) d"
| list_ok: "0 \<le> page_offset req \<Longrightarrow> newest_first (listed uuid_in (ListOrdersRequest_UserId req) d) xs \<Longrightarrow>
    (lossy \<and> prefix orders (map order_summary (page_of req xs))) \<or> orders = map order_summary (page_of req xs) \<Longrightarrow>
    sint n = int (length xs) \<Longrightarrow>
    order_spec lossy uuid_in numeric d (CallListOrders req)
      (Done (Inr (ReplyListOrders \<lparr>ListOrdersResponse_Orders = orders,
         ListOrdersResponse_Pagination = Some \<lparr>PaginationResponse_TotalCount = n,
           PaginationResponse_HasMore = has_more req (length xs)\<rparr>\<rparr>))) d"
| cancel_no_id: "CancelOrderRequest_Id req = '''' \<Longrightarrow>
    order_spec lossy uuid_in numeric d (CallCancelOrder req) (Done (Inl (Status InvalidArgument ''id is required''))) d"
| cancel_failed: "CancelOrderRequest_Id req \<noteq> '''' \<Longrightarrow>
    d' = d \<or> (\<exists>u. uuid_in (CancelOrderRequest_Id req) = Some u \<and> d' = order_cancelled u d) \<Longrightarrow>
    order_spec lossy uuid_in numeric d (CallCancelOrder req) (Done (Inl (Status Internal ''failed to cancel order''))) d'"
| cancel_missing: "CancelOrderRequest_Id req \<noteq> '''' \<Longrightarrow>
    uuid_in (CancelOrderRequest_Id req) = Some u \<Longrightarrow> od_orders d u = None \<Longrightarrow>
    order_spec lossy uuid_in numeric d (CallCancelOrder req) (Done (Inl (Status NotFound ''order not found''))) d"
| cancel_ok: "CancelOrderRequest_Id req \<noteq> '''' \<Longrightarrow>
    uuid_in (CancelOrderRequest_Id req) = Some u \<Longrightarrow> od_orders d u \<noteq> None \<Longrightarrow> d' = order_cancelled u d \<Longrightarrow>
    shows_order lossy uuid_in d' (CancelOrderRequest_Id req) order \<Longrightarrow>
    order_spec lossy uuid_in numeric d (CallCancelOrder req)
      (Done (Inr (ReplyCancelOrder \<lparr>CancelOrderResponse_Order = Some order\<rparr>))) d'"

inductive_cases order_spec_createE: "order_spec lossy uuid_in numeric d (CallCreateOrder req) reply d'"
inductive_cases order_spec_getE: "order_spec lossy uuid_in numeric d (CallGetOrder req) reply d'"
inductive_cases order_spec_listE: "order_spec lossy uuid_in numeric d (CallListOrders req) reply d'"
inductive_cases order_spec_cancelE: "order_spec lossy uuid_in numeric d (CallCancelOrder req) reply d'"

section \<open>The connection to the user service\<close>

text \<open>A call to the user service touches neither the orders nor the cache; entries may expire meanwhile.\<close>

locale order_world = order_backend env uuid_in numeric db pend lossy kv
  for env :: "'w order_env" and uuid_in numeric db pend lossy kv +
  fixes conn :: "'w user_conn"
  assumes rpc_db: "db (snd (rpc_GetUser conn c req w)) = db w"
    and rpc_kv: "kv (snd (rpc_GetUser conn c req w)) \<subseteq>\<^sub>m kv w"
begin

lemma UserClient_world:
  assumes "UserClient_GetUser conn c i w = (res, w')"
  shows "db w' = db w \<and> kv w' \<subseteq>\<^sub>m kv w"
proof -
  have "w' = snd (rpc_GetUser conn c \<lparr>GetUserRequest_Id = i\<rparr> w)"
    using assms by (auto simp: UserClient_GetUser_def split: prod.splits sum.splits option.splits if_splits)
  then show ?thesis using rpc_db rpc_kv by simp
qed

lemma CreateOrder_refines:
  assumes run: "CreateOrder env conn s c req w = (res, w')"
  shows "order_spec lossy uuid_in numeric (db w) (CallCreateOrder req) (map_outcome (map_sum id ReplyCreateOrder) res) (db w')"
proof (cases "valid_order req")
  case False
  from CreateOrder_invalid [OF False, of env conn s c w] run False show ?thesis
    by (auto intro!: order_spec.create_invalid order_spec.create_nil)
next
  case True
  let ?u = "TrimSpace (CreateOrderRequest_UserId req)" and ?items = "CreateOrderRequest_Items req"
  note run = run [unfolded CreateOrder_valid [OF True]]
  obtain q w1 where q: "UserClient_GetUser conn c ?u w = (q, w1)" by fastforce
  note k = UserClient_world [OF q]
  show ?thesis
  proof (cases q rule: sum_option_cases)
    case err
    with run q True k show ?thesis by (auto intro: order_spec.create_unverified)
  next
    case none
    with run q True k show ?thesis by (auto intro: order_spec.create_no_user)
  next
    case user: (some user)
    obtain x w2 where x: "OrderRepository_Create env (OrderServiceServer_repo s) c ?u ?items w1 = (x, w2)" by fastforce
    have np: "x \<noteq> Panicked" using Create_not_Panicked x True unfolding valid_order_def by metis
    show ?thesis
    proof (cases "\<exists>e. x = Done (Inl e)")
      case failed: True
      have "db w2 = db w \<or> (\<exists>i its t. ?items = map Some its \<and> order_created uuid_in numeric i ?u its t (db w) (db w2))"
        using Create_effect [OF x] k by auto
      with failed run q user x True show ?thesis by (auto intro!: order_spec.create_failed)
    next
      case False
      with np obtain order where o: "x = Done (Inr order)" by (metis outcome.exhaust sum.exhaust)
      with Create_effect [OF x] k obtain i its t where "?items = map Some its"
        "order_created uuid_in numeric i ?u its t (db w) (db w2)" "order = created_order i ?u its t"
        by (auto simp: created_order_def)
      with run q user x o True show ?thesis by (auto intro!: order_spec.create_ok)
    qed
  qed
qed

lemma CreateOrder_kv:
  assumes "CreateOrder env conn s c req w = (res, w')"
  shows "kv w' \<subseteq>\<^sub>m kv w"
proof (cases "valid_order req")
  case False
  from CreateOrder_invalid [OF False, of env conn s c w] assms show ?thesis by auto
next
  case True
  let ?u = "TrimSpace (CreateOrderRequest_UserId req)"
  obtain q w1 where q: "UserClient_GetUser conn c ?u w = (q, w1)" by fastforce
  note k = UserClient_world [OF q]
  have "kv (snd (OrderRepository_Create env (OrderServiceServer_repo s) c ?u items w1)) \<subseteq>\<^sub>m kv w" for items
    using map_le_trans [OF Create_kv] k by blast
  with k assms q show ?thesis unfolding CreateOrder_valid [OF True]
    by (auto split: sum.splits option.splits prod.splits outcome.splits dest: arg_cong [of _ _ snd])
       (metis snd_conv)+
qed

lemma GetOrder_refines:
  assumes run: "GetOrder env s c req w = (res, w')" and "coherent lossy (env_js env) uuid_in (db w) (kv w)"
  shows "order_spec lossy uuid_in numeric (db w) (CallGetOrder req) (Done (map_sum id ReplyGetOrder res)) (db w')"
proof (cases "GetOrderRequest_Id req = []")
  case True
  with run show ?thesis by (auto simp: GetOrder_def intro: order_spec.get_no_id)
next
  case False
  obtain q where q: "OrderRepository_Get env (OrderServiceServer_repo s) c (GetOrderRequest_Id req) w = (q, w')"
    and res: "res = (case q of Inl err \<Rightarrow> Inl (Status Internal ''failed to get order'')
      | Inr None \<Rightarrow> Inl (Status NotFound ''order not found'')
      | Inr (Some order) \<Rightarrow> Inr \<lparr>GetOrderResponse_Order = Some order\<rparr>)"
    using run False by (auto simp: GetOrder_def split: prod.splits sum.splits option.splits)
  from q res False Get_keeps [OF q] show ?thesis
    by (auto split: sum.splits option.splits dest!: Get_None Get_Some [OF _ assms(2)]
        intro: order_spec.get_ok order_spec.get_missing order_spec.get_failed)
qed

lemma ListOrders_refines:
  assumes run: "ListOrders env s c req w = (res, w')"
  shows "order_spec lossy uuid_in numeric (db w) (CallListOrders req) (Done (map_sum id ReplyListOrders res)) (db w')"
proof -
  obtain page ps where p: "ListOrders_page req = (page, ps)" by fastforce
  obtain page' sz off where cl: "List_clamp page ps = (page', sz, off)" by (cases "List_clamp page ps")
  obtain q w2 where q: "OrderRepository_List env (OrderServiceServer_repo s) c (ListOrdersRequest_UserId req) page ps w = (q, w2)"
    by fastforce
  show ?thesis
  proof (cases q)
    case (Inl err)
    with run p q List_keeps [OF q] show ?thesis by (auto simp: ListOrders_def intro: order_spec.list_failed)
  next
    case (Inr on)
    obtain orders n where on: "on = (orders, n)" by (cases on)
    let ?S = "listed uuid_in (ListOrdersRequest_UserId req) (db w)"
    have off: "page_offset req = sint off" by (simp add: page_offset_def p cl)
    note li = List_Inr [OF q [unfolded Inr on] cl]
    have reply: "res = Inr \<lparr>ListOrdersResponse_Orders = orders, ListOrdersResponse_Pagination =
        Some \<lparr>PaginationResponse_TotalCount = n, PaginationResponse_HasMore = has_more req (card ?S)\<rparr>\<rparr>" "w' = w2"
      using run p q Inr on li by (auto simp: ListOrders_def has_more_def Let_def)
    show ?thesis
    proof (cases "sint off < 0")
      case True
      with li reply off show ?thesis by (auto intro: order_spec.list_rejected)
    next
      case False
      with li obtain xs k where
        xs: "newest_first ?S xs" "orders = map order_summary (take k (page_of req xs))" "\<not> lossy \<longrightarrow> nat (sint sz) \<le> k"
        by (auto simp: page_of_def p cl)
      have card: "card ?S = length xs" using xs(1) distinct_card unfolding newest_first_def by metis
      have "length (page_of req xs) \<le> nat (sint sz)" by (simp add: page_of_def p cl)
      then have "(lossy \<and> prefix orders (map order_summary (page_of req xs))) \<or> orders = map order_summary (page_of req xs)"
        using xs(2,3) by (auto simp: take_is_prefix map_mono_prefix)
      with xs li reply off False card show ?thesis by (simp add: order_spec.list_ok)
    qed
  qed
qed

lemma ListOrders_kv: "kv (snd (ListOrders env s c req w)) \<subseteq>\<^sub>m kv w"
  using List_kv by (simp add: ListOrders_def Let_def case_prod_beta split: sum.split)

lemma CancelOrder_refines:
  assumes run: "CancelOrder env s c req w = (res, w')"
  shows "order_spec lossy uuid_in numeric (db w) (CallCancelOrder req) (Done (map_sum id ReplyCancelOrder res)) (db w')"
proof (cases "CancelOrderRequest_Id req = []")
  case True
  with run show ?thesis by (auto simp: CancelOrder_def intro: order_spec.cancel_no_id)
next
  case False
  obtain q where q: "OrderRepository_Cancel env (OrderServiceServer_repo s) c (CancelOrderRequest_Id req) w = (q, w')"
    and res: "res = (case q of Inl err \<Rightarrow> Inl (Status Internal ''failed to cancel order'')
      | Inr None \<Rightarrow> Inl (Status NotFound ''order not found'')
      | Inr (Some order) \<Rightarrow> Inr \<lparr>CancelOrderResponse_Order = Some order\<rparr>)"
    using run False by (auto simp: CancelOrder_def split: prod.splits sum.splits option.splits)
  show ?thesis
  proof (cases q rule: sum_option_cases)
    case err
    with res False Cancel_effect [OF q] show ?thesis by (auto intro!: order_spec.cancel_failed)
  next
    case none
    with res False Cancel_None [OF q [unfolded none]] show ?thesis by (auto intro: order_spec.cancel_missing)
  next
    case order: (some order)
    with res False Cancel_Some [OF q [unfolded order]] show ?thesis by (auto intro: order_spec.cancel_ok)
  qed
qed

text \<open>Only a read looks at what the cache holds.\<close>

lemma order_dispatch_spec:
  assumes "OrderService_dispatch env conn s c call w = (reply, w')"
    and "(\<exists>req. call = CallGetOrder req) \<longrightarrow> coherent lossy (env_js env) uuid_in (db w) (kv w)"
  shows "order_spec lossy uuid_in numeric (db w) call reply (db w')"
  using assms CreateOrder_refines GetOrder_refines ListOrders_refines CancelOrder_refines
  by (cases call) (auto simp: apfst_def map_prod_def split: prod.splits)

lemma order_dispatch_refines:
  assumes "OrderService_dispatch env conn s c call w = (reply, w')"
    and "coherent lossy (env_js env) uuid_in (db w) (kv w)"
  shows "order_spec lossy uuid_in numeric (db w) call reply (db w')"
  using order_dispatch_spec [OF assms(1)] assms(2) by blast

end

section \<open>The whole system\<close>

text \<open>The order service with a user service and a backend whose failures are clean.\<close>

locale order_system = order_world env uuid_in numeric db pend lossy kv conn +
  reliable_backend env uuid_in numeric db pend lossy kv
  for env :: "'w order_env" and uuid_in numeric db pend lossy kv conn

definition order_inv ::
  "bool \<Rightarrow> order_json \<Rightarrow> (string \<Rightarrow> string option) \<Rightarrow> orders_db \<Rightarrow> (string \<rightharpoonup> string) \<Rightarrow> bool" where
  "order_inv lossy js uuid_in d m \<longleftrightarrow> coherent lossy js uuid_in d m \<and> canonical_cache js uuid_in m"

text \<open>The calls that spell their identifier canonically, or not as a UUID at all.\<close>

fun canonical_call :: "(string \<Rightarrow> string option) \<Rightarrow> order_call \<Rightarrow> bool" where
  "canonical_call uuid_in (CallGetOrder req) \<longleftrightarrow> uuid_in (GetOrderRequest_Id req) \<in> {None, Some (GetOrderRequest_Id req)}"
| "canonical_call uuid_in (CallCancelOrder req) \<longleftrightarrow> uuid_in (CancelOrderRequest_Id req) \<in> {None, Some (CancelOrderRequest_Id req)}"
| "canonical_call uuid_in (CallCreateOrder req) \<longleftrightarrow> True"
| "canonical_call uuid_in (CallListOrders req) \<longleftrightarrow> True"

fun OrderService_run ::
  "'w order_env \<Rightarrow> 'w user_conn \<Rightarrow> OrderServiceServer \<Rightarrow> (ctx \<times> order_call) list \<Rightarrow> 'w \<Rightarrow> 'w" where
  "OrderService_run env conn s [] w = w"
| "OrderService_run env conn s ((c, call) # calls) w =
     OrderService_run env conn s calls (snd (OrderService_dispatch env conn s c call w))"

context order_system
begin

lemma CreateOrder_inv:
  assumes "CreateOrder env conn s c req w = (res, w')" "order_inv lossy (env_js env) uuid_in (db w) (kv w)"
  shows "order_inv lossy (env_js env) uuid_in (db w') (kv w')"
proof -
  have "db w' = db w \<or> (\<exists>i a its t. order_created uuid_in numeric i a its t (db w) (db w'))"
    using CreateOrder_refines [OF assms(1)] by (rule order_spec_createE) blast+
  then have "coherent lossy (env_js env) uuid_in (db w') (kv w)"
    using assms(2) order_created_coherent unfolding order_inv_def by metis
  with assms(2) CreateOrder_kv [OF assms(1)] coherent_mono canonical_mono show ?thesis
    unfolding order_inv_def by blast
qed

lemma GetOrder_inv:
  assumes "GetOrder env s c req w = (res, w')" "order_inv lossy (env_js env) uuid_in (db w) (kv w)"
    and "uuid_in (GetOrderRequest_Id req) \<in> {None, Some (GetOrderRequest_Id req)}"
  shows "order_inv lossy (env_js env) uuid_in (db w') (kv w')"
proof (cases "GetOrderRequest_Id req = []")
  case True
  with assms show ?thesis by (simp add: GetOrder_def)
next
  case False
  with assms(1) obtain q where "OrderRepository_Get env (OrderServiceServer_repo s) c (GetOrderRequest_Id req) w = (q, w')"
    by (auto simp: GetOrder_def split: prod.splits sum.splits option.splits)
  with assms(2,3) Get_coherent [OF this] Get_canonical [OF this] show ?thesis by (auto simp: order_inv_def)
qed

lemma CancelOrder_inv:
  assumes "CancelOrder env s c req w = (res, w')" "order_inv lossy (env_js env) uuid_in (db w) (kv w)"
    and "uuid_in (CancelOrderRequest_Id req) \<in> {None, Some (CancelOrderRequest_Id req)}"
    and "OrderRepository_rdb (OrderServiceServer_repo s) \<noteq> None"
  shows "order_inv lossy (env_js env) uuid_in (db w') (kv w')"
proof (cases "CancelOrderRequest_Id req = []")
  case True
  with assms show ?thesis by (simp add: CancelOrder_def)
next
  case False
  with assms(1) obtain q where
    q: "OrderRepository_Cancel env (OrderServiceServer_repo s) c (CancelOrderRequest_Id req) w = (q, w')"
    by (auto simp: CancelOrder_def split: prod.splits sum.splits option.splits)
  have "canonical_cache (env_js env) uuid_in (kv w')"
    using Cancel_cached [OF q] assms(2) by (auto simp: order_inv_def canonical_cache_def)
  with Cancel_coherent [OF q assms(4)] assms(2,3) show ?thesis by (auto simp: order_inv_def)
qed

lemma order_dispatch_inv:
  assumes "OrderService_dispatch env conn s c call w = (reply, w')" "order_inv lossy (env_js env) uuid_in (db w) (kv w)"
    and "canonical_call uuid_in call" "OrderRepository_rdb (OrderServiceServer_repo s) \<noteq> None"
  shows "order_inv lossy (env_js env) uuid_in (db w') (kv w')"
proof (cases call)
  case (CallCreateOrder req)
  with assms CreateOrder_inv show ?thesis by (cases "CreateOrder env conn s c req w") auto
next
  case (CallGetOrder req)
  with assms GetOrder_inv show ?thesis by (cases "GetOrder env s c req w") auto
next
  case (CallCancelOrder req)
  with assms CancelOrder_inv show ?thesis by (cases "CancelOrder env s c req w") auto
next
  case (CallListOrders req)
  obtain res where l: "ListOrders env s c req w = (res, w')"
    using CallListOrders assms(1) by (cases "ListOrders env s c req w") auto
  have "db w' = db w" using ListOrders_refines [OF l] by (rule order_spec_listE) simp_all
  moreover have "kv w' \<subseteq>\<^sub>m kv w" using ListOrders_kv [of s c req w] l by simp
  ultimately show ?thesis using assms(2) coherent_mono canonical_mono by (auto simp: order_inv_def)
qed

lemma order_run_inv:
  assumes "OrderRepository_rdb (OrderServiceServer_repo s) \<noteq> None"
  shows "order_inv lossy (env_js env) uuid_in (db w) (kv w) \<Longrightarrow> \<forall>x \<in> set calls. canonical_call uuid_in (snd x) \<Longrightarrow>
    order_inv lossy (env_js env) uuid_in (db (OrderService_run env conn s calls w)) (kv (OrderService_run env conn s calls w))"
proof (induction calls arbitrary: w)
  case (Cons x calls)
  obtain c call where x: "x = (c, call)" by (cases x)
  obtain reply w' where d: "OrderService_dispatch env conn s c call w = (reply, w')" by fastforce
  from order_dispatch_inv [OF d Cons.prems(1) _ assms] Cons.prems(2) x
  have "order_inv lossy (env_js env) uuid_in (db w') (kv w')" by simp
  with Cons x d show ?case by simp
qed simp

text \<open>So a read after any run of calls shows what is stored then.\<close>

lemma GetOrder_current:
  assumes "OrderRepository_rdb (OrderServiceServer_repo s) \<noteq> None"
    and "order_inv lossy (env_js env) uuid_in (db w) (kv w)"
    and "\<forall>x \<in> set calls. canonical_call uuid_in (snd x)"
    and "GetOrder env s c req (OrderService_run env conn s calls w) = (Inr \<lparr>GetOrderResponse_Order = Some order\<rparr>, w')"
  shows "shows_order lossy uuid_in (db (OrderService_run env conn s calls w)) (GetOrderRequest_Id req) order"
proof -
  let ?w = "OrderService_run env conn s calls w"
  have "coherent lossy (env_js env) uuid_in (db ?w) (kv ?w)"
    using order_run_inv [OF assms(1-3)] by (simp add: order_inv_def)
  from GetOrder_refines [OF assms(4) this] show ?thesis by (rule order_spec_getE) auto
qed

end

end
