(* ===== verification/OrderCodec.thy ===== *)
theory OrderCodec
  imports OrderCache
begin

text \<open>
  An executable codec for orders: strings are escaped byte by byte, numbers are decimal. It is an
  instance of \<open>order_codec\<close>, what the order cache relies on of \<open>protojson\<close>, on every order whose items
  are not nil, and it is the codec of the in-memory backend.
\<close>

section \<open>Encoding\<close>

fun enc_str :: "string \<Rightarrow> string" where
  "enc_str [] = ''.''"
| "enc_str (c # s) = CHR ''x'' # c # enc_str s"

fun dec_str :: "string \<Rightarrow> (string \<times> string) option" where
  "dec_str (a # s) =
     (if a = CHR ''.'' then Some ([], s)
      else case s of [] \<Rightarrow> None | c # r \<Rightarrow> map_option (\<lambda>(t, rest). (c # t, rest)) (dec_str r))"
| "dec_str [] = None"

definition enc_int :: "int \<Rightarrow> string" where
  "enc_int i = (if i < 0 then ''-'' else ''+'') @ dec_nat (nat \<bar>i\<bar>) @ '';''"

definition dec_int_tok :: "string \<Rightarrow> (int \<times> string) option" where
  "dec_int_tok s = (case s of [] \<Rightarrow> None | a # r \<Rightarrow>
     (let n = int (nat_of_dec (takeWhile is_digit r))
      in Some (if a = CHR ''-'' then - n else n, tl (dropWhile is_digit r))))"

definition enc_rat :: "rat \<Rightarrow> string" where
  "enc_rat q = (case quotient_of q of (n, d) \<Rightarrow> enc_int n @ enc_int d)"

definition dec_rat :: "string \<Rightarrow> (rat \<times> string) option" where
  "dec_rat s = Option.bind (dec_int_tok s) (\<lambda>(n, r). map_option (\<lambda>(d, r'). (of_int n / of_int d, r')) (dec_int_tok r))"

fun enc_float :: "float64 \<Rightarrow> string" where
  "enc_float NaN = ''n''"
| "enc_float (Inf s) = (if s then ''I'' else ''i'')"
| "enc_float (Fin s q) = (if s then ''F'' else ''f'') @ enc_rat q"

definition dec_float :: "string \<Rightarrow> (float64 \<times> string) option" where
  "dec_float s = (case s of [] \<Rightarrow> None | a # r \<Rightarrow>
     if a = CHR ''n'' then Some (NaN, r)
     else if a = CHR ''I'' then Some (Inf True, r)
     else if a = CHR ''i'' then Some (Inf False, r)
     else map_option (\<lambda>(q, r'). (Fin (a = CHR ''F'') q, r')) (dec_rat r))"

definition enc_item :: "OrderItem \<Rightarrow> string" where
  "enc_item it = enc_str (OrderItem_ProductId it) @ enc_str (OrderItem_ProductName it) @
     enc_int (sint (OrderItem_Quantity it)) @ enc_float (OrderItem_UnitPrice it)"

definition dec_item :: "string \<Rightarrow> (OrderItem \<times> string) option" where
  "dec_item s =
     Option.bind (dec_str s) (\<lambda>(pid, s1). Option.bind (dec_str s1) (\<lambda>(pn, s2).
     Option.bind (dec_int_tok s2) (\<lambda>(q, s3). map_option (\<lambda>(x, s4).
       (\<lparr>OrderItem_ProductId = pid, OrderItem_ProductName = pn, OrderItem_Quantity = of_int q, OrderItem_UnitPrice = x\<rparr>, s4))
       (dec_float s3))))"

fun enc_items :: "OrderItem list \<Rightarrow> string" where
  "enc_items [] = ''.''"
| "enc_items (it # its) = CHR ''x'' # enc_item it @ enc_items its"

text \<open>The number of items is bounded by the length of the text, which serves as fuel.\<close>

fun dec_items :: "nat \<Rightarrow> string \<Rightarrow> (OrderItem list \<times> string) option" where
  "dec_items n [] = None"
| "dec_items 0 (a # s) = (if a = CHR ''.'' then Some ([], s) else None)"
| "dec_items (Suc n) (a # s) =
     (if a = CHR ''.'' then Some ([], s)
      else Option.bind (dec_item s) (\<lambda>(it, r). map_option (\<lambda>(its, r'). (it # its, r')) (dec_items n r)))"

definition status_text :: "OrderStatus \<Rightarrow> string" where
  "status_text st = the (OrderStatus_name (OrderStatus_Number st))"

definition all_statuses :: "OrderStatus list" where
  "all_statuses = [ORDER_STATUS_UNSPECIFIED, ORDER_STATUS_PENDING, ORDER_STATUS_CONFIRMED,
     ORDER_STATUS_SHIPPED, ORDER_STATUS_DELIVERED, ORDER_STATUS_CANCELLED]"

fun dec_status :: "string \<Rightarrow> OrderStatus option" where
  "dec_status s = List.find (\<lambda>st. status_text st = s) all_statuses"

fun enc_time :: "Timestamp option \<Rightarrow> string" where
  "enc_time None = ''0''"
| "enc_time (Some (timestamppb_New t)) = ''1'' @ enc_int t"

definition dec_time :: "string \<Rightarrow> (Timestamp option \<times> string) option" where
  "dec_time s = (case s of [] \<Rightarrow> None | a # r \<Rightarrow>
     if a = CHR ''0'' then Some (None, r)
     else map_option (\<lambda>(t, r'). (Some (timestamppb_New t), r')) (dec_int_tok r))"

definition mem_Marshal :: "Order \<Rightarrow> go_error + string" where
  "mem_Marshal o' =
     (if None \<in> set (Order_Items o') then Inl ''nil item''
      else Inr (enc_str (Order_Id o') @ enc_str (Order_UserId o') @ enc_items (map the (Order_Items o')) @
        enc_float (Order_Total o') @ enc_str (status_text (Order_Status o')) @ enc_time (Order_CreatedAt o')))"

definition mem_Unmarshal :: "string \<Rightarrow> go_error + Order" where
  "mem_Unmarshal s =
     (case Option.bind (dec_str s) (\<lambda>(i, s1). Option.bind (dec_str s1) (\<lambda>(u, s2).
        Option.bind (dec_items (length s2) s2) (\<lambda>(its, s3). Option.bind (dec_float s3) (\<lambda>(x, s4).
        Option.bind (dec_str s4) (\<lambda>(st, s5). Option.bind (dec_time s5) (\<lambda>(t, _).
        map_option (\<lambda>st'. \<lparr>Order_Id = i, Order_UserId = u, Order_Items = map Some its, Order_Total = x,
          Order_Status = st', Order_CreatedAt = t\<rparr>) (dec_status st))))))) of
      None \<Rightarrow> Inl ''syntax error''
    | Some o' \<Rightarrow> Inr o')"

section \<open>Round trip\<close>

lemma dec_str_enc [simp]: "dec_str (enc_str s @ r) = Some (s, r)"
  by (induction s) simp_all

lemma dec_int_tok_enc [simp]: "dec_int_tok (enc_int i @ r) = Some (i, r)"
proof -
  have d: "takeWhile is_digit (dec_nat n @ CHR '';'' # r) = dec_nat n"
    "dropWhile is_digit (dec_nat n @ CHR '';'' # r) = CHR '';'' # r" for n
  proof -
    have "\<not> is_digit CHR '';''" by code_simp
    then show "takeWhile is_digit (dec_nat n @ CHR '';'' # r) = dec_nat n"
      "dropWhile is_digit (dec_nat n @ CHR '';'' # r) = CHR '';'' # r"
      using takeWhile_append2 [of "dec_nat n" is_digit] dropWhile_append2 [of "dec_nat n" is_digit] dec_nat_digits
      by simp_all
  qed
  show ?thesis by (auto simp: dec_int_tok_def enc_int_def d)
qed

lemma dec_rat_enc [simp]: "dec_rat (enc_rat q @ r) = Some (q, r)"
  using quotient_of_div [of q] by (cases "quotient_of q") (simp add: dec_rat_def enc_rat_def)

lemma dec_float_enc [simp]: "dec_float (enc_float x @ r) = Some (x, r)"
  by (cases x) (auto simp: dec_float_def)

lemma dec_item_enc [simp]: "dec_item (enc_item it @ r) = Some (it, r)"
  by (simp add: dec_item_def enc_item_def)

lemma dec_items_enc [simp]: "length its \<le> n \<Longrightarrow> dec_items n (enc_items its @ r) = Some (its, r)"
proof (induction its arbitrary: n)
  case Nil
  then show ?case by (cases n) simp_all
next
  case (Cons it its)
  then show ?case by (cases n) simp_all
qed

lemma enc_items_length: "length its \<le> length (enc_items its)"
  by (induction its) auto

lemma dec_status_text [simp]: "dec_status (status_text st) = Some st"
  by (cases st) (simp_all add: status_text_def OrderStatus_name_def all_statuses_def)

lemma dec_time_enc [simp]: "dec_time (enc_time t) = Some (t, [])"
proof (cases t)
  case (Some x)
  have "dec_int_tok (enc_int i) = Some (i, [])" for i using dec_int_tok_enc [of i "[]"] by simp
  with Some show ?thesis by (cases x) (simp add: dec_time_def)
qed (simp add: dec_time_def)

lemma mem_codec:
  assumes "mem_Marshal o' = Inr data"
  shows "mem_Unmarshal data = Inr o'"
proof -
  have "map Some (map the xs) = xs" if "None \<notin> set xs" for xs :: "OrderItem option list"
    using that by (induction xs) auto
  moreover have "dec_items (length (enc_items its @ r)) (enc_items its @ r) = Some (its, r)" for its r
    using enc_items_length [of its] by simp
  ultimately show ?thesis
    using assms by (auto simp: mem_Marshal_def mem_Unmarshal_def simp del: dec_status.simps length_append map_map
        split: if_splits)
qed

definition mem_json :: order_json where
  "mem_json = \<lparr>protojson_Marshal = mem_Marshal, protojson_Unmarshal = mem_Unmarshal\<rparr>"

interpretation mem_json: order_codec mem_json
  by unfold_locales (simp add: mem_json_def mem_codec)

end
