(* ===== verification/MemOrders.thy ===== *)
theory MemOrders
  imports OrderService OrderCodec MemUsers
begin

text \<open>
  An executable in-memory backend for the order service: the tables of
  \<open>src/db/migrations/000002_create_orders.up.sql\<close> and \<open>000003_create_order_items.up.sql\<close> with their
  keys, checks and column types, transactions that stay invisible until their commit, a Redis that
  can be read-only, and the user service's own handler behind the connection. With a read-only
  Redis or with row streams that break off it is still an \<open>order_world\<close>; without them it is an
  \<open>order_system\<close>.
\<close>

section \<open>The world\<close>

record mem_orders =
  mo_orders :: "(string \<times> order_row) list"
  mo_items :: "(string \<times> OrderItem) list"
  mo_pend :: "(nat \<times> order_write list) list"
  mo_next_tx :: nat
  mo_clock :: time
  mo_ids :: nat
  mo_kv :: "(string \<times> string) list"
  mo_users :: mem_users

definition mem_db :: "mem_orders \<Rightarrow> orders_db" where
  "mem_db w = \<lparr>od_orders = map_of (mo_orders w),
     od_items = (\<lambda>u. mset (map snd (filter (\<lambda>x. fst x = u) (mo_items w))))\<rparr>"

definition mem_pend :: "mem_orders \<Rightarrow> txref \<Rightarrow> order_write list" where
  "mem_pend w t = (case map_of (mo_pend w) t of None \<Rightarrow> [] | Some ws \<Rightarrow> ws)"

definition mem_kv :: "mem_orders \<Rightarrow> string \<rightharpoonup> string" where
  "mem_kv w = map_of (mo_kv w)"

text \<open>\<open>NUMERIC(10,2)\<close>: two decimals, eight digits before the point, NaN allowed, no infinities.\<close>

definition mem_numeric :: "float64 \<Rightarrow> float64 option" where
  "mem_numeric x = (case x of
       NaN \<Rightarrow> Some NaN
     | Inf _ \<Rightarrow> None
     | Fin s m \<Rightarrow> (let cents = \<lfloor>m * 100 + 1 / 2\<rfloor>
                   in if 10000000000 \<le> cents then None else Some (round64 (s \<and> cents \<noteq> 0) (of_int cents / 100))))"

section \<open>Statements\<close>

definition err_pk :: go_error where
  "err_pk = ''ERROR: duplicate key value violates unique constraint (SQLSTATE 23505)''"

definition err_numeric :: go_error where
  "err_numeric = ''ERROR: numeric field overflow (SQLSTATE 22003)''"

definition err_check :: go_error where
  "err_check = ''ERROR: new row violates check constraint (SQLSTATE 23514)''"

definition err_fk :: go_error where
  "err_fk = ''ERROR: insert or update violates foreign key constraint (SQLSTATE 23503)''"

definition err_range :: go_error where
  "err_range = ''ERROR: value out of range''"

definition err_conn :: go_error where
  "err_conn = ''unexpected EOF''"

fun inserts_order :: "string \<Rightarrow> order_write \<Rightarrow> bool" where
  "inserts_order u (InsOrder v r) = (u = v)"
| "inserts_order u (InsItem v it) = False"

definition mem_push :: "txref \<Rightarrow> order_write \<Rightarrow> mem_orders \<Rightarrow> mem_orders" where
  "mem_push t x w = w\<lparr>mo_pend := AList.update t (mem_pend w t @ [x]) (mo_pend w)\<rparr>"

definition mem_insert_order ::
  "txref \<Rightarrow> string \<Rightarrow> string \<Rightarrow> float64 \<Rightarrow> mem_orders \<Rightarrow> (go_error + row) \<times> mem_orders" where
  "mem_insert_order t i a x w =
     (case (mem_uuid_in i, mem_uuid_in a, mem_numeric x) of
        (Some u, Some v, Some y) \<Rightarrow>
          (if map_of (mo_orders w) u \<noteq> None \<or> list_ex (inserts_order u) (mem_pend w t) then (Inl err_pk, w)
           else (Inr [STime (mo_clock w)],
                 mem_push t (InsOrder u \<lparr>or_user = v, or_status = ''PENDING'', or_total = y, or_created = mo_clock w\<rparr>)
                   (w\<lparr>mo_clock := mo_clock w + 1\<rparr>)))
      | (Some u, Some v, None) \<Rightarrow> (Inl err_numeric, w)
      | (Some u, None, _) \<Rightarrow> (Inl (err_bad_uuid a), w)
      | (None, _, _) \<Rightarrow> (Inl (err_bad_uuid i), w))"

definition mem_insert_item ::
  "txref \<Rightarrow> string \<Rightarrow> string \<Rightarrow> string \<Rightarrow> int32 \<Rightarrow> float64 \<Rightarrow> mem_orders \<Rightarrow> (go_error + nat) \<times> mem_orders" where
  "mem_insert_item t i pid pn q x w =
     (case (mem_uuid_in i, mem_numeric x) of
        (Some u, Some y) \<Rightarrow>
          (if 100 < char_count pid \<or> 255 < char_count pn then (Inl err_too_long, w)
           else if sint q \<le> 0 \<or> flt y fzero then (Inl err_check, w)
           else if map_of (mo_orders w) u = None \<and> \<not> list_ex (inserts_order u) (mem_pend w t) then (Inl err_fk, w)
           else (Inr 1, mem_push t (InsItem u \<lparr>OrderItem_ProductId = pid, OrderItem_ProductName = pn,
                   OrderItem_Quantity = q, OrderItem_UnitPrice = y\<rparr>) w))
      | (Some u, None) \<Rightarrow> (Inl err_numeric, w)
      | (None, _) \<Rightarrow> (Inl (err_bad_uuid i), w))"

fun mem_write :: "order_write \<Rightarrow> mem_orders \<Rightarrow> mem_orders" where
  "mem_write (InsOrder u r) w = w\<lparr>mo_orders := AList.update u r (mo_orders w)\<rparr>"
| "mem_write (InsItem u it) w = w\<lparr>mo_items := (u, it) # mo_items w\<rparr>"

definition mem_commit :: "txref \<Rightarrow> mem_orders \<Rightarrow> mem_orders" where
  "mem_commit t w = fold mem_write (mem_pend w t) w"

definition mem_select_order :: "string \<Rightarrow> mem_orders \<Rightarrow> (go_error + row) \<times> mem_orders" where
  "mem_select_order i w =
     (case mem_uuid_in i of
        None \<Rightarrow> (Inl (err_bad_uuid i), w)
      | Some u \<Rightarrow> (case map_of (mo_orders w) u of None \<Rightarrow> (Inl no_rows, w) | Some r \<Rightarrow> (Inr (order_cols r), w)))"

definition mem_cancel_order :: "string \<Rightarrow> mem_orders \<Rightarrow> (go_error + row) \<times> mem_orders" where
  "mem_cancel_order i w =
     (case mem_uuid_in i of
        None \<Rightarrow> (Inl (err_bad_uuid i), w)
      | Some u \<Rightarrow>
          (case map_of (mo_orders w) u of
             None \<Rightarrow> (Inl no_rows, w)
           | Some r \<Rightarrow> (Inr [SStr ''CANCELLED''],
                         w\<lparr>mo_orders := AList.update u (r\<lparr>or_status := ''CANCELLED''\<rparr>) (mo_orders w)\<rparr>)))"

text \<open>A row stream that may break off after its first row.\<close>

definition mem_stream :: "bool \<Rightarrow> row list \<Rightarrow> row list \<times> go_error option" where
  "mem_stream lossy rows = (if lossy \<and> 1 < length rows then (take 1 rows, Some err_conn) else (rows, None))"

definition mem_select_items ::
  "bool \<Rightarrow> string \<Rightarrow> mem_orders \<Rightarrow> (go_error + row list \<times> go_error option) \<times> mem_orders" where
  "mem_select_items lossy i w =
     (case mem_uuid_in i of
        None \<Rightarrow> (Inr ([], Some (err_bad_uuid i)), w)
      | Some u \<Rightarrow> (Inr (mem_stream lossy (map item_cols (map snd (filter (\<lambda>x. fst x = u) (mo_items w))))), w))"

definition mem_listed :: "string \<Rightarrow> mem_orders \<Rightarrow> (string \<times> order_row) list" where
  "mem_listed a w = sort_key (\<lambda>x. - or_created (snd x))
     (filter (\<lambda>x. a = '''' \<or> mem_uuid_in a = Some (or_user (snd x))) (AList.clearjunk (mo_orders w)))"

definition mem_count :: "string \<Rightarrow> mem_orders \<Rightarrow> (go_error + row) \<times> mem_orders" where
  "mem_count a w =
     (let n = int (length (mem_listed a w))
      in if a \<noteq> '''' \<and> mem_uuid_in a = None then (Inl (err_bad_uuid a), w)
         else if 2147483648 \<le> n then (Inl err_range, w) else (Inr [SInt (of_int n)], w))"

definition mem_list ::
  "bool \<Rightarrow> string \<Rightarrow> int32 \<Rightarrow> int32 \<Rightarrow> mem_orders \<Rightarrow> (go_error + row list \<times> go_error option) \<times> mem_orders" where
  "mem_list lossy a lmt off w =
     (if a \<noteq> '''' \<and> mem_uuid_in a = None then (Inr ([], Some (err_bad_uuid a)), w)
      else if sint lmt < 0 \<or> sint off < 0 then (Inr ([], Some err_range), w)
      else (Inr (mem_stream lossy (map list_cols (take (nat (sint lmt)) (drop (nat (sint off)) (mem_listed a w))))), w))"

definition sql_count :: "bool \<Rightarrow> string" where
  "sql_count user = fst (List_countQuery (if user then ''u'' else ''''))"

definition sql_list :: "bool \<Rightarrow> string" where
  "sql_list user = fst (List_listQuery (if user then ''u'' else '''') 0 0)"

section \<open>Driver, Redis and connection\<close>

fun mo_QueryRow :: "poolref \<Rightarrow> ctx \<Rightarrow> string \<Rightarrow> sqlval list \<Rightarrow> mem_orders \<Rightarrow> (go_error + row) \<times> mem_orders" where
  "mo_QueryRow p c q [SStr i] w =
     (if q = sql_select_order then mem_select_order i w
      else if q = sql_cancel_order then mem_cancel_order i w
      else if q = sql_count True \<and> i \<noteq> '''' then mem_count i w
      else (Inl err_statement, w))"
| "mo_QueryRow p c q [] w = (if q = sql_count False then mem_count '''' w else (Inl err_statement, w))"
| "mo_QueryRow p c q _ w = (Inl err_statement, w)"

fun mo_Query ::
  "bool \<Rightarrow> poolref \<Rightarrow> ctx \<Rightarrow> string \<Rightarrow> sqlval list \<Rightarrow> mem_orders \<Rightarrow>
   (go_error + row list \<times> go_error option) \<times> mem_orders" where
  "mo_Query lossy p c q [SStr i] w = (if q = sql_select_items then mem_select_items lossy i w else (Inl err_statement, w))"
| "mo_Query lossy p c q [SStr a, SInt lmt, SInt off] w =
     (if q = sql_list True \<and> a \<noteq> '''' then mem_list lossy a lmt off w else (Inl err_statement, w))"
| "mo_Query lossy p c q [SInt lmt, SInt off] w =
     (if q = sql_list False then mem_list lossy '''' lmt off w else (Inl err_statement, w))"
| "mo_Query lossy p c q _ w = (Inl err_statement, w)"

fun mo_tx_QueryRow :: "txref \<Rightarrow> ctx \<Rightarrow> string \<Rightarrow> sqlval list \<Rightarrow> mem_orders \<Rightarrow> (go_error + row) \<times> mem_orders" where
  "mo_tx_QueryRow t c q [SStr i, SStr a, SFloat x] w =
     (if q = sql_insert_order then mem_insert_order t i a x w else (Inl err_statement, w))"
| "mo_tx_QueryRow t c q _ w = (Inl err_statement, w)"

fun mo_tx_Exec :: "txref \<Rightarrow> ctx \<Rightarrow> string \<Rightarrow> sqlval list \<Rightarrow> mem_orders \<Rightarrow> (go_error + nat) \<times> mem_orders" where
  "mo_tx_Exec t c q [SStr j, SStr i, SStr pid, SStr pn, SInt n, SFloat x] w =
     (if q = sql_insert_item then mem_insert_item t i pid pn n x w else (Inl err_statement, w))"
| "mo_tx_Exec t c q _ w = (Inl err_statement, w)"

definition mo_Begin :: "poolref \<Rightarrow> ctx \<Rightarrow> mem_orders \<Rightarrow> (go_error + txref) \<times> mem_orders" where
  "mo_Begin p c w = (Inr (mo_next_tx w),
     w\<lparr>mo_pend := AList.update (mo_next_tx w) [] (mo_pend w), mo_next_tx := mo_next_tx w + 1\<rparr>)"

definition mo_Commit :: "txref \<Rightarrow> ctx \<Rightarrow> mem_orders \<Rightarrow> go_error option \<times> mem_orders" where
  "mo_Commit t c w = (None, (mem_commit t w)\<lparr>mo_pend := AList.delete t (mo_pend w)\<rparr>)"

definition mo_Rollback :: "txref \<Rightarrow> ctx \<Rightarrow> mem_orders \<Rightarrow> mem_orders" where
  "mo_Rollback t c w = w\<lparr>mo_pend := AList.delete t (mo_pend w)\<rparr>"

definition mo_Exec :: "poolref \<Rightarrow> ctx \<Rightarrow> string \<Rightarrow> sqlval list \<Rightarrow> mem_orders \<Rightarrow> (go_error + nat) \<times> mem_orders" where
  "mo_Exec p c q args w = (Inl err_statement, w)"

definition mo_Close :: "poolref \<Rightarrow> mem_orders \<Rightarrow> mem_orders" where
  "mo_Close p w = w"

definition mo_scan_error :: "row \<Rightarrow> go_error" where
  "mo_scan_error rw = ''can't scan into dest''"

definition mem_orders_pgx :: "bool \<Rightarrow> mem_orders pgx" where
  "mem_orders_pgx lossy =
     \<lparr>pool_QueryRow = mo_QueryRow, pool_Query = mo_Query lossy, pool_Exec = mo_Exec, pool_Begin = mo_Begin,
      pool_Close = mo_Close, tx_QueryRow = mo_tx_QueryRow, tx_Exec = mo_tx_Exec, tx_Commit = mo_Commit,
      tx_Rollback = mo_Rollback, scan_error = mo_scan_error\<rparr>"

definition mo_redis_Get :: "rdbref \<Rightarrow> ctx \<Rightarrow> string \<Rightarrow> mem_orders \<Rightarrow> redis_reply \<times> mem_orders" where
  "mo_redis_Get p c k w = (case map_of (mo_kv w) k of None \<Rightarrow> RNil | Some d \<Rightarrow> RData d, w)"

definition mo_redis_Set ::
  "bool \<Rightarrow> rdbref \<Rightarrow> ctx \<Rightarrow> string \<Rightarrow> string \<Rightarrow> duration \<Rightarrow> mem_orders \<Rightarrow> go_error option \<times> mem_orders" where
  "mo_redis_Set readonly p c k d ttl w =
     (if readonly then (Some ''READONLY'', w) else (None, w\<lparr>mo_kv := AList.update k d (mo_kv w)\<rparr>))"

definition mo_redis_Del ::
  "bool \<Rightarrow> rdbref \<Rightarrow> ctx \<Rightarrow> string \<Rightarrow> mem_orders \<Rightarrow> go_error option \<times> mem_orders" where
  "mo_redis_Del readonly p c k w =
     (if readonly then (Some ''READONLY'', w) else (None, w\<lparr>mo_kv := AList.delete k (mo_kv w)\<rparr>))"

definition mem_redis :: "bool \<Rightarrow> mem_orders redis" where
  "mem_redis readonly =
     \<lparr>redis_Get = mo_redis_Get, redis_Set = mo_redis_Set readonly, redis_Del = mo_redis_Del readonly\<rparr>"

definition mo_uuid :: "mem_orders \<Rightarrow> string \<times> mem_orders" where
  "mo_uuid w = (mem_uuid (mo_ids w), w\<lparr>mo_ids := mo_ids w + 1\<rparr>)"

definition mem_env :: "bool \<Rightarrow> bool \<Rightarrow> mem_orders order_env" where
  "mem_env readonly lossy =
     \<lparr>env_drv = mem_orders_pgx lossy, env_red = mem_redis readonly, env_js = mem_json, env_uuid = mo_uuid\<rparr>"

text \<open>The names that \<open>codes.Code.String\<close> prints.\<close>

fun code_name :: "code \<Rightarrow> string" where
  "code_name OK = ''OK''"
| "code_name Canceled = ''Canceled''"
| "code_name Unknown = ''Unknown''"
| "code_name InvalidArgument = ''InvalidArgument''"
| "code_name DeadlineExceeded = ''DeadlineExceeded''"
| "code_name NotFound = ''NotFound''"
| "code_name AlreadyExists = ''AlreadyExists''"
| "code_name PermissionDenied = ''PermissionDenied''"
| "code_name ResourceExhausted = ''ResourceExhausted''"
| "code_name FailedPrecondition = ''FailedPrecondition''"
| "code_name Aborted = ''Aborted''"
| "code_name OutOfRange = ''OutOfRange''"
| "code_name Unimplemented = ''Unimplemented''"
| "code_name Internal = ''Internal''"
| "code_name Unavailable = ''Unavailable''"
| "code_name DataLoss = ''DataLoss''"
| "code_name Unauthenticated = ''Unauthenticated''"

text \<open>The connection: the user service's own handler, over its own database.\<close>

definition mo_GetUser ::
  "ctx \<Rightarrow> GetUserRequest \<Rightarrow> mem_orders \<Rightarrow> (rpc_error + GetUserResponse) \<times> mem_orders" where
  "mo_GetUser c req w =
     (case GetUser mem_pgx (NewUserServiceServer (NewUserRepository (Some 1))) c req (mo_users w) of
        (Inl st, u) \<Rightarrow> (Inl (StatusErr st), w\<lparr>mo_users := u\<rparr>)
      | (Inr resp, u) \<Rightarrow> (Inr resp, w\<lparr>mo_users := u\<rparr>))"

definition mo_error_text :: "rpc_error \<Rightarrow> string" where
  "mo_error_text err = (case err of
       StatusErr st \<Rightarrow> ''rpc error: code = '' @ code_name (status_code st) @ '' desc = '' @ status_msg st
     | OtherErr e \<Rightarrow> e)"

definition mem_conn :: "mem_orders user_conn" where
  "mem_conn = \<lparr>rpc_GetUser = mo_GetUser, code_String = code_name, rpc_error_text = mo_error_text\<rparr>"

lemmas mem_orders_pgx_defs = mem_orders_pgx_def mo_Begin_def mo_Commit_def mo_Rollback_def mo_Exec_def mo_Close_def
lemmas mem_redis_defs = mem_redis_def mo_redis_Get_def mo_redis_Set_def mo_redis_Del_def
lemmas mem_env_defs = mem_env_def mo_uuid_def
lemmas mem_conn_defs = mem_conn_def mo_GetUser_def

section \<open>It keeps the promises\<close>

lemma mem_db_frame [simp]:
  "mem_db (w\<lparr>mo_pend := a\<rparr>) = mem_db w" "mem_db (w\<lparr>mo_next_tx := b\<rparr>) = mem_db w" "mem_db (w\<lparr>mo_clock := t\<rparr>) = mem_db w"
  "mem_db (w\<lparr>mo_ids := b\<rparr>) = mem_db w" "mem_db (w\<lparr>mo_kv := m\<rparr>) = mem_db w" "mem_db (w\<lparr>mo_users := u\<rparr>) = mem_db w"
  by (simp_all add: mem_db_def)

lemma mem_push_simps [simp]:
  "mem_db (mem_push t x w) = mem_db w" "mo_kv (mem_push t x w) = mo_kv w"
  "mem_pend (mem_push t x w) t = mem_pend w t @ [x]"
  by (simp_all add: mem_push_def mem_pend_def update_conv)

lemma mem_pend_frame [simp]:
  "mem_pend (w\<lparr>mo_clock := t\<rparr>) = mem_pend w" "mem_pend (w\<lparr>mo_ids := b\<rparr>) = mem_pend w"
  "mem_pend (w\<lparr>mo_pend := AList.update k ws p, mo_next_tx := b\<rparr>) k = ws"
  by (simp_all add: mem_pend_def fun_eq_iff update_conv)

lemma mem_db_orders: "od_orders (mem_db w) = map_of (mo_orders w)"
  by (simp add: mem_db_def)

lemma mem_db_cancel:
  "map_of (mo_orders w) u = Some r \<Longrightarrow>
   mem_db (w\<lparr>mo_orders := AList.update u (r\<lparr>or_status := ''CANCELLED''\<rparr>) (mo_orders w)\<rparr>) = order_cancelled u (mem_db w)"
  by (simp add: mem_db_def order_cancelled_def fun_eq_iff update_conv)

text \<open>What the statements leave alone.\<close>

lemma mo_tx_frame:
  "mem_db (snd (mo_tx_QueryRow t c q args w)) = mem_db w \<and> mo_kv (snd (mo_tx_QueryRow t c q args w)) = mo_kv w"
  by (induction t c q args w rule: mo_tx_QueryRow.induct) (auto simp: mem_insert_order_def split: option.split)

lemma mo_tx_Exec_frame:
  "mem_db (snd (mo_tx_Exec t c q args w)) = mem_db w \<and> mo_kv (snd (mo_tx_Exec t c q args w)) = mo_kv w"
  by (induction t c q args w rule: mo_tx_Exec.induct) (auto simp: mem_insert_item_def split: option.split)

lemma mo_QueryRow_kv: "mo_kv (snd (mo_QueryRow p c q args w)) = mo_kv w"
  by (induction p c q args w rule: mo_QueryRow.induct)
     (auto simp: mem_select_order_def mem_cancel_order_def mem_count_def Let_def split: option.split)

lemma mo_Query_keeps: "snd (mo_Query lossy p c q args w) = w"
  by (induction lossy p c q args w rule: mo_Query.induct)
     (auto simp: mem_select_items_def mem_list_def split: option.split)

lemma mem_db_write [simp]: "mem_db (mem_write x w) = apply_write x (mem_db w)"
  by (cases x) (auto simp: mem_db_def update_conv)

lemma mem_db_commit: "mem_db (mem_commit t w) = apply_writes (mem_pend w t) (mem_db w)"
proof -
  have "mem_db (fold mem_write ws w) = apply_writes ws (mem_db w)" for ws
    by (induction ws arbitrary: w) simp_all
  then show ?thesis by (simp add: mem_commit_def)
qed

lemma mem_kv_commit [simp]: "mo_kv (mem_commit t w) = mo_kv w"
proof -
  have "mo_kv (mem_write x w) = mo_kv w" for x w by (cases x) simp_all
  then have "mo_kv (fold mem_write ws w) = mo_kv w" for ws by (induction ws arbitrary: w) simp_all
  then show ?thesis by (simp add: mem_commit_def)
qed

lemma sql_orders_distinct:
  "sql_select_order \<noteq> sql_cancel_order" "sql_select_order \<noteq> sql_count True" "sql_cancel_order \<noteq> sql_count True"
  by code_simp+

lemma order_err_not_no_rows:
  "err_pk \<noteq> no_rows" "err_range \<noteq> no_rows" "err_bad_uuid i \<noteq> no_rows" "err_statement \<noteq> no_rows"
  using err_not_no_rows by (simp_all add: err_pk_def err_range_def no_rows_def)

lemma countQuery_eq:
  "List_countQuery a = (if a = '''' then (sql_count False, []) else (sql_count True, [SStr a]))"
  by (simp add: List_countQuery_def sql_count_def)

lemma listQuery_eq:
  "List_listQuery a lmt off =
     (if a = '''' then (sql_list False, [SInt lmt, SInt off]) else (sql_list True, [SStr a, SInt lmt, SInt off]))"
  by (simp add: List_listQuery_def sql_list_def)

lemma mem_listed_newest: "newest_first (listed mem_uuid_in a (mem_db w)) (mem_listed a w)"
proof -
  have "set (AList.clearjunk (mo_orders w)) = {(u, r). map_of (AList.clearjunk (mo_orders w)) u = Some r}"
    using map_of_eq_Some_iff [OF distinct_clearjunk, of "mo_orders w"] by auto
  then have "set (AList.clearjunk (mo_orders w)) = {(u, r). map_of (mo_orders w) u = Some r}"
    by (simp only: map_of_clearjunk)
  moreover have "distinct (AList.clearjunk (mo_orders w))"
    using distinct_clearjunk [of "mo_orders w"] by (simp add: distinct_map)
  moreover have "sorted_wrt (\<lambda>x y. or_created (snd y) \<le> or_created (snd x)) (sort_key (\<lambda>x. - or_created (snd x)) xs)"
    for xs :: "(string \<times> order_row) list"
    using sorted_sort_key [of "\<lambda>x. - or_created (snd x)" xs] by (simp add: sorted_map)
  ultimately show ?thesis by (auto simp: newest_first_def mem_listed_def listed_def mem_db_def)
qed

lemma mem_stream_spec:
  "mem_stream lossy rows = (rs, e) \<Longrightarrow>
   \<exists>k. rs = take k rows \<and> (e = None \<longrightarrow> length rows \<le> k) \<and> (\<not> lossy \<longrightarrow> e = None)"
  by (auto simp: mem_stream_def split: if_splits intro: exI [of _ 1] exI [of _ "length rows"])

lemma mem_pg_orders: "pg_orders (mem_orders_pgx lossy) mem_uuid_in mem_numeric mem_db mem_pend lossy"
proof
  show "(mem_uuid_in i = None \<and> rows = [] \<and> rerr \<noteq> None) \<or>
      (\<exists>u its. mem_uuid_in i = Some u \<and> rows = map item_cols its \<and> mset its \<subseteq># od_items (mem_db w) u \<and>
        (rerr = None \<longrightarrow> mset its = od_items (mem_db w) u) \<and> (\<not> lossy \<longrightarrow> rerr = None))"
    if run: "pool_Query (mem_orders_pgx lossy) p c sql_select_items [SStr i] w = (Inr (rows, rerr), w')" for p c i w w' rows rerr
  proof (cases "mem_uuid_in i")
    case None
    with run show ?thesis by (auto simp: mem_orders_pgx_defs mem_select_items_def)
  next
    case u': (Some u)
    from run u' have u: "mem_uuid_in i = Some u"
      "mem_stream lossy (map item_cols (map snd (filter (\<lambda>x. fst x = u) (mo_items w)))) = (rows, rerr)"
      by (auto simp: mem_orders_pgx_defs mem_select_items_def split: option.splits)
    let ?its = "map snd (filter (\<lambda>x. fst x = u) (mo_items w))"
    from mem_stream_spec [OF u(2)] obtain k where
      k: "rows = take k (map item_cols ?its)" "rerr = None \<longrightarrow> length ?its \<le> k" "\<not> lossy \<longrightarrow> rerr = None" by auto
    have "mset (take k ?its) \<subseteq># mset ?its"
      by (metis append_take_drop_id mset_append mset_subset_eq_add_left)
    with u k show ?thesis
      by (intro disjI2 exI [of _ u] exI [of _ "take k ?its"]) (auto simp: mem_db_def take_map)
  qed
  show "(rows = [] \<and> rerr \<noteq> None \<and> (sint lmt < 0 \<or> sint off < 0 \<or> a \<noteq> '''' \<and> mem_uuid_in a = None)) \<or>
      (0 \<le> sint lmt \<and> 0 \<le> sint off \<and> (a = '''' \<or> mem_uuid_in a \<noteq> None) \<and>
       (\<exists>xs k. newest_first (listed mem_uuid_in a (mem_db w)) xs \<and>
         rows = map list_cols (take k (take (nat (sint lmt)) (drop (nat (sint off)) xs))) \<and>
         (rerr = None \<longrightarrow> nat (sint lmt) \<le> k) \<and> (\<not> lossy \<longrightarrow> rerr = None)))"
    if q: "List_listQuery a lmt off = (q1, args)"
      and run: "pool_Query (mem_orders_pgx lossy) p c q1 args w = (Inr (rows, rerr), w')" for a lmt off q1 args p c w w' rows rerr
  proof (cases "sint lmt < 0 \<or> sint off < 0 \<or> a \<noteq> '''' \<and> mem_uuid_in a = None")
    case True
    with run q show ?thesis by (auto simp: mem_orders_pgx_defs listQuery_eq mem_list_def split: if_splits)
  next
    case False
    let ?xs = "take (nat (sint lmt)) (drop (nat (sint off)) (mem_listed a w))"
    from run q False have s: "mem_stream lossy (map list_cols ?xs) = (rows, rerr)" "0 \<le> sint lmt" "0 \<le> sint off"
        "a = '''' \<or> mem_uuid_in a \<noteq> None"
      by (auto simp: mem_orders_pgx_defs listQuery_eq mem_list_def split: if_splits)
    from mem_stream_spec [OF s(1)] obtain k where
      k: "rows = take k (map list_cols ?xs)" "rerr = None \<longrightarrow> length ?xs \<le> k" "\<not> lossy \<longrightarrow> rerr = None" by auto
    show ?thesis
    proof (cases "rerr = None")
      case True
      with k have "rows = map list_cols (take (nat (sint lmt)) ?xs)" by simp
      with s k True mem_listed_newest show ?thesis by blast
    next
      case False
      with s k mem_listed_newest [of a w] show ?thesis
        by (intro disjI2 conjI exI [of _ "mem_listed a w"] exI [of _ k] s(4)) (auto simp: take_map)
    qed
  qed
  show "(a = '''' \<or> mem_uuid_in a \<noteq> None) \<and> finite (listed mem_uuid_in a (mem_db w)) \<and>
      (\<exists>m. rw = [SInt m] \<and> sint m = int (card (listed mem_uuid_in a (mem_db w))))"
    if q: "List_countQuery a = (q1, args)"
      and run: "pool_QueryRow (mem_orders_pgx lossy) p c q1 args w = (Inr rw, w')" for a q1 args p c w rw w'
  proof -
    have "set (mem_listed a w) = listed mem_uuid_in a (mem_db w)" "distinct (mem_listed a w)"
      using mem_listed_newest [of a w] by (simp_all add: newest_first_def)
    then have "finite (listed mem_uuid_in a (mem_db w))" "card (listed mem_uuid_in a (mem_db w)) = length (mem_listed a w)"
      using distinct_card by (metis List.finite_set, metis)
    moreover from run q have "rw = [SInt (of_int (int (length (mem_listed a w))))]" "int (length (mem_listed a w)) < 2147483648"
      "a = '''' \<or> mem_uuid_in a \<noteq> None"
      using sql_orders_distinct
      by (auto simp: mem_orders_pgx_defs countQuery_eq mem_count_def Let_def split: if_splits)
    moreover have "sint (of_int (int (length (mem_listed a w))) :: int32) = int (length (mem_listed a w))"
      using calculation(4) by (intro sint32_of_int) simp_all
    ultimately show ?thesis by (simp only:) blast
  qed
  show "mem_db w' = mem_db w" if "tx_QueryRow (mem_orders_pgx lossy) t c sql_insert_order args w = (Inl err, w')" for t c args w err w'
    using that mo_tx_frame [of t c sql_insert_order args w] by (simp add: mem_orders_pgx_defs)
  show "mem_db w' = mem_db w" if "tx_Exec (mem_orders_pgx lossy) t c sql_insert_item args w = (Inl err, w')" for t c args w err w'
    using that mo_tx_Exec_frame [of t c sql_insert_item args w] by (simp add: mem_orders_pgx_defs)
qed (use sql_orders_distinct order_err_not_no_rows in
  \<open>auto simp: mem_orders_pgx_defs mem_db_commit mem_db_orders mem_db_cancel countQuery_eq listQuery_eq
     mem_insert_order_def mem_insert_item_def mem_select_order_def mem_cancel_order_def mem_count_def mem_list_def
     mem_select_items_def Let_def split: option.splits if_splits\<close>)

lemma mem_order_cache: "order_cache (mem_redis readonly) mem_kv mem_json"
  by unfold_locales
     (auto simp: mem_redis_defs mem_kv_def update_conv' delete_conv' mem_json.decode_encode split: option.splits if_splits)

lemma mem_order_backend: "order_backend (mem_env readonly lossy) mem_uuid_in mem_numeric mem_db mem_pend lossy mem_kv"
proof (intro order_backend.intro order_backend_axioms.intro)
  show "pg_orders (env_drv (mem_env readonly lossy)) mem_uuid_in mem_numeric mem_db mem_pend lossy"
    by (simp add: mem_env_defs mem_pg_orders)
  show "order_cache (env_red (mem_env readonly lossy)) mem_kv (env_js (mem_env readonly lossy))"
    by (simp add: mem_env_defs mem_order_cache)
qed (auto simp: mem_env_defs mem_redis_defs mem_orders_pgx_defs mem_kv_def mo_tx_frame mo_tx_Exec_frame mo_QueryRow_kv
      mo_Query_keeps split: if_splits)

lemma mem_order_world: "order_world (mem_env readonly lossy) mem_uuid_in mem_numeric mem_db mem_pend lossy mem_kv mem_conn"
proof (intro order_world.intro order_world_axioms.intro)
  show "order_backend (mem_env readonly lossy) mem_uuid_in mem_numeric mem_db mem_pend lossy mem_kv"
    by (rule mem_order_backend)
qed (auto simp: mem_conn_defs mem_kv_def split: prod.splits sum.splits)

interpretation mem_conn: code_names mem_conn
proof
  show "code_String mem_conn cd = ''NotFound'' \<longleftrightarrow> cd = NotFound" for cd
    by (cases cd) (simp_all add: mem_conn_defs)
qed

interpretation mo: order_world "mem_env False False" mem_uuid_in mem_numeric mem_db mem_pend False mem_kv mem_conn
  by (rule mem_order_world)

interpretation mos: order_system "mem_env False False" mem_uuid_in mem_numeric mem_db mem_pend False mem_kv mem_conn
proof
  show "fst (redis_Del (env_red (mem_env False False)) rp c k w) = None" for rp c k w
    by (simp add: mem_env_defs mem_redis_defs)
  show "mem_db w' = mem_db w"
    if "pool_QueryRow (env_drv (mem_env False False)) p c sql_cancel_order [SStr i] w = (Inl err, w')" for p c i w err w'
    using that sql_orders_distinct
    by (auto simp: mem_env_defs mem_orders_pgx_defs mem_cancel_order_def split: option.splits)
qed

end
