(* ===== verification/OrderProps.thy ===== *)
theory OrderProps
  imports MemOrders UserProps
begin

text \<open>
  The properties of the order service, each over every environment that keeps the promises of its
  locale, or over every environment whatsoever, with witnesses on the in-memory backend.
\<close>

section \<open>The worlds and requests of the witnesses\<close>

definition mem_order_server :: OrderServiceServer where
  "mem_order_server = NewOrderServiceServer (NewOrderRepository (Some 1) (Some 1))"

definition shop :: mem_orders where
  "shop = \<lparr>mo_orders = [], mo_items = [], mo_pend = [], mo_next_tx = 1, mo_clock = 1, mo_ids = 7,
     mo_kv = [], mo_users = ada_world\<rparr>"

definition an_item :: "string \<Rightarrow> int32 \<Rightarrow> rat \<Rightarrow> OrderItem" where
  "an_item pid q x = \<lparr>OrderItem_ProductId = pid, OrderItem_ProductName = pid, OrderItem_Quantity = q,
     OrderItem_UnitPrice = Fin False x\<rparr>"

definition an_order :: CreateOrderRequest where
  "an_order = \<lparr>CreateOrderRequest_UserId = '' '' @ mem_uuid 1,
     CreateOrderRequest_Items = [Some (an_item ''pen'' 3 2), Some (an_item ''ink'' 1 5)]\<rparr>"

definition shop1 :: mem_orders where
  "shop1 = snd (CreateOrder (mem_env False False) mem_conn mem_order_server Background an_order shop)"


abbreviation get_req :: "string \<Rightarrow> GetOrderRequest" where
  "get_req i \<equiv> \<lparr>GetOrderRequest_Id = i\<rparr>"

abbreviation cancel_req :: "string \<Rightarrow> CancelOrderRequest" where
  "cancel_req i \<equiv> \<lparr>CancelOrderRequest_Id = i\<rparr>"

text \<open>The order of the witnesses as the store shows it, with a given status.\<close>

definition shown_order :: "OrderStatus \<Rightarrow> Order" where
  "shown_order st =
     \<lparr>Order_Id = mem_uuid 7, Order_UserId = mem_uuid 1,
      Order_Items = [Some (an_item ''ink'' 1 5), Some (an_item ''pen'' 3 2)],
      Order_Total = Fin False 11, Order_Status = st, Order_CreatedAt = Some (timestamppb_New 1)\<rparr>"

section \<open>Helper lemmas\<close>

lemma order_inv_empty: "m = Map.empty \<Longrightarrow> order_inv lossy js uuid_in d m"
  by (simp add: order_inv_def coherent_def canonical_cache_def cached_def)

lemma shop1_inv: "order_inv False (env_js (mem_env False False)) mem_uuid_in (mem_db shop1) (mem_kv shop1)"
proof -
  have "mo_kv shop1 = []" by code_simp
  then show ?thesis by (intro order_inv_empty) (simp add: mem_kv_def)
qed

lemma GetOrder_reply:
  "OrderService_dispatch env conn s c (CallGetOrder req) w = (Done (Inr (ReplyGetOrder resp)), w') \<longleftrightarrow>
   GetOrder env s c req w = (Inr resp, w')"
  by (cases "GetOrder env s c req w"; cases "fst (GetOrder env s c req w)") auto

section \<open>Properties\<close>

text \<open>
  (C8) The order service refines its abstract specification: in every environment that keeps the
  promises of \<open>order_world\<close>, from a coherent cache, whatever a handler answers and whatever it leaves
  in the store is what \<open>order_spec\<close> permits for that call, on every branch, panics included.
\<close>

theorem order_service_refines:
  assumes "order_world env uuid_in numeric db pend lossy kv conn"
    and "coherent lossy (env_js env) uuid_in (db w) (kv w)"
    and "OrderService_dispatch env conn s c call w = (reply, w')"
  shows "order_spec lossy uuid_in numeric (db w) call reply (db w')"
  using order_world.order_dispatch_refines [OF assms(1,3,2)] .

theorem order_service_refines_witness:
  "OrderService_dispatch (mem_env False False) mem_conn mem_order_server Background (CallGetOrder (get_req (mem_uuid 7))) shop1 =
     (Done (Inr (ReplyGetOrder \<lparr>GetOrderResponse_Order = Some (shown_order ORDER_STATUS_PENDING)\<rparr>)),
      snd (GetOrder (mem_env False False) mem_order_server Background (get_req (mem_uuid 7)) shop1)) \<and>
   order_spec False mem_uuid_in mem_numeric (mem_db shop1) (CallGetOrder (get_req (mem_uuid 7)))
     (Done (Inr (ReplyGetOrder \<lparr>GetOrderResponse_Order = Some (shown_order ORDER_STATUS_PENDING)\<rparr>)))
     (mem_db (snd (GetOrder (mem_env False False) mem_order_server Background (get_req (mem_uuid 7)) shop1)))"
proof -
  have "fst (GetOrder (mem_env False False) mem_order_server Background (get_req (mem_uuid 7)) shop1) =
      Inr \<lparr>GetOrderResponse_Order = Some (shown_order ORDER_STATUS_PENDING)\<rparr>"
    by code_simp
  then have run: "OrderService_dispatch (mem_env False False) mem_conn mem_order_server Background
     (CallGetOrder (get_req (mem_uuid 7))) shop1 =
     (Done (Inr (ReplyGetOrder \<lparr>GetOrderResponse_Order = Some (shown_order ORDER_STATUS_PENDING)\<rparr>)),
      snd (GetOrder (mem_env False False) mem_order_server Background (get_req (mem_uuid 7)) shop1))"
    unfolding GetOrder_reply by (metis prod.collapse)
  have "coherent False (env_js (mem_env False False)) mem_uuid_in (mem_db shop1) (mem_kv shop1)"
    using shop1_inv by (simp add: order_inv_def)
  from order_service_refines [OF mo.order_world_axioms this run] run show ?thesis by blast
qed

text \<open>
  (C9) Reads through the cache are never stale in a reliable system: start from a coherent cache, run
  any sequence of calls (with canonical identifiers, Redis carrying out every invalidation, failed
  updates leaving nothing behind), and whatever \<open>GetOrder\<close> then answers is what the database holds at
  that moment, all items, status and total included.
\<close>

theorem order_reads_current:
  assumes "order_system env uuid_in numeric db pend lossy kv conn"
    and "OrderRepository_rdb (OrderServiceServer_repo s) \<noteq> None"
    and "order_inv lossy (env_js env) uuid_in (db w) (kv w)"
    and "\<forall>x \<in> set calls. canonical_call uuid_in (snd x)"
    and "GetOrder env s c req (OrderService_run env conn s calls w) = (Inr \<lparr>GetOrderResponse_Order = Some order\<rparr>, w')"
  shows "shows_order lossy uuid_in (db (OrderService_run env conn s calls w)) (GetOrderRequest_Id req) order"
  using order_system.GetOrder_current [OF assms] .

theorem order_reads_current_witness:
  "shows_order False mem_uuid_in
     (mem_db (OrderService_run (mem_env False False) mem_conn mem_order_server
        [(Background, CallGetOrder (get_req (mem_uuid 7))), (Background, CallCancelOrder (cancel_req (mem_uuid 7)))] shop1))
     (mem_uuid 7) (shown_order ORDER_STATUS_CANCELLED)"
proof -
  let ?calls = "[(Background, CallGetOrder (get_req (mem_uuid 7))), (Background, CallCancelOrder (cancel_req (mem_uuid 7)))]"
  let ?w = "OrderService_run (mem_env False False) mem_conn mem_order_server ?calls shop1"
  let ?g = "GetOrder (mem_env False False) mem_order_server Background (get_req (mem_uuid 7)) ?w"
  have "fst ?g = Inr \<lparr>GetOrderResponse_Order = Some (shown_order ORDER_STATUS_CANCELLED)\<rparr>" by code_simp
  then have g: "?g = (Inr \<lparr>GetOrderResponse_Order = Some (shown_order ORDER_STATUS_CANCELLED)\<rparr>, snd ?g)" by (metis prod.collapse)
  have "OrderRepository_rdb (OrderServiceServer_repo mem_order_server) \<noteq> None" by code_simp
  moreover have "\<forall>x \<in> set ?calls. canonical_call mem_uuid_in (snd x)" by simp
  ultimately show ?thesis using order_reads_current [OF mos.order_system_axioms _ shop1_inv _ g] by simp
qed

text \<open>
  (C16) Order creation is all or nothing: whatever fails and wherever, afterwards the store holds
  either exactly what it held before, or in addition one new order with every one of its items. A
  success reply means the latter, and shows that order. A panic or a rejection leaves the store alone.
\<close>

theorem create_order_atomic:
  assumes "order_world env uuid_in numeric db pend lossy kv conn"
    and "CreateOrder env conn s c req w = (res, w')"
  shows "(db w' = db w \<and> (\<forall>resp. res \<noteq> Done (Inr resp))) \<or>
    (\<exists>i its t. CreateOrderRequest_Items req = map Some its \<and>
       order_created uuid_in numeric i (TrimSpace (CreateOrderRequest_UserId req)) its t (db w) (db w') \<and>
       (res = Done (Inl (Status Internal ''failed to create order'')) \<or>
        res = Done (Inr \<lparr>CreateOrderResponse_Order =
          Some (created_order i (TrimSpace (CreateOrderRequest_UserId req)) its t)\<rparr>)))"
proof -
  note spec = order_world.CreateOrder_refines [OF assms]
  consider (panic) "res = Panicked" | (error) st where "res = Done (Inl st)" | (ok) resp where "res = Done (Inr resp)"
    by (metis outcome.exhaust sum.exhaust)
  then show ?thesis
  proof cases
    case panic
    with spec show ?thesis by (auto elim: order_spec_createE)
  next
    case error
    with spec show ?thesis by simp (erule order_spec_createE; auto)
  next
    case ok
    with spec show ?thesis by simp (erule order_spec_createE; auto)
  qed
qed

theorem create_order_atomic_witness:
  "\<exists>i its t. CreateOrderRequest_Items an_order = map Some its \<and>
     order_created mem_uuid_in mem_numeric i (mem_uuid 1) its t (mem_db shop) (mem_db shop1)"
proof -
  let ?c = "CreateOrder (mem_env False False) mem_conn mem_order_server Background an_order shop"
  have "?c = (fst ?c, shop1)" by (simp add: shop1_def)
  note a = create_order_atomic [OF mo.order_world_axioms this]
  have "od_orders (mem_db shop1) (mem_uuid 7) \<noteq> None" unfolding mem_db_orders by code_simp
  moreover have "od_orders (mem_db shop) (mem_uuid 7) = None" unfolding mem_db_orders by code_simp
  ultimately have "mem_db shop1 \<noteq> mem_db shop" by metis
  moreover have "TrimSpace (CreateOrderRequest_UserId an_order) = mem_uuid 1" by code_simp
  ultimately show ?thesis using a by auto
qed

text \<open>
  (C17) No order is written for a user that the user service does not vouch for: when the lookup
  fails or finds nobody, the handler answers Internal or NotFound, and has called nothing else, so
  that in every environment the world is as the lookup left it.
\<close>

theorem create_order_needs_user:
  assumes "valid_order req"
    and "UserClient_GetUser conn c (TrimSpace (CreateOrderRequest_UserId req)) w = (q, w1)"
    and "\<forall>user. q \<noteq> Inr (Some user)"
  shows "CreateOrder env conn s c req w =
    (Done (Inl (case q of Inl _ \<Rightarrow> Status Internal ''failed to verify user'' | Inr _ \<Rightarrow> Status NotFound ''user not found'')), w1)"
  using assms by (cases q rule: sum_option_cases) (simp_all add: CreateOrder_valid)

definition ghost_order :: CreateOrderRequest where
  "ghost_order = an_order\<lparr>CreateOrderRequest_UserId := mem_uuid 2\<rparr>"

theorem create_order_needs_user_witness:
  "fst (CreateOrder (mem_env False False) mem_conn mem_order_server Background ghost_order shop) =
     Done (Inl (Status NotFound ''user not found''))"
proof -
  let ?u = "UserClient_GetUser mem_conn Background (TrimSpace (CreateOrderRequest_UserId ghost_order)) shop"
  have v: "valid_order ghost_order"
    unfolding valid_order_def CreateOrder_items_None [of 0, symmetric] by (intro conjI) code_simp+
  have f: "fst ?u = Inr None" by code_simp
  then have "?u = (Inr None, snd ?u)" by (metis prod.collapse)
  from create_order_needs_user [OF v this, of "mem_env False False" mem_order_server] show ?thesis by simp
qed

text \<open>
  (C18) Validation names the first item that is wrong: the items before it are fine, the status is
  InvalidArgument with the item's index and its first fault (product, quantity, price, in this order),
  and nothing has been called.
\<close>

theorem create_order_first_bad_item:
  assumes "TrimSpace (CreateOrderRequest_UserId req) \<noteq> ''''"
    and "CreateOrderRequest_Items req = map Some its @ Some it # rest"
    and "\<forall>x \<in> set its. item_error x = None" "item_error it = Some msg"
  shows "CreateOrder env conn s c req w =
    (Done (Inl (Status InvalidArgument (''items['' @ dec_nat (length its) @ ''].'' @ msg))), w)"
  using assms(1) CreateOrder_items_bad [OF assms(3,4), of 0 rest]
  unfolding CreateOrder_def Let_def assms(2) by simp

theorem create_order_first_bad_item_witness:
  "CreateOrder (mem_env False False) mem_conn mem_order_server Background
     \<lparr>CreateOrderRequest_UserId = ''u'', CreateOrderRequest_Items = [Some (an_item ''pen'' 3 2), Some (an_item ''ink'' 0 5), None]\<rparr> shop =
   (Done (Inl (Status InvalidArgument ''items[1].quantity must be positive'')), shop)"
proof -
  let ?req = "\<lparr>CreateOrderRequest_UserId = ''u'',
    CreateOrderRequest_Items = [Some (an_item ''pen'' 3 2), Some (an_item ''ink'' 0 5), None]\<rparr>"
  have "TrimSpace (CreateOrderRequest_UserId ?req) \<noteq> ''''" by code_simp
  moreover have "CreateOrderRequest_Items ?req = map Some [an_item ''pen'' 3 2] @ Some (an_item ''ink'' 0 5) # [None]" by simp
  moreover have "item_error (an_item ''pen'' 3 2) = None" "item_error (an_item ''ink'' 0 5) = Some ''quantity must be positive''"
    by code_simp+
  ultimately have "CreateOrder (mem_env False False) mem_conn mem_order_server Background ?req shop =
    (Done (Inl (Status InvalidArgument (''items['' @ dec_nat (length [an_item ''pen'' 3 2]) @ ''].'' @ ''quantity must be positive''))), shop)"
    by (intro create_order_first_bad_item) simp_all
  moreover have "''items['' @ dec_nat (length [an_item ''pen'' 3 2]) @ ''].'' @ ''quantity must be positive'' =
    ''items[1].quantity must be positive''" by code_simp
  ultimately show ?thesis by simp
qed

lemma item_amount_exact:
  assumes "0 \<le> q" "q < 2 ^ 31" "0 \<le> p" "q * p < 2 ^ 53"
  shows "fmul (float_of_int q) (Fin False (of_int p)) = Fin False (of_int (q * p))"
proof -
  have "float_of_int q = Fin False (of_int q)" using float_of_int_exact [of q] assms by simp
  moreover have "round64 False (of_int (q * p)) = Fin False (of_int (q * p))" using assms by (intro round64_int) simp_all
  ultimately show ?thesis by simp
qed

lemma order_total_acc:
  assumes "\<forall>it \<in> set its. 0 \<le> sint (OrderItem_Quantity it) \<and> 0 \<le> price it \<and> OrderItem_UnitPrice it = Fin False (of_int (price it))"
  shows "0 \<le> a \<Longrightarrow> a + (\<Sum>it\<leftarrow>its. sint (OrderItem_Quantity it) * price it) < 2 ^ 53 \<Longrightarrow>
    foldl (\<lambda>t it. fadd t (fmul (float_of_int (sint (OrderItem_Quantity it))) (OrderItem_UnitPrice it))) (Fin False (of_int a)) its =
      Fin False (of_int (a + (\<Sum>it\<leftarrow>its. sint (OrderItem_Quantity it) * price it)))"
  using assms
proof (induction its arbitrary: a)
  case (Cons it its)
  let ?q = "sint (OrderItem_Quantity it)"
  have rest: "0 \<le> (\<Sum>it\<leftarrow>its. sint (OrderItem_Quantity it) * price it)"
    using Cons.prems(3) by (intro sum_list_nonneg) auto
  have p: "0 \<le> ?q" "0 \<le> price it" "0 \<le> ?q * price it" using Cons.prems(3) by simp_all
  with Cons.prems rest have lt: "?q * price it < 2 ^ 53" "a + ?q * price it < 2 ^ 53" by simp_all
  have "fmul (float_of_int ?q) (OrderItem_UnitPrice it) = Fin False (of_int (?q * price it))"
    using item_amount_exact [of ?q "price it"] p lt(1) sint32_range [of "OrderItem_Quantity it"] Cons.prems(3) by simp
  moreover have "fadd (Fin False (of_int a)) (Fin False (of_int (?q * price it))) = Fin False (of_int (a + ?q * price it))"
    using fadd_fin_pos [of "of_int a" "of_int (?q * price it)"] round64_int [OF _ lt(2), of False] p Cons.prems(1)
    by (simp add: of_int_add [symmetric] del: of_int_add of_int_mult)
  ultimately show ?case using Cons.IH [of "a + ?q * price it"] Cons.prems p by (simp add: add.assoc)
qed simp

text \<open>
  (C19) The total of an order is exact when prices are whole numbers and the sum stays below
  \<open>2\<^sup>5\<^sup>3\<close>: no rounding error creeps into the floating-point sum.
\<close>

theorem order_total_exact:
  assumes "\<forall>it \<in> set its. 0 \<le> sint (OrderItem_Quantity it) \<and> 0 \<le> price it \<and> OrderItem_UnitPrice it = Fin False (of_int (price it))"
    and "(\<Sum>it\<leftarrow>its. sint (OrderItem_Quantity it) * price it) < 2 ^ 53"
  shows "Create_total (map Some its) fzero = Done (Fin False (of_int (\<Sum>it\<leftarrow>its. sint (OrderItem_Quantity it) * price it)))"
  using order_total_acc [OF assms(1), of 0] assms(2) by (simp add: Create_total_map)

theorem order_total_exact_witness:
  "Create_total (map Some [an_item ''pen'' 3 2, an_item ''ink'' 1 5]) fzero = Done (Fin False 11)"
  using order_total_exact [of "[an_item ''pen'' 3 2, an_item ''ink'' 1 5]" "\<lambda>it. if OrderItem_ProductId it = ''pen'' then 2 else 5"]
  by (simp add: an_item_def)

lemma float_of_int_nonneg: "0 \<le> n \<Longrightarrow> not_negative (float_of_int n) \<and> wf64 (float_of_int n)"
  by (auto simp: float_of_int_def intro!: not_negative_round64)

lemma order_total_not_negative:
  assumes "\<forall>it \<in> set its. item_error it = None \<and> wf64 (OrderItem_UnitPrice it)"
  shows "not_negative t \<Longrightarrow> not_negative (foldl (\<lambda>t it. fadd t
    (fmul (float_of_int (sint (OrderItem_Quantity it))) (OrderItem_UnitPrice it))) t its)"
  using assms
proof (induction its arbitrary: t)
  case (Cons it its)
  have q: "0 < sint (OrderItem_Quantity it)" "not_negative (OrderItem_UnitPrice it)"
    using Cons.prems(2) not_flt_zero by (auto simp: item_error_def split: if_splits)
  note float_of_int_nonneg [OF less_imp_le [OF q(1)]]
  with q Cons.prems have "not_negative (fmul (float_of_int (sint (OrderItem_Quantity it))) (OrderItem_UnitPrice it))"
    by (intro fmul_not_negative) simp_all
  with Cons show ?case by (simp add: fadd_not_negative)
qed simp

text \<open>
  (C20) The total of an accepted order is never negative: for all prices and quantities that pass
  validation, overflow to infinity and rounding included, the computed total is at least zero or NaN.
\<close>

theorem accepted_total_not_negative:
  assumes "\<forall>it \<in> set its. item_error it = None \<and> wf64 (OrderItem_UnitPrice it)"
  shows "\<exists>t. Create_total (map Some its) fzero = Done t \<and> not_negative t"
  using order_total_not_negative [OF assms, of fzero] by (simp add: Create_total_map)

theorem accepted_total_not_negative_witness:
  "\<exists>t. Create_total (map Some [an_item ''pen'' 3 (1/2)]) fzero = Done t \<and> not_negative t"
proof -
  have "item_error (an_item ''pen'' 3 (1/2)) = None" by code_simp
  moreover have "wf64 (OrderItem_UnitPrice (an_item ''pen'' 3 (1/2)))" by (simp add: an_item_def)
  ultimately show ?thesis by (intro accepted_total_not_negative) simp
qed

lemma fadd_NaN: "fadd NaN x = NaN" "fadd x NaN = NaN"
  by (cases x; simp)+

lemma fmul_NaN: "fmul x NaN = NaN"
  by (cases x) simp_all

lemma order_total_NaN:
  "foldl (\<lambda>t it. fadd t (fmul (float_of_int (sint (OrderItem_Quantity it))) (OrderItem_UnitPrice it))) NaN its = NaN"
  by (induction its) (simp_all add: fadd_NaN)

text \<open>
  A price that is not a number passes validation: an item with a NaN price, a product and a
  positive quantity is accepted, and any order that contains a NaN price has a NaN total.
\<close>

theorem nan_price_accepted:
  assumes "OrderItem_UnitPrice it = NaN" "OrderItem_ProductId it \<noteq> ''''" "0 < sint (OrderItem_Quantity it)"
  shows "CreateOrder_items i [Some it] = Done None \<and> Create_total (map Some (its @ it # rest)) fzero = Done NaN"
proof -
  have "CreateOrder_items i [Some it] = Done None" using assms by simp
  moreover have "Create_total (map Some (its @ it # rest)) fzero = Done NaN"
    unfolding Create_total_map foldl_append using assms(1) by (simp add: fmul_NaN fadd_NaN order_total_NaN)
  ultimately show ?thesis ..
qed

theorem nan_price_accepted_witness:
  "CreateOrder_items 0 [Some ((an_item ''pen'' 3 2)\<lparr>OrderItem_UnitPrice := NaN\<rparr>)] = Done None \<and>
   Create_total (map Some [an_item ''ink'' 1 5, (an_item ''pen'' 3 2)\<lparr>OrderItem_UnitPrice := NaN\<rparr>]) fzero = Done NaN"
  using nan_price_accepted [of "(an_item ''pen'' 3 2)\<lparr>OrderItem_UnitPrice := NaN\<rparr>" 0 "[an_item ''ink'' 1 5]" "[]"]
  by (simp add: an_item_def)

text \<open>
  (C21) Cancelling: a successful \<open>CancelOrder\<close> sets the status of exactly the named order to CANCELLED,
  whatever its status was (a delivered order included), keeps everything else of it and every other
  order, and answers with the order as it now is. A second call, with whatever outcome, changes nothing
  more, and unless a call of the database fails it answers with the cancelled order again.
\<close>

theorem cancel_order_effect:
  assumes "order_world env uuid_in numeric db pend lossy kv conn"
    and "CancelOrder env s c req w = (Inr \<lparr>CancelOrderResponse_Order = Some order\<rparr>, w')"
  shows "(\<exists>u r. uuid_in (CancelOrderRequest_Id req) = Some u \<and> od_orders (db w) u = Some r \<and>
      od_orders (db w') = (od_orders (db w))(u \<mapsto> r\<lparr>or_status := ''CANCELLED''\<rparr>) \<and> od_items (db w') = od_items (db w) \<and>
      shows_order lossy uuid_in (db w') (CancelOrderRequest_Id req) order \<and>
      Order_Status order = ORDER_STATUS_CANCELLED) \<and>
    db (snd (CancelOrder env s c' req w')) = db w' \<and>
    (fst (CancelOrder env s c' req w') = Inl (Status Internal ''failed to cancel order'') \<or>
     (\<exists>order'. fst (CancelOrder env s c' req w') = Inr \<lparr>CancelOrderResponse_Order = Some order'\<rparr> \<and>
        shows_order lossy uuid_in (db w') (CancelOrderRequest_Id req) order' \<and>
        Order_Status order' = ORDER_STATUS_CANCELLED))"
proof -
  from order_world.CancelOrder_refines [OF assms(1,2)] obtain u where
    u: "uuid_in (CancelOrderRequest_Id req) = Some u" "od_orders (db w) u \<noteq> None" "db w' = order_cancelled u (db w)"
      "shows_order lossy uuid_in (db w') (CancelOrderRequest_Id req) order"
    by simp (erule order_spec_cancelE; auto)
  from u(2) obtain r where r: "od_orders (db w) u = Some r" by blast
  have cancelled: "Order_Status o' = ORDER_STATUS_CANCELLED"
    if "shows_order lossy uuid_in (db w') (CancelOrderRequest_Id req) o'" for o'
    using that u r by (auto simp: shows_order_def parseOrderStatus_def)
  with u r have first: "\<exists>u r. uuid_in (CancelOrderRequest_Id req) = Some u \<and> od_orders (db w) u = Some r \<and>
    od_orders (db w') = (od_orders (db w))(u \<mapsto> r\<lparr>or_status := ''CANCELLED''\<rparr>) \<and> od_items (db w') = od_items (db w) \<and>
    shows_order lossy uuid_in (db w') (CancelOrderRequest_Id req) order \<and>
    Order_Status order = ORDER_STATUS_CANCELLED"
    by (intro exI [of _ u] exI [of _ r]) (simp add: order_cancelled_def)
  have again: "order_cancelled u (db w') = db w'" "od_orders (db w') u \<noteq> None"
    using u r by simp_all
  have "CancelOrderRequest_Id req \<noteq> []" using assms(2) by (auto simp: CancelOrder_def)
  obtain res w'' where run: "CancelOrder env s c' req w' = (res, w'')" by fastforce
  have spec: "order_spec lossy uuid_in numeric (db w') (CallCancelOrder req) (Done (map_sum id ReplyCancelOrder res)) (db w'')"
    using order_world.CancelOrder_refines [OF assms(1) run] .
  have "db (snd (CancelOrder env s c' req w')) = db w' \<and>
    (fst (CancelOrder env s c' req w') = Inl (Status Internal ''failed to cancel order'') \<or>
     (\<exists>order'. fst (CancelOrder env s c' req w') = Inr \<lparr>CancelOrderResponse_Order = Some order'\<rparr> \<and>
        shows_order lossy uuid_in (db w') (CancelOrderRequest_Id req) order' \<and>
        Order_Status order' = ORDER_STATUS_CANCELLED))"
    unfolding run fst_conv snd_conv using spec
    by (rule order_spec_cancelE)
      (use again u(1) cancelled \<open>CancelOrderRequest_Id req \<noteq> []\<close> in \<open>cases res; auto\<close>)+
  with first show ?thesis by blast
qed

theorem cancel_order_effect_witness:
  "let x = CancelOrder (mem_env False False) mem_order_server Background (cancel_req (mem_uuid 7)) shop1 in
   (\<exists>u r. mem_uuid_in (mem_uuid 7) = Some u \<and> od_orders (mem_db shop1) u = Some r \<and>
      od_orders (mem_db (snd x)) = (od_orders (mem_db shop1))(u \<mapsto> r\<lparr>or_status := ''CANCELLED''\<rparr>)) \<and>
   mem_db (snd (CancelOrder (mem_env False False) mem_order_server Background (cancel_req (mem_uuid 7)) (snd x))) = mem_db (snd x)"
proof -
  let ?x = "CancelOrder (mem_env False False) mem_order_server Background (cancel_req (mem_uuid 7)) shop1"
  have "fst ?x = Inr \<lparr>CancelOrderResponse_Order = Some (shown_order ORDER_STATUS_CANCELLED)\<rparr>" by code_simp
  then have x: "?x = (Inr \<lparr>CancelOrderResponse_Order = Some (shown_order ORDER_STATUS_CANCELLED)\<rparr>, snd ?x)" by (metis prod.collapse)
  from cancel_order_effect [OF mo.order_world_axioms x, of Background] show ?thesis
    unfolding Let_def by (simp only: CancelOrderRequest.simps) blast
qed

section \<open>The cache going wrong\<close>

lemma getItems_rdb: "OrderRepository_getItems env (r\<lparr>OrderRepository_rdb := x\<rparr>) = OrderRepository_getItems env r"
  by (simp add: fun_eq_iff OrderRepository_getItems_def OrderRepository_getPool_def)

lemma getFromDB_rdb:
  "OrderRepository_getFromDB env (r\<lparr>OrderRepository_rdb := x\<rparr>) c i w = OrderRepository_getFromDB env r c i w"
  unfolding OrderRepository_getFromDB_def getItems_rdb OrderRepository_getPool_def by simp

text \<open>
  (C22) A Redis that fails is only a slower one: when every \<open>GET\<close> fails, \<open>GetOrder\<close> answers exactly what
  it would answer with no Redis configured, in every environment, whatever its \<open>SET\<close>s do.
\<close>

theorem cache_down_transparent:
  assumes "\<And>p k. \<exists>err. redis_Get (env_red env) p c k w = (RErr err, w)"
  shows "fst (GetOrder env s c req w) =
    fst (GetOrder env (s\<lparr>OrderServiceServer_repo := (OrderServiceServer_repo s)\<lparr>OrderRepository_rdb := None\<rparr>\<rparr>) c req w)"
proof -
  let ?r = "OrderServiceServer_repo s" and ?i = "GetOrderRequest_Id req"
  obtain err where err: "redis_Get (env_red env) (OrderCache_rdb (OrderRepository_cache ?r)) c (OrderCache_key ?i) w = (RErr err, w)"
    using assms by blast
  obtain q w' where q: "OrderRepository_getFromDB env ?r c ?i w = (q, w')" by fastforce
  have "fst (OrderRepository_Get env ?r c ?i w) = q"
    using q err by (cases q rule: sum_option_cases) (simp_all add: OrderRepository_Get_def OrderCache_Get_def)
  moreover have "fst (OrderRepository_Get env (?r\<lparr>OrderRepository_rdb := None\<rparr>) c ?i w) = q"
    using q by (cases q rule: sum_option_cases) (simp_all add: OrderRepository_Get_def getFromDB_rdb)
  ultimately show ?thesis
    by (cases "OrderRepository_Get env ?r c ?i w"; cases "OrderRepository_Get env (?r\<lparr>OrderRepository_rdb := None\<rparr>) c ?i w")
       (simp add: GetOrder_def split: sum.splits option.splits)
qed

definition mem_env_down :: "mem_orders order_env" where
  "mem_env_down = (mem_env False False)\<lparr>env_red := (mem_redis False)\<lparr>redis_Get := \<lambda>p c k w. (RErr ''down'', w)\<rparr>\<rparr>"

theorem cache_down_transparent_witness:
  "fst (GetOrder mem_env_down mem_order_server Background (get_req (mem_uuid 7)) shop1) =
   fst (GetOrder mem_env_down (mem_order_server\<lparr>OrderServiceServer_repo :=
     (OrderServiceServer_repo mem_order_server)\<lparr>OrderRepository_rdb := None\<rparr>\<rparr>) Background (get_req (mem_uuid 7)) shop1)"
  by (rule cache_down_transparent) (simp add: mem_env_down_def)

context order_world
begin

text \<open>What a read finds after a cancellation, when Redis serves what it holds and expires nothing.\<close>

lemma cancel_then_get:
  assumes rdb: "OrderRepository_rdb (OrderServiceServer_repo s) \<noteq> None"
    and row: "\<And>p c q a w. kv (snd (pool_QueryRow (env_drv env) p c q a w)) = kv w"
    and rows: "\<And>p c q a w. kv (snd (pool_Query (env_drv env) p c q a w)) = kv w"
    and live: "\<And>p c k w d. kv w k = Some d \<Longrightarrow> \<exists>w'. redis_Get (env_red env) p c k w = (RData d, w')"
    and del: "\<And>p c k w. if up then fst (redis_Del (env_red env) p c k w) = None
      else fst (redis_Del (env_red env) p c k w) \<noteq> None \<and> kv (snd (redis_Del (env_red env) p c k w)) = kv w"
    and old: "cached (env_js env) (kv w) i old"
    and cancel: "CancelOrder env s c (cancel_req i) w = (Inr resp, w1)"
    and get: "GetOrder env s c' (get_req i) w1 = (Inr \<lparr>GetOrderResponse_Order = Some order\<rparr>, w2)"
  shows "(\<exists>u r. uuid_in i = Some u \<and> od_orders (db w1) u = Some r \<and> or_status r = ''CANCELLED'') \<and>
    (if up then shows_order lossy uuid_in (db w1) i order \<and> Order_Status order = ORDER_STATUS_CANCELLED
     else order = old)"
proof -
  let ?r = "OrderServiceServer_repo s"
  let ?inv = "OrderCache_Invalidate (env_red env) (OrderRepository_cache ?r) c i"
  have i: "i \<noteq> []" using cancel by (auto simp: CancelOrder_def)
  obtain o1 where run: "OrderRepository_Cancel env ?r c i w = (Inr (Some o1), w1)"
    using cancel i by (auto simp: CancelOrder_def split: prod.splits sum.splits option.splits)
  obtain u row where u: "uuid_in i = Some u" "od_orders (db w1) u = Some (row\<lparr>or_status := ''CANCELLED''\<rparr>)"
    using Cancel_Some [OF run] by auto
  have shown: "Order_Status o' = ORDER_STATUS_CANCELLED" if "shows_order lossy uuid_in (db w1) i o'" for o'
    using that u by (auto simp: shows_order_def parseOrderStatus_def)
  obtain rw wa where q: "pool_QueryRow (env_drv env) (OrderRepository_getPool ?r) (OrderRepository_queryTimeout c)
      sql_cancel_order [SStr i] w = (Inr rw, wa)" and readback: "OrderRepository_getFromDB env ?r c i (?inv wa) = (Inr (Some o1), w1)"
    using run rdb by (auto simp: OrderRepository_Cancel_def Let_def split: prod.splits sum.splits option.splits if_splits)
  have "kv wa = kv w" using row [of "OrderRepository_getPool ?r" "OrderRepository_queryTimeout c" sql_cancel_order "[SStr i]" w] q
    by simp
  moreover have "kv (snd (OrderRepository_getFromDB env ?r c i v)) = kv v" for v
    by (simp add: OrderRepository_getFromDB_def OrderRepository_getItems_def Let_def case_prod_beta row rows
        split: sum.split option.split)
  ultimately have kv: "kv w1 = kv (?inv wa)" "kv wa = kv w" using readback by (metis snd_conv)+
  obtain res where g: "OrderRepository_Get env ?r c' i w1 = (res, w2)" and res: "res = Inr (Some order)"
    using get i by (auto simp: GetOrder_def split: prod.splits sum.splits option.splits)
  have "if up then shows_order lossy uuid_in (db w1) i order \<and> Order_Status order = ORDER_STATUS_CANCELLED
     else order = old"
  proof (cases up)
    case True
    then have none: "\<not> cached (env_js env) (kv w1) i order"
      using del ch.cache_Invalidate_done unfolding kv(1) by meson
    from g have "shows_order lossy uuid_in (db w1) i order"
    proof (cases rule: Get_cases)
      case (read v v')
      with getFromDB_Some res show ?thesis by metis
    qed (use none res in auto)
    with shown True show ?thesis by simp
  next
    case False
    then have "kv w1 = kv w" using del kv unfolding OrderCache_Invalidate_def by metis
    with old obtain d where d: "kv w1 (OrderCache_key i) = Some d" "protojson_Unmarshal (env_js env) d = Inr old"
      by (auto simp: cached_def)
    obtain v where "redis_Get (env_red env) (OrderCache_rdb (OrderRepository_cache ?r)) c' (OrderCache_key i) w1 = (RData d, v)"
      using live [OF d(1)] by blast
    with g res rdb d(2) False show ?thesis by (simp add: OrderRepository_Get_def OrderCache_Get_def)
  qed
  with u show ?thesis by auto
qed

end

text \<open>
  (C23) The invalidation decides: let an order be cached that is not cancelled, and let Redis serve its
  live entries and expire none meanwhile. After a successful \<open>CancelOrder\<close> the store has the order
  cancelled, and \<open>GetOrder\<close> answers with the order as stored if \<open>DEL\<close>s succeed, and with the old one
  if they fail (leaving the entries as they are), although both calls were answered with success.
\<close>

theorem failed_invalidation_serves_stale:
  assumes "order_world env uuid_in numeric db pend lossy kv conn"
    and "OrderRepository_rdb (OrderServiceServer_repo s) \<noteq> None"
    and "\<And>p c q a w. kv (snd (pool_QueryRow (env_drv env) p c q a w)) = kv w"
    and "\<And>p c q a w. kv (snd (pool_Query (env_drv env) p c q a w)) = kv w"
    and "\<And>p c k w d. kv w k = Some d \<Longrightarrow> \<exists>w'. redis_Get (env_red env) p c k w = (RData d, w')"
    and "\<And>p c k w. if up then fst (redis_Del (env_red env) p c k w) = None
      else fst (redis_Del (env_red env) p c k w) \<noteq> None \<and> kv (snd (redis_Del (env_red env) p c k w)) = kv w"
    and "cached (env_js env) (kv w) i old"
    and "CancelOrder env s c (cancel_req i) w = (Inr resp, w1)"
    and "GetOrder env s c' (get_req i) w1 = (Inr \<lparr>GetOrderResponse_Order = Some order\<rparr>, w2)"
  shows "(\<exists>u r. uuid_in i = Some u \<and> od_orders (db w1) u = Some r \<and> or_status r = ''CANCELLED'') \<and>
    (if up then shows_order lossy uuid_in (db w1) i order \<and> Order_Status order = ORDER_STATUS_CANCELLED
     else order = old)"
  using order_world.cancel_then_get [OF assms] .

definition cached_shop :: mem_orders where
  "cached_shop = snd (GetOrder (mem_env False False) mem_order_server Background (get_req (mem_uuid 7)) shop1)"

definition stale_shop :: mem_orders where
  "stale_shop = snd (CancelOrder (mem_env True False) mem_order_server Background (cancel_req (mem_uuid 7)) cached_shop)"

lemma cached_shop_old: "cached (env_js (mem_env readonly False)) (mem_kv cached_shop) (mem_uuid 7) (shown_order ORDER_STATUS_PENDING)"
proof -
  define data where "data = the (map_of (mo_kv cached_shop) (OrderCache_key (mem_uuid 7)))"
  have "map_of (mo_kv cached_shop) (OrderCache_key (mem_uuid 7)) \<noteq> None" by code_simp
  then have "mem_kv cached_shop (OrderCache_key (mem_uuid 7)) = Some data"
    by (auto simp: mem_kv_def data_def)
  moreover have "protojson_Unmarshal mem_json data = Inr (shown_order ORDER_STATUS_PENDING)"
    unfolding data_def by code_simp
  ultimately show ?thesis by (simp add: cached_def mem_env_def)
qed

theorem failed_invalidation_serves_stale_witness:
  "fst (GetOrder (mem_env True False) mem_order_server Background (get_req (mem_uuid 7)) stale_shop) =
     Inr \<lparr>GetOrderResponse_Order = Some (shown_order ORDER_STATUS_PENDING)\<rparr> \<and>
   (\<exists>u r. mem_uuid_in (mem_uuid 7) = Some u \<and> od_orders (mem_db stale_shop) u = Some r \<and> or_status r = ''CANCELLED'')"
proof -
  let ?x = "CancelOrder (mem_env True False) mem_order_server Background (cancel_req (mem_uuid 7)) cached_shop"
  let ?g = "GetOrder (mem_env True False) mem_order_server Background (get_req (mem_uuid 7)) stale_shop"
  have "fst ?x = Inr \<lparr>CancelOrderResponse_Order = Some (shown_order ORDER_STATUS_CANCELLED)\<rparr>" by code_simp
  then have x: "?x = (Inr \<lparr>CancelOrderResponse_Order = Some (shown_order ORDER_STATUS_CANCELLED)\<rparr>, stale_shop)"
    unfolding stale_shop_def by (metis prod.collapse)
  have "case fst ?g of Inr resp \<Rightarrow> GetOrderResponse_Order resp \<noteq> None | Inl st \<Rightarrow> False" by code_simp
  then obtain resp order where "fst ?g = Inr resp" "GetOrderResponse_Order resp = Some order"
    by (auto split: sum.splits)
  then have f: "fst ?g = Inr \<lparr>GetOrderResponse_Order = Some order\<rparr>" by (cases resp) simp
  then have g: "?g = (Inr \<lparr>GetOrderResponse_Order = Some order\<rparr>, snd ?g)" by (metis prod.collapse)
  have r: "OrderRepository_rdb (OrderServiceServer_repo mem_order_server) \<noteq> None" by code_simp
  have out: "(\<exists>u r. mem_uuid_in (mem_uuid 7) = Some u \<and> od_orders (mem_db stale_shop) u = Some r \<and> or_status r = ''CANCELLED'') \<and>
     (if False then shows_order False mem_uuid_in (mem_db stale_shop) (mem_uuid 7) order \<and>
        Order_Status order = ORDER_STATUS_CANCELLED else order = shown_order ORDER_STATUS_PENDING)"
    by (rule failed_invalidation_serves_stale [OF mem_order_world r _ _ _ _ cached_shop_old x g])
      (auto simp: mem_env_defs mem_redis_defs mem_orders_pgx_defs mem_kv_def mo_QueryRow_kv mo_Query_keeps)
  then have "order = shown_order ORDER_STATUS_PENDING" by simp
  with out f show ?thesis by blast
qed

definition shopA :: mem_orders where
  "shopA = snd (GetOrder (mem_env False False) mem_order_server Background (get_req (mem_uuid 10))
     (snd (CreateOrder (mem_env False False) mem_conn mem_order_server Background an_order (shop\<lparr>mo_ids := 10\<rparr>))))"

definition shopB :: mem_orders where
  "shopB = snd (CancelOrder (mem_env False False) mem_order_server Background
     (cancel_req ''00000000-0000-4000-8000-00000000000A'') shopA)"

text \<open>
  The cache key is the identifier as the client spells it, while PostgreSQL accepts any spelling of
  a UUID: after the order \<open>...00a\<close> was cancelled under the spelling \<open>...00A\<close>, the database holds it as
  cancelled and a read under the usual spelling still answers that it is pending.
\<close>

theorem respelled_cancel_serves_stale:
  "map_option or_status (od_orders (mem_db shopB) (mem_uuid 10)) = Some ''CANCELLED'' \<and>
   fst (GetOrder (mem_env False False) mem_order_server Background (get_req (mem_uuid 10)) shopB) =
     Inr \<lparr>GetOrderResponse_Order = Some ((shown_order ORDER_STATUS_PENDING)\<lparr>Order_Id := mem_uuid 10\<rparr>)\<rparr>"
proof
  show "map_option or_status (od_orders (mem_db shopB) (mem_uuid 10)) = Some ''CANCELLED''"
    unfolding mem_db_orders by code_simp
  show "fst (GetOrder (mem_env False False) mem_order_server Background (get_req (mem_uuid 10)) shopB) =
     Inr \<lparr>GetOrderResponse_Order = Some ((shown_order ORDER_STATUS_PENDING)\<lparr>Order_Id := mem_uuid 10\<rparr>)\<rparr>"
    by code_simp
qed

text \<open>A \<open>Get\<close> that has read the database before, and writes the cache after, a concurrent \<open>Cancel\<close>.\<close>

definition raced_shop :: mem_orders where
  "raced_shop =
     (let repo = OrderServiceServer_repo mem_order_server
      in case OrderRepository_getFromDB (mem_env False False) repo Background (mem_uuid 7) shop1 of
           (Inr (Some order), w1) \<Rightarrow>
             snd (OrderCache_Set (env_red (mem_env False False)) (env_js (mem_env False False)) (OrderRepository_cache repo)
               Background order
               (snd (CancelOrder (mem_env False False) mem_order_server Background (cancel_req (mem_uuid 7)) w1)))
         | (_, w1) \<Rightarrow> w1)"

text \<open>
  A read that races with a cancellation can undo its invalidation: when \<open>Get\<close> has read the row,
  \<open>Cancel\<close> runs to its end, and \<open>Get\<close> then writes the cache, every later read answers that the
  cancelled order is pending, with all parts of the system working.
\<close>

theorem get_cancel_race_stale:
  "map_option or_status (od_orders (mem_db raced_shop) (mem_uuid 7)) = Some ''CANCELLED'' \<and>
   fst (GetOrder (mem_env False False) mem_order_server Background (get_req (mem_uuid 7)) raced_shop) =
     Inr \<lparr>GetOrderResponse_Order = Some (shown_order ORDER_STATUS_PENDING)\<rparr>"
proof
  show "map_option or_status (od_orders (mem_db raced_shop) (mem_uuid 7)) = Some ''CANCELLED''"
    unfolding mem_db_orders by code_simp
  show "fst (GetOrder (mem_env False False) mem_order_server Background (get_req (mem_uuid 7)) raced_shop) =
     Inr \<lparr>GetOrderResponse_Order = Some (shown_order ORDER_STATUS_PENDING)\<rparr>"
    by code_simp
qed

text \<open>
  A broken row stream is taken for its end: \<open>rows.Err()\<close> is never looked at, so a \<open>GetOrder\<close> during
  which the connection drops after the first item answers successfully with that item only, and
  caches the truncated order, which later reads on a sound connection then answer with.
\<close>

theorem truncated_items_cached:
  "fst (GetOrder (mem_env False True) mem_order_server Background (get_req (mem_uuid 7)) shop1) =
     Inr \<lparr>GetOrderResponse_Order = Some ((shown_order ORDER_STATUS_PENDING)\<lparr>Order_Items := [Some (an_item ''ink'' 1 5)]\<rparr>)\<rparr> \<and>
   fst (GetOrder (mem_env False False) mem_order_server Background (get_req (mem_uuid 7))
     (snd (GetOrder (mem_env False True) mem_order_server Background (get_req (mem_uuid 7)) shop1))) =
     Inr \<lparr>GetOrderResponse_Order = Some ((shown_order ORDER_STATUS_PENDING)\<lparr>Order_Items := [Some (an_item ''ink'' 1 5)]\<rparr>)\<rparr>"
  by (intro conjI) code_simp+

section \<open>Listing\<close>

definition page_req :: "string \<Rightarrow> int \<Rightarrow> int \<Rightarrow> ListOrdersRequest" where
  "page_req a k sz = \<lparr>ListOrdersRequest_UserId = a,
     ListOrdersRequest_Pagination = Some \<lparr>Pagination_Page = word_of_int k, Pagination_PageSize = word_of_int sz\<rparr>\<rparr>"





definition three_orders :: mem_orders where
  "three_orders = shop\<lparr>mo_orders := map (\<lambda>k. (mem_uuid k, \<lparr>or_user = mem_uuid 1, or_status = ''PENDING'',
     or_total = Fin False 1, or_created = int k\<rparr>)) [1, 2, 3]\<rparr>"









text \<open>
  The offset wraps around: page 1073741825 of size 4 has the offset \<open>2\<^sup>3\<^sup>2\<close>, which is 0 in an int32,
  so a request far beyond the end is answered with the first page, and told whether there is a second.
\<close>

theorem list_offset_wraps:
  "page_of (page_req a 1073741825 4) xs = take 4 xs \<and> (has_more (page_req a 1073741825 4) n \<longleftrightarrow> 4 < n)"
proof -
  have "ListOrders_page (page_req a 1073741825 4) = (1073741825, 4)"
    by (simp add: ListOrders_page_def page_req_def)
  then show ?thesis by (simp add: page_of_def has_more_def List_clamp_def Let_def)
qed

lemma sint32_wrapped:
  assumes "2 ^ 31 \<le> x" "x < 2 ^ 32"
  shows "sint (word_of_int x :: int32) = x - 2 ^ 32"
proof -
  have "x mod 2 ^ 32 = (x - 2 ^ 32) mod 2 ^ 32" by (rule minus_mod_self2 [symmetric])
  then have e: "(word_of_int x :: int32) = word_of_int (x - 2 ^ 32)"
    by (simp add: word_of_int_eq_iff take_bit_eq_mod)
  have "sint (word_of_int (x - 2 ^ 32) :: int32) = x - 2 ^ 32"
    by (rule sint32_of_int) (use assms in simp_all)
  then show ?thesis unfolding e .
qed

text \<open>
  (C99) Far pages are empty and say that there is more: when the offset of a page is \<open>2\<^sup>3\<^sup>1\<close> or more (and
  the page ends below \<open>2\<^sup>3\<^sup>2\<close>), it wraps around to a negative one. PostgreSQL rejects the query, but the
  rejection is the error of the row stream, which \<open>List\<close> does not look at: a successful answer shows no
  order at all and claims that there are more, however many there are, row streams broken or not. A
  client that follows \<open>HasMore\<close> finds no end here.
\<close>

theorem wrapped_page_says_more:
  assumes "order_world env uuid_in numeric db pend lossy kv conn"
    and "1 \<le> sz" "sz \<le> 100" "k < 2 ^ 31" "2 ^ 31 \<le> (k - 1) * sz" "k * sz < 2 ^ 32"
    and "ListOrders env s c (page_req a k sz) w = (Inr resp, w')"
  shows "ListOrdersResponse_Orders resp = [] \<and>
    map_option PaginationResponse_HasMore (ListOrdersResponse_Pagination resp) = Some True \<and>
    map_option (\<lambda>p. sint (PaginationResponse_TotalCount p)) (ListOrdersResponse_Pagination resp) =
      Some (int (card (listed uuid_in a (db w))))"
proof -
  have k: "1 < k"
  proof (rule ccontr)
    assume "\<not> 1 < k"
    then have "(k - 1) * sz \<le> 0" using assms(2) by (simp add: mult_nonpos_nonneg)
    with assms(5) show False by simp
  qed
  have s: "sint (word_of_int k :: int32) = k" "sint (word_of_int sz :: int32) = sz"
    using assms k by (simp_all add: sint32_of_int)
  have low: "2 ^ 31 \<le> k * sz" "(k - 1) * sz < 2 ^ 32" using assms by (simp_all add: left_diff_distrib)
  have page: "ListOrders_page (page_req a k sz) = (word_of_int k, word_of_int sz)"
    using k assms(2) s by (simp add: ListOrders_page_def page_req_def)
  have "sint ((word_of_int k - 1) * word_of_int sz :: int32) = (k - 1) * sz - 2 ^ 32"
    using sint32_wrapped [OF assms(5) low(2)] by simp
  then have off: "page_offset (page_req a k sz) < 0"
    using low(2) k assms(2,3) s by (simp add: page_offset_def page List_clamp_def Let_def)
  have "sint (word_of_int k * word_of_int sz :: int32) = k * sz - 2 ^ 32"
    using sint32_wrapped [OF low(1) assms(6)] by simp
  then have more: "has_more (page_req a k sz) n" for n using assms(6) by (simp add: has_more_def page)
  have "ListOrdersRequest_UserId (page_req a k sz) = a" by (simp add: page_req_def)
  with order_world.ListOrders_refines [OF assms(1,7)] off more show ?thesis
    by simp (erule order_spec_listE; auto)
qed

theorem wrapped_page_says_more_witness:
  "let resp = projr (fst (ListOrders (mem_env False False) mem_order_server Background
       (page_req '''' 536870913 4) three_orders))
   in length (mo_orders three_orders) = 3 \<and> ListOrdersResponse_Orders resp = [] \<and>
      map_option PaginationResponse_HasMore (ListOrdersResponse_Pagination resp) = Some True"
proof -
  let ?l = "ListOrders (mem_env False False) mem_order_server Background (page_req '''' 536870913 4) three_orders"
  have "\<not> isl (fst ?l)" by code_simp
  then have l: "?l = (Inr (projr (fst ?l)), snd ?l)" by (simp add: prod_eq_iff)
  have "length (mo_orders three_orders) = 3" by (simp add: three_orders_def)
  with wrapped_page_says_more [OF mo.order_world_axioms _ _ _ _ _ l] show ?thesis by (simp add: Let_def)
qed

end
