(* ===== verification/GoStrconv.thy ===== *)
theory GoStrconv
  imports Prelude Float64
begin

text \<open>
  The number and duration parsers of the Go standard library that the configuration uses:
  \<open>strconv.Atoi\<close> and \<open>time.ParseDuration\<close>, with their overflow checks. They are the algorithms of
  the library; the facts about them are the round trips with the \<open>%d\<close> verb.
\<close>

section \<open>\<open>strconv.Atoi\<close>\<close>

definition int_of_dec :: "string \<Rightarrow> int" where
  "int_of_dec s = foldl (\<lambda>a c. a * 10 + int (digit_val c)) 0 s"

text \<open>An optional sign, at least one decimal digit, and nothing else; the value fits an int64.\<close>

definition Atoi :: "string \<Rightarrow> int option" where
  "Atoi s =
     (let neg = (s \<noteq> [] \<and> hd s = CHR ''-'');
          ds = (if s \<noteq> [] \<and> (hd s = CHR ''-'' \<or> hd s = CHR ''+'') then tl s else s)
      in if ds = [] \<or> \<not> list_all is_digit ds then None
         else let n = int_of_dec ds
              in if neg then (if n \<le> 2 ^ 63 then Some (- n) else None)
                 else (if n < 2 ^ 63 then Some n else None))"

lemma foldl_dec_acc: "foldl (\<lambda>a c. a * 10 + int (digit_val c)) (int m) s =
    int (foldl (\<lambda>a c. 10 * a + digit_val c) m s)"
proof (induction s arbitrary: m)
  case (Cons c s)
  have "int m * 10 + int (digit_val c) = int (10 * m + digit_val c)" by simp
  then show ?case using Cons.IH [of "10 * m + digit_val c"] by (simp add: mult.commute)
qed simp

lemma int_of_dec_nat: "int_of_dec s = int (nat_of_dec s)"
  using foldl_dec_acc [of 0 s] by (simp add: int_of_dec_def nat_of_dec_def)

lemma list_all_digits_dec_nat [simp]: "list_all is_digit (dec_nat n)"
  by (auto simp: list_all_iff dec_nat_digits)

lemma hd_dec_nat: "is_digit (hd (dec_nat n))"
  using dec_nat_digits [OF hd_in_set [OF dec_nat_not_Nil]] .

lemma not_digit_signs [simp]: "\<not> is_digit (CHR ''-'')" "\<not> is_digit (CHR ''+'')" "\<not> is_digit (CHR ''.'')"
  by (simp_all add: is_digit_def)

lemma hd_dec_nat_sign [simp]: "hd (dec_nat n) \<noteq> CHR ''-''" "hd (dec_nat n) \<noteq> CHR ''+''"
  using hd_dec_nat [of n] by auto

theorem Atoi_dec_int:
  assumes "- (2 ^ 63) \<le> i" "i < 2 ^ 63"
  shows "Atoi (dec_int i) = Some i"
  using assms by (auto simp: Atoi_def dec_int_def int_of_dec_nat Let_def)

lemma int_of_dec_nonneg: "0 \<le> int_of_dec s"
  by (simp add: int_of_dec_nat)

lemma Atoi_range: "Atoi s = Some i \<Longrightarrow> - (2 ^ 63) \<le> i \<and> i < 2 ^ 63"
  using int_of_dec_nonneg [of s] int_of_dec_nonneg [of "tl s"]
  by (auto simp: Atoi_def Let_def split: if_splits)

section \<open>\<open>time.ParseDuration\<close>\<close>

text \<open>The digits of the integer part; \<open>None\<close> when the value passes \<open>1<<63\<close>.\<close>

fun leadingInt :: "int \<Rightarrow> string \<Rightarrow> (int \<times> string) option" where
  "leadingInt x [] = Some (x, [])"
| "leadingInt x (c # s) =
     (if \<not> is_digit c then Some (x, c # s)
      else if 2 ^ 63 div 10 < x then None
      else let y = x * 10 + int (digit_val c)
           in if 2 ^ 63 < y then None else leadingInt y s)"

text \<open>The digits after the point, and their scale; digits beyond the range are skipped.\<close>

fun leadingFraction :: "int \<Rightarrow> float64 \<Rightarrow> bool \<Rightarrow> string \<Rightarrow> int \<times> float64 \<times> string" where
  "leadingFraction x scale overflow [] = (x, scale, [])"
| "leadingFraction x scale overflow (c # s) =
     (if \<not> is_digit c then (x, scale, c # s)
      else if overflow \<or> (2 ^ 63 - 1) div 10 < x then leadingFraction x scale True s
      else let y = x * 10 + int (digit_val c)
           in if 2 ^ 63 < y then leadingFraction x scale True s
              else leadingFraction y (fmul scale (Fin False 10)) False s)"

definition unitMap :: "(string \<times> int) list" where
  "unitMap =
     [(''ns'', 1), (''us'', 1000), ([CHR 0xC2, CHR 0xB5, CHR ''s''], 1000),
      ([CHR 0xCE, CHR 0xBC, CHR ''s''], 1000), (''ms'', 1000000), (''s'', 1000000000),
      (''m'', 60000000000), (''h'', 3600000000000)]"

definition num_char :: "char \<Rightarrow> bool" where
  "num_char c \<longleftrightarrow> c = CHR ''.'' \<or> is_digit c"

definition uint64_of_float :: "float64 \<Rightarrow> int" where
  "uint64_of_float x = (case x of Fin False m \<Rightarrow> \<lfloor>m\<rfloor> | _ \<Rightarrow> 0)"

text \<open>One round of the loop: a number with its unit, in nanoseconds, and the rest of the text.\<close>

definition parse_unit :: "string \<Rightarrow> (int \<times> string) option" where
  "parse_unit s =
     (if s = [] \<or> \<not> num_char (hd s) then None
      else case leadingInt 0 s of
        None \<Rightarrow> None
      | Some (v, s1) \<Rightarrow>
          (let pre = (length s1 \<noteq> length s);
               dot = (s1 \<noteq> [] \<and> hd s1 = CHR ''.'');
               (f, scale, s2) = (if dot then leadingFraction 0 (Fin False 1) False (tl s1)
                                 else (0, Fin False 1, s1));
               post = (dot \<and> length s2 \<noteq> length (tl s1));
               u = takeWhile (\<lambda>c. \<not> num_char c) s2;
               s3 = dropWhile (\<lambda>c. \<not> num_char c) s2
           in if \<not> pre \<and> \<not> post then None
              else if u = [] then None
              else case map_of unitMap u of
                None \<Rightarrow> None
              | Some unit \<Rightarrow>
                  (if 2 ^ 63 div unit < v then None
                   else let w = v * unit +
                              (if 0 < f then uint64_of_float
                                 (fmul (float_of_int f) (fdiv (float_of_int unit) scale)) else 0)
                        in if 2 ^ 63 < w then None else Some (w, s3))))"

lemma leadingInt_length: "leadingInt x s = Some (v, r) \<Longrightarrow> length r \<le> length s"
proof (induction x s rule: leadingInt.induct)
  case (2 x c s)
  then show ?case by (fastforce simp: Let_def split: if_splits)
qed simp

lemma leadingFraction_length: "leadingFraction x sc ov s = (v, sc', r) \<Longrightarrow> length r \<le> length s"
proof (induction x sc ov s rule: leadingFraction.induct)
  case (2 x sc ov c s)
  then show ?case by (fastforce simp: Let_def split: if_splits)
qed simp

lemma parse_unit_length: "parse_unit s = Some (w, r) \<Longrightarrow> length r < length s"
proof -
  assume ps: "parse_unit s = Some (w, r)"
  then obtain v s1 where li: "leadingInt 0 s = Some (v, s1)"
    by (auto simp: parse_unit_def split: if_splits option.splits)
  define t where "t = (if s1 \<noteq> [] \<and> hd s1 = CHR ''.'' then leadingFraction 0 (Fin False 1) False (tl s1)
                       else (0, Fin False 1, s1))"
  obtain f sc s2 where t: "t = (f, sc, s2)" by (cases t) auto
  have "length s2 \<le> length s1"
    using t leadingFraction_length [of 0 "Fin False 1" False "tl s1" f sc s2]
    by (auto simp: t_def split: if_splits)
  moreover have "length s1 \<le> length s" using leadingInt_length [OF li] .
  moreover have "r = dropWhile (\<lambda>c. \<not> num_char c) s2" "takeWhile (\<lambda>c. \<not> num_char c) s2 \<noteq> []"
    using ps unfolding parse_unit_def li t_def [symmetric] t
    by (auto simp: li Let_def t_def [symmetric] t split: if_splits option.splits)
  moreover have "length (dropWhile P s2) < length s2" if "takeWhile P s2 \<noteq> []" for P
    using that takeWhile_dropWhile_id [of P s2] length_append [of "takeWhile P s2" "dropWhile P s2"]
    by (metis length_greater_0_conv less_add_same_cancel2)
  ultimately show ?thesis by (metis order_less_le_trans order_trans)
qed

text \<open>The sum of the units is a uint64: it wraps before it is compared with \<open>1<<63\<close>.\<close>

function parse_units :: "int \<Rightarrow> string \<Rightarrow> int option" where
  "parse_units d s =
     (if s = [] then Some d
      else case parse_unit s of
        None \<Rightarrow> None
      | Some (v, r) \<Rightarrow>
          (let d' = (d + v) mod 2 ^ 64
           in if 2 ^ 63 < d' then None else parse_units d' r))"
  by pat_completeness auto
termination
  by (relation "measure (\<lambda>(d, s). length s)") (auto simp: parse_unit_length)

declare parse_units.simps [simp del]

definition ParseDuration :: "string \<Rightarrow> duration option" where
  "ParseDuration orig =
     (let signed_text = (orig \<noteq> [] \<and> (hd orig = CHR ''-'' \<or> hd orig = CHR ''+''));
          neg = (orig \<noteq> [] \<and> hd orig = CHR ''-'');
          s = (if signed_text then tl orig else orig)
      in if s = ''0'' then Some 0
         else if s = [] then None
         else case parse_units 0 s of
           None \<Rightarrow> None
         | Some d \<Rightarrow>
             (if neg then Some (- d) else if 2 ^ 63 - 1 < d then None else Some d))"

section \<open>Reading what was written\<close>

lemma dec_fold_ge: "0 \<le> x \<Longrightarrow> x \<le> foldl (\<lambda>a c. a * 10 + int (digit_val c)) x s"
proof (induction s arbitrary: x)
  case (Cons c s)
  have "x \<le> x * 10 + int (digit_val c)" using Cons.prems by linarith
  with Cons.IH [of "x * 10 + int (digit_val c)"] Cons.prems show ?case
    by (simp only: foldl_Cons) linarith
qed simp

text \<open>The integer part of a literal, up to the first character that is no digit.\<close>

lemma leadingInt_digits:
  assumes "list_all is_digit ds" "rest = [] \<or> \<not> is_digit (hd rest)" "0 \<le> x"
    "foldl (\<lambda>a c. a * 10 + int (digit_val c)) x ds \<le> 2 ^ 63"
  shows "leadingInt x (ds @ rest) = Some (foldl (\<lambda>a c. a * 10 + int (digit_val c)) x ds, rest)"
  using assms
proof (induction ds arbitrary: x)
  case Nil
  then show ?case by (cases rest) auto
next
  case (Cons c ds)
  let ?y = "x * 10 + int (digit_val c)"
  have y0: "0 \<le> ?y" using Cons.prems(3) by linarith
  have y: "?y \<le> 2 ^ 63"
    using dec_fold_ge [OF y0, of ds] Cons.prems(4) by simp
  then have "x \<le> 2 ^ 63 div 10" by simp
  with y y0 Cons show ?case by (simp add: Let_def)
qed

definition units_text :: "string \<Rightarrow> bool" where
  "units_text u \<longleftrightarrow> u \<noteq> [] \<and> list_all (\<lambda>c. \<not> num_char c) u"

lemma unitMap_units_text: "map_of unitMap u = Some k \<Longrightarrow> units_text u \<and> 0 < k"
  by (drule map_of_SomeD) (auto simp: unitMap_def units_text_def num_char_def is_digit_def)

lemma takeWhile_units: "list_all P u \<Longrightarrow> rest = [] \<or> \<not> P (hd rest) \<Longrightarrow>
    takeWhile P (u @ rest) = u \<and> dropWhile P (u @ rest) = rest"
  by (induction u; cases rest) auto

text \<open>A whole number with a unit of the table is read back, whatever follows it.\<close>

lemma parse_unit_dec_nat:
  assumes k: "map_of unitMap u = Some k" and le: "int n * k \<le> 2 ^ 63"
    and rest: "rest = [] \<or> num_char (hd rest)"
  shows "parse_unit (dec_nat n @ u @ rest) = Some (int n * k, rest)"
proof -
  have u: "u \<noteq> []" "list_all (\<lambda>c. \<not> num_char c) u" "0 < k"
    using unitMap_units_text [OF k] by (auto simp: units_text_def)
  have hdu: "hd u \<noteq> CHR ''.''" "\<not> is_digit (hd u)"
    using u by (cases u; auto simp: num_char_def)+
  have "int n * 1 \<le> int n * k" using u(3) by (intro mult_left_mono) auto
  then have n: "foldl (\<lambda>a c. a * 10 + int (digit_val c)) 0 (dec_nat n) \<le> 2 ^ 63"
    using le foldl_dec_acc [of 0 "dec_nat n"] nat_of_dec_dec_nat [of n] by (simp add: nat_of_dec_def)
  have li: "leadingInt 0 (dec_nat n @ u @ rest) = Some (int n, u @ rest)"
    using leadingInt_digits [OF _ _ _ n, of "u @ rest"] u(1) hdu
      foldl_dec_acc [of 0 "dec_nat n"] nat_of_dec_dec_nat [of n] by (simp add: nat_of_dec_def)
  have "int n \<le> 2 ^ 63 div k" using zdiv_mono1 [OF le u(3)] u(3) by simp
  then show ?thesis
    using li u hdu k hd_dec_nat [of n] takeWhile_units [OF u(2), of rest] rest le
    by (simp add: parse_unit_def num_char_def Let_def)
qed

theorem ParseDuration_dec_nat:
  assumes "map_of unitMap u = Some k" "int n * k < 2 ^ 63"
  shows "ParseDuration (dec_nat n @ u) = Some (int n * k)"
proof -
  have "parse_units 0 (dec_nat n @ u) = Some (int n * k)"
    using parse_unit_dec_nat [OF assms(1), of n "[]"] assms unitMap_units_text [OF assms(1)]
    by (subst parse_units.simps) (simp add: parse_units.simps)
  moreover have "dec_nat n @ u \<noteq> ''0''"
    using unitMap_units_text [OF assms(1)] by (cases "dec_nat n") (auto simp: units_text_def)
  ultimately show ?thesis using assms(2) by (simp add: ParseDuration_def Let_def)
qed

section \<open>Ranges\<close>

lemma parse_units_range: "0 \<le> d \<Longrightarrow> d \<le> 2 ^ 63 \<Longrightarrow> parse_units d s = Some r \<Longrightarrow> 0 \<le> r \<and> r \<le> 2 ^ 63"
proof (induction d s rule: parse_units.induct)
  case (1 d s)
  show ?case
  proof (cases "s = []")
    case True
    with "1.prems" show ?thesis by (simp add: parse_units.simps)
  next
    case False
    then obtain v t where "parse_unit s = Some (v, t)"
        "(d + v) mod 2 ^ 64 \<le> 2 ^ 63" "parse_units ((d + v) mod 2 ^ 64) t = Some r"
      using "1.prems" by (subst (asm) (2) parse_units.simps) (auto simp: Let_def split: option.splits if_splits)
    with "1.IH" [of "(v, t)" v t "(d + v) mod 2 ^ 64"] False show ?thesis by simp
  qed
qed

lemma ParseDuration_range: "ParseDuration s = Some d \<Longrightarrow> - (2 ^ 63) \<le> d \<and> d < 2 ^ 63"
  using parse_units_range [of 0 s] parse_units_range [of 0 "tl s"]
  by (auto simp: ParseDuration_def Let_def split: if_splits option.splits)

end
