(* ===== verification/Vault.thy ===== *)
theory Vault
  imports Prelude
begin

text \<open>
  \<open>src/internal/vault/client.go\<close>: the wrapper of the HashiCorp Vault client that supplies dynamic
  database credentials, and its credential refresher. The Vault API is a parameter: a record of the
  calls the wrapper makes, over an opaque state \<open>'w\<close>.
\<close>

section \<open>The Vault API\<close>

text \<open>Values of a \<open>map[string]interface{}\<close>: the dynamic types the wrapper tells apart.\<close>

datatype jval = JString string | JMap "(string \<times> jval) list" | JOther string

record vault_secret =
  Secret_LeaseID :: string
  Secret_LeaseDuration :: int                        \<comment> \<open>seconds\<close>
  Secret_Data :: "(string \<times> jval) list option"      \<comment> \<open>\<open>None\<close> is the nil map\<close>

type_synonym vault_ref = nat   \<comment> \<open>\<open>*vapi.Client\<close>\<close>

record 'w vault_api =
  vault_NewClient :: "string \<Rightarrow> 'w \<Rightarrow> (go_error + vault_ref) \<times> 'w"
  vault_SetToken :: "vault_ref \<Rightarrow> string \<Rightarrow> 'w \<Rightarrow> 'w"
  vault_Read :: "vault_ref \<Rightarrow> ctx \<Rightarrow> string \<Rightarrow> 'w \<Rightarrow> (go_error + vault_secret option) \<times> 'w"
  vault_Renew :: "vault_ref \<Rightarrow> ctx \<Rightarrow> string \<Rightarrow> int \<Rightarrow> 'w \<Rightarrow> go_error option \<times> 'w"

section \<open>The client\<close>

record DBCreds =
  DBCreds_Username :: string
  DBCreds_Password :: string
  DBCreds_LeaseID :: string
  DBCreds_LeaseDuration :: duration

record VaultClient =
  VaultClient_client :: vault_ref

definition Vault_New :: "'w vault_api \<Rightarrow> string \<Rightarrow> string \<Rightarrow> 'w \<Rightarrow> (go_error + VaultClient) \<times> 'w" where
  "Vault_New api address token w =
     (case vault_NewClient api address w of
        (Inl err, w') \<Rightarrow> (Inl (''create vault client: '' @ err), w')
      | (Inr c, w') \<Rightarrow> (Inr \<lparr>VaultClient_client = c\<rparr>, vault_SetToken api c token w'))"

text \<open>A failed type assertion \<open>x, _ := v.(string)\<close> leaves the empty string.\<close>

definition as_string :: "jval option \<Rightarrow> string" where
  "as_string v = (case v of Some (JString s) \<Rightarrow> s | _ \<Rightarrow> '''')"

definition creds_data :: "(string \<times> jval) list \<Rightarrow> (string \<times> jval) list" where
  "creds_data d = (case map_of d ''data'' of Some (JMap m) \<Rightarrow> m | _ \<Rightarrow> d)"

definition GetDBCreds ::
  "'w vault_api \<Rightarrow> VaultClient \<Rightarrow> ctx \<Rightarrow> string \<Rightarrow> 'w \<Rightarrow> (go_error + DBCreds) \<times> 'w" where
  "GetDBCreds api vc c role w =
     (case vault_Read api (VaultClient_client vc) c (''database/creds/'' @ role) w of
        (Inl err, w') \<Rightarrow> (Inl (''read db creds for role '' @ role @ '': '' @ err), w')
      | (Inr None, w') \<Rightarrow> (Inl (''empty response for role '' @ role), w')
      | (Inr (Some secret), w') \<Rightarrow>
          (case Secret_Data secret of
             None \<Rightarrow> (Inl (''empty response for role '' @ role), w')
           | Some sdata \<Rightarrow>
               (let data = creds_data sdata;
                    username = as_string (map_of data ''username'');
                    password = as_string (map_of data ''password'')
                in if username = '''' \<or> password = ''''
                   then (Inl ''missing username or password in vault response'', w')
                   else (Inr \<lparr>DBCreds_Username = username, DBCreds_Password = password,
                              DBCreds_LeaseID = Secret_LeaseID secret,
                              DBCreds_LeaseDuration =
                                wrap64 (Secret_LeaseDuration secret * time_Second)\<rparr>, w'))))"

definition GetSecret ::
  "'w vault_api \<Rightarrow> VaultClient \<Rightarrow> ctx \<Rightarrow> string \<Rightarrow> 'w \<Rightarrow> (go_error + (string \<times> jval) list) \<times> 'w" where
  "GetSecret api vc c path w =
     (case vault_Read api (VaultClient_client vc) c path w of
        (Inl err, w') \<Rightarrow> (Inl (''read secret '' @ path @ '': '' @ err), w')
      | (Inr None, w') \<Rightarrow> (Inl (''secret '' @ path @ '' not found''), w')
      | (Inr (Some secret), w') \<Rightarrow>
          (case Secret_Data secret of
             None \<Rightarrow> (Inl (''secret '' @ path @ '' not found''), w')
           | Some data \<Rightarrow> (Inr data, w')))"

definition RenewLease ::
  "'w vault_api \<Rightarrow> VaultClient \<Rightarrow> ctx \<Rightarrow> string \<Rightarrow> int \<Rightarrow> 'w \<Rightarrow> go_error option \<times> 'w" where
  "RenewLease api vc c leaseID increment w =
     (case vault_Renew api (VaultClient_client vc) c leaseID increment w of
        (Some err, w') \<Rightarrow> (Some (''renew lease '' @ leaseID @ '': '' @ err), w')
      | (None, w') \<Rightarrow> (None, w'))"

section \<open>The credential refresher\<close>

text \<open>
  The goroutine of \<open>StartCredentialRefresher\<close>. One round fetches credentials, hands them to the
  callback and yields how long to wait. \<open>refreshFn\<close> and \<open>logFn\<close> may be nil.
\<close>

definition refresh_interval :: "DBCreds \<Rightarrow> duration" where
  "refresh_interval creds =
     (let interval = quot64 (DBCreds_LeaseDuration creds) 2
      in if interval < 30 * time_Second then 30 * time_Second else interval)"

definition refresher_round ::
  "'w vault_api \<Rightarrow> VaultClient \<Rightarrow> ctx \<Rightarrow> string \<Rightarrow> (DBCreds \<Rightarrow> 'w \<Rightarrow> 'w) option \<Rightarrow>
   (string \<Rightarrow> go_error \<Rightarrow> 'w \<Rightarrow> 'w) option \<Rightarrow> 'w \<Rightarrow> duration \<times> 'w" where
  "refresher_round api vc c role refreshFn logFn w =
     (case GetDBCreds api vc c role w of
        (Inl err, w') \<Rightarrow>
          (30 * time_Second,
           case logFn of Some f \<Rightarrow> f ''vault credential refresh failed'' err w' | None \<Rightarrow> w')
      | (Inr creds, w') \<Rightarrow>
          (refresh_interval creds, case refreshFn of Some f \<Rightarrow> f creds w' | None \<Rightarrow> w'))"

text \<open>
  The loop, for the outcomes of its \<open>select\<close> statements so far: the timer fired, or the context was
  done. The result is the waits entered, the state, and whether the goroutine has returned.
\<close>

datatype wakeup = TimerFired | CtxDone

fun StartCredentialRefresher ::
  "'w vault_api \<Rightarrow> VaultClient \<Rightarrow> ctx \<Rightarrow> string \<Rightarrow> (DBCreds \<Rightarrow> 'w \<Rightarrow> 'w) option \<Rightarrow>
   (string \<Rightarrow> go_error \<Rightarrow> 'w \<Rightarrow> 'w) option \<Rightarrow> wakeup list \<Rightarrow> 'w \<Rightarrow> duration list \<times> bool \<times> 'w" where
  "StartCredentialRefresher api vc c role refreshFn logFn ks w =
     (case refresher_round api vc c role refreshFn logFn w of
        (d, w') \<Rightarrow>
          (case ks of
             [] \<Rightarrow> ([d], False, w')
           | CtxDone # _ \<Rightarrow> ([d], True, w')
           | TimerFired # ks' \<Rightarrow>
               (case StartCredentialRefresher api vc c role refreshFn logFn ks' w' of
                  (ds, returned, w'') \<Rightarrow> (d # ds, returned, w''))))"

declare StartCredentialRefresher.simps [simp del]

section \<open>Facts\<close>

text \<open>Credentials that are handed out are complete, and the lease is in nanoseconds.\<close>

lemma GetDBCreds_Inr:
  assumes "GetDBCreds api vc c role w = (Inr creds, w')"
  obtains secret data where
    "vault_Read api (VaultClient_client vc) c (''database/creds/'' @ role) w = (Inr (Some secret), w')"
    "Secret_Data secret = Some data"
    "DBCreds_Username creds = as_string (map_of (creds_data data) ''username'')"
    "DBCreds_Password creds = as_string (map_of (creds_data data) ''password'')"
    "DBCreds_Username creds \<noteq> ''''" "DBCreds_Password creds \<noteq> ''''"
    "DBCreds_LeaseDuration creds = wrap64 (Secret_LeaseDuration secret * time_Second)"
    "DBCreds_LeaseID creds = Secret_LeaseID secret"
  using assms
  by (auto simp: GetDBCreds_def Let_def split: prod.splits sum.splits option.splits if_splits)

lemma GetDBCreds_state: "snd (GetDBCreds api vc c role w) =
    snd (vault_Read api (VaultClient_client vc) c (''database/creds/'' @ role) w)"
  by (auto simp: GetDBCreds_def Let_def split: prod.splits sum.splits option.splits)

lemma refresh_interval_ge: "30 * time_Second \<le> refresh_interval creds"
  by (simp add: refresh_interval_def Let_def)

lemma refresh_interval_half:
  assumes "60 * time_Second \<le> DBCreds_LeaseDuration creds"
  shows "refresh_interval creds = DBCreds_LeaseDuration creds div 2"
  using assms by (simp add: refresh_interval_def Let_def quot64_nonneg)

lemma refresh_interval_short:
  assumes "DBCreds_LeaseDuration creds < 60 * time_Second"
  shows "refresh_interval creds = 30 * time_Second"
proof (cases "0 \<le> DBCreds_LeaseDuration creds")
  case True
  with assms show ?thesis by (simp add: refresh_interval_def Let_def quot64_nonneg)
next
  case False
  then have "quot64 (DBCreds_LeaseDuration creds) 2 \<le> 0"
    by (simp add: quot64_def)
  then show ?thesis by (simp add: refresh_interval_def Let_def)
qed

lemma refresher_round_wait: "30 * time_Second \<le> fst (refresher_round api vc c role rf lf w)"
  using refresh_interval_ge by (auto simp: refresher_round_def split: prod.splits sum.splits)

lemma refresher_run [simp]:
  fixes api vc c role rf lf
  defines "run \<equiv> StartCredentialRefresher api vc c role rf lf"
    and "round \<equiv> refresher_round api vc c role rf lf"
  shows "run [] w = ([fst (round w)], False, snd (round w))"
    "run (CtxDone # ks) w = ([fst (round w)], True, snd (round w))"
    "run (TimerFired # ks) w =
       (fst (round w) # fst (run ks (snd (round w))), snd (run ks (snd (round w))))"
  unfolding run_def round_def
  by (subst StartCredentialRefresher.simps; simp split: prod.splits)+

text \<open>No wait is shorter than 30 seconds, so Vault is not polled faster than that.\<close>

lemma refresher_waits:
  "\<forall>d \<in> set (fst (StartCredentialRefresher api vc c role rf lf ks w)). 30 * time_Second \<le> d"
proof (induction ks arbitrary: w)
  case (Cons k ks)
  then show ?case using refresher_round_wait [of api vc c role rf lf w] by (cases k) simp_all
qed (use refresher_round_wait [of api vc c role rf lf] in simp)

text \<open>An invariant of the two callbacks and of the Vault calls is one of the whole run.\<close>

lemma refresher_invariant:
  assumes read: "\<And>v. I v \<Longrightarrow> I (snd (vault_Read api (VaultClient_client vc) c (''database/creds/'' @ role) v))"
    and refresh: "\<And>f creds v. rf = Some f \<Longrightarrow> I v \<Longrightarrow> I (f creds v)"
    and log: "\<And>f m err v. lf = Some f \<Longrightarrow> I v \<Longrightarrow> I (f m err v)"
    and "I w"
  shows "I (snd (snd (StartCredentialRefresher api vc c role rf lf ks w)))"
proof -
  have round: "I (snd (refresher_round api vc c role rf lf v))" if "I v" for v
    using read [OF that] refresh log GetDBCreds_state [of api vc c role v]
    by (auto simp: refresher_round_def split: prod.splits sum.splits option.splits)
  show ?thesis using \<open>I w\<close>
  proof (induction ks arbitrary: w)
    case (Cons k ks)
    then show ?case using round [of w] by (cases k) simp_all
  qed (use round in simp)
qed

end
