(* ===== verification/Tls.thy ===== *)
theory Tls
  imports Config UserClient
begin

text \<open>
  \<open>src/internal/tls/tls.go\<close> and the connection set-up that uses it
  (\<open>src/services/order-service/client.go\<close>, \<open>NewUserClient\<close> and \<open>Close\<close>). Certificates, certificate
  pools and connections are handles; the X.509 parsers and the dialer are parameters.
\<close>

section \<open>Credentials\<close>

type_synonym cert_ref = nat
type_synonym cert_pool = "cert_ref list"

datatype client_auth = NoClientCert | RequireAndVerifyClientCert

datatype tls_version = TLSDefault | VersionTLS13

record tls_config =
  tls_Certificates :: "cert_ref list"
  tls_ClientCAs :: "cert_pool option"
  tls_RootCAs :: "cert_pool option"
  tls_ClientAuth :: client_auth
  tls_MinVersion :: tls_version

text \<open>\<open>x509_Append\<close> is \<open>AppendCertsFromPEM\<close> on an empty pool: \<open>None\<close> when it returns false.\<close>

record x509 =
  x509_KeyPair :: "string \<Rightarrow> string \<Rightarrow> go_error + cert_ref"
  x509_Append :: "string \<Rightarrow> cert_pool option"

text \<open>
  The result of the two loaders: an error, or a pair \<open>(creds, nil)\<close> in which \<open>creds\<close> may be nil.
\<close>

definition LoadServerConfig ::
  "os_env \<Rightarrow> x509 \<Rightarrow> string \<Rightarrow> string \<Rightarrow> string \<Rightarrow> go_error + tls_config option" where
  "LoadServerConfig os x certFile keyFile caFile =
     (case x509_KeyPair x certFile keyFile of
        Inl err \<Rightarrow> Inl err
      | Inr serverCert \<Rightarrow>
          (case ReadFile os caFile of
             Inl err \<Rightarrow> Inl err
           | Inr caCert \<Rightarrow>
               (case x509_Append x caCert of
                  None \<Rightarrow> Inr None
                | Some caPool \<Rightarrow>
                    Inr (Some \<lparr>tls_Certificates = [serverCert], tls_ClientCAs = Some caPool,
                               tls_RootCAs = None, tls_ClientAuth = RequireAndVerifyClientCert,
                               tls_MinVersion = VersionTLS13\<rparr>))))"

definition LoadClientConfig ::
  "os_env \<Rightarrow> x509 \<Rightarrow> string \<Rightarrow> string \<Rightarrow> string \<Rightarrow> go_error + tls_config option" where
  "LoadClientConfig os x caFile certFile keyFile =
     (case x509_KeyPair x certFile keyFile of
        Inl err \<Rightarrow> Inl err
      | Inr clientCert \<Rightarrow>
          (case ReadFile os caFile of
             Inl err \<Rightarrow> Inl err
           | Inr caCert \<Rightarrow>
               (case x509_Append x caCert of
                  None \<Rightarrow> Inr None
                | Some caPool \<Rightarrow>
                    Inr (Some \<lparr>tls_Certificates = [clientCert], tls_ClientCAs = None,
                               tls_RootCAs = Some caPool, tls_ClientAuth = NoClientCert,
                               tls_MinVersion = VersionTLS13\<rparr>))))"

text \<open>Credentials that are there ask every peer for a certificate of the CA, over TLS 1.3.\<close>

definition mutual_tls :: "cert_pool \<Rightarrow> tls_config \<Rightarrow> bool" where
  "mutual_tls pool cfg \<longleftrightarrow> tls_ClientAuth cfg = RequireAndVerifyClientCert \<and>
     tls_ClientCAs cfg = Some pool \<and> tls_MinVersion cfg = VersionTLS13 \<and> tls_Certificates cfg \<noteq> []"

lemma LoadServerConfig_Some_iff:
  "(\<exists>cfg. LoadServerConfig os x certFile keyFile caFile = Inr (Some cfg)) \<longleftrightarrow>
     (\<exists>c ca pool. x509_KeyPair x certFile keyFile = Inr c \<and> ReadFile os caFile = Inr ca \<and>
        x509_Append x ca = Some pool)"
  by (auto simp: LoadServerConfig_def split: sum.splits option.splits)

lemma LoadServerConfig_mutual:
  assumes "LoadServerConfig os x certFile keyFile caFile = Inr (Some cfg)"
  obtains ca pool where "ReadFile os caFile = Inr ca" "x509_Append x ca = Some pool" "mutual_tls pool cfg"
  using assms by (auto simp: LoadServerConfig_def mutual_tls_def split: sum.splits option.splits)

text \<open>A CA file that holds no certificate is no error: the credentials are nil.\<close>

lemma LoadServerConfig_None_iff:
  "LoadServerConfig os x certFile keyFile caFile = Inr None \<longleftrightarrow>
     (\<exists>c ca. x509_KeyPair x certFile keyFile = Inr c \<and> ReadFile os caFile = Inr ca \<and> x509_Append x ca = None)"
  by (auto simp: LoadServerConfig_def split: sum.splits option.splits)

section \<open>Dialling the user service\<close>

text \<open>Transport credentials of a connection: TLS credentials, which may be nil, or none at all.\<close>

datatype dial_option = WithTLS "tls_config option" | WithInsecure

type_synonym conn_ref = nat

record 'w grpc_dialer =
  grpc_Dial :: "string \<Rightarrow> dial_option list \<Rightarrow> 'w \<Rightarrow> (go_error + conn_ref) \<times> 'w"
  conn_Close :: "conn_ref \<Rightarrow> 'w \<Rightarrow> go_error option \<times> 'w"

record UserClient =
  UserClient_client :: conn_ref   \<comment> \<open>the generated stub, which holds the connection\<close>
  UserClient_conn :: conn_ref

definition NewUserClient ::
  "os_env \<Rightarrow> x509 \<Rightarrow> 'w grpc_dialer \<Rightarrow> string \<Rightarrow> string \<Rightarrow> string \<Rightarrow> string \<Rightarrow> 'w \<Rightarrow>
   (go_error + UserClient) \<times> 'w" where
  "NewUserClient os x g addr caFile certFile keyFile w =
     (case (if certFile \<noteq> '''' \<and> keyFile \<noteq> '''' \<and> caFile \<noteq> ''''
            then (case LoadClientConfig os x caFile certFile keyFile of
                    Inl err \<Rightarrow> Inl (''load client TLS: '' @ err)
                  | Inr creds \<Rightarrow> Inr [WithTLS creds])
            else Inr [WithInsecure]) of
        Inl err \<Rightarrow> (Inl err, w)
      | Inr opts \<Rightarrow>
          (case grpc_Dial g addr opts w of
             (Inl err, w') \<Rightarrow> (Inl (''dial user service: '' @ err), w')
           | (Inr conn, w') \<Rightarrow> (Inr \<lparr>UserClient_client = conn, UserClient_conn = conn\<rparr>, w')))"

definition UserClient_Close :: "'w grpc_dialer \<Rightarrow> UserClient \<Rightarrow> 'w \<Rightarrow> go_error option \<times> 'w" where
  "UserClient_Close g c w = conn_Close g (UserClient_conn c) w"

text \<open>With all three files named, the connection is never made without TLS options.\<close>

lemma NewUserClient_dials_TLS:
  assumes "NewUserClient os x g addr caFile certFile keyFile w = (Inr c, w')"
    "certFile \<noteq> ''''" "keyFile \<noteq> ''''" "caFile \<noteq> ''''"
  obtains creds where "LoadClientConfig os x caFile certFile keyFile = Inr creds"
    "grpc_Dial g addr [WithTLS creds] w = (Inr (UserClient_conn c), w')"
  using assms by (auto simp: NewUserClient_def split: sum.splits prod.splits)

end
