(* ===== verification/Telemetry.thy ===== *)
theory Telemetry
  imports Prelude
begin

text \<open>
  \<open>src/internal/log/log.go\<close> and \<open>src/internal/otel/otel.go\<close>: the set-up of logging, tracing and
  metrics. zap, OpenTelemetry and Prometheus are parameters; what is modelled is which of their
  parts are built, in which order, what is installed as global state, and how errors are handled.
\<close>

section \<open>Logging\<close>

datatype zap_level = DebugLevel | InfoLevel | WarnLevel | ErrorLevel | OtherLevel int

record zap_config =
  zap_Level :: zap_level
  zap_Encoding :: string
  zap_OutputPaths :: "string list"
  zap_ErrorOutputPaths :: "string list"

type_synonym logger_ref = nat

text \<open>\<open>zap_Build\<close> builds with the production encoder configuration.\<close>

record 'w zap_api =
  zap_UnmarshalText :: "string \<Rightarrow> go_error + zap_level"
  zap_Build :: "zap_config \<Rightarrow> 'w \<Rightarrow> (go_error + logger_ref) \<times> 'w"

definition log_New :: "'w zap_api \<Rightarrow> string \<Rightarrow> 'w \<Rightarrow> (go_error + logger_ref) \<times> 'w" where
  "log_New zap level w =
     (let lvl = (case zap_UnmarshalText zap level of Inl err \<Rightarrow> InfoLevel | Inr l \<Rightarrow> l)
      in zap_Build zap
           \<lparr>zap_Level = lvl, zap_Encoding = ''json'', zap_OutputPaths = [''stdout''],
            zap_ErrorOutputPaths = [''stderr'']\<rparr> w)"

section \<open>Tracing and metrics\<close>

type_synonym otel_ref = nat

datatype propagator = TraceContext | Baggage

record 'w otel_api =
  otel_resource :: "ctx \<Rightarrow> string \<Rightarrow> 'w \<Rightarrow> (go_error + otel_ref) \<times> 'w"
  otel_traceExporter :: "ctx \<Rightarrow> string \<Rightarrow> 'w \<Rightarrow> (go_error + otel_ref) \<times> 'w"
  otel_TracerProvider :: "otel_ref \<Rightarrow> otel_ref \<Rightarrow> 'w \<Rightarrow> otel_ref \<times> 'w"
  otel_SetTracerProvider :: "otel_ref \<Rightarrow> 'w \<Rightarrow> 'w"
  otel_SetPropagator :: "propagator list \<Rightarrow> 'w \<Rightarrow> 'w"
  otel_Registry :: "'w \<Rightarrow> otel_ref \<times> 'w"
  otel_promExporter :: "otel_ref \<Rightarrow> 'w \<Rightarrow> (go_error + otel_ref) \<times> 'w"
  otel_MeterProvider :: "otel_ref \<Rightarrow> otel_ref \<Rightarrow> 'w \<Rightarrow> otel_ref \<times> 'w"
  otel_SetMeterProvider :: "otel_ref \<Rightarrow> 'w \<Rightarrow> 'w"
  otel_HandlerFor :: "otel_ref \<Rightarrow> otel_ref"
  otel_TracerShutdown :: "otel_ref \<Rightarrow> ctx \<Rightarrow> 'w \<Rightarrow> go_error option \<times> 'w"
  otel_MeterShutdown :: "otel_ref \<Rightarrow> ctx \<Rightarrow> 'w \<Rightarrow> go_error option \<times> 'w"

record OTel =
  OTel_tracerProvider :: otel_ref
  OTel_meterProvider :: otel_ref
  OTel_promExporter :: otel_ref
  OTel_promRegistry :: otel_ref

definition otel_New ::
  "'w otel_api \<Rightarrow> ctx \<Rightarrow> string \<Rightarrow> string \<Rightarrow> 'w \<Rightarrow> (go_error + OTel) \<times> 'w" where
  "otel_New api c serviceName otlpEndpoint w =
     (case otel_resource api c serviceName w of
        (Inl err, w1) \<Rightarrow> (Inl err, w1)
      | (Inr res, w1) \<Rightarrow>
          (case otel_traceExporter api c otlpEndpoint w1 of
             (Inl err, w2) \<Rightarrow> (Inl err, w2)
           | (Inr traceExporter, w2) \<Rightarrow>
               (let (tracerProvider, w3) = otel_TracerProvider api res traceExporter w2;
                    w4 = otel_SetTracerProvider api tracerProvider w3;
                    w5 = otel_SetPropagator api [TraceContext, Baggage] w4;
                    (promRegistry, w6) = otel_Registry api w5
                in case otel_promExporter api promRegistry w6 of
                     (Inl err, w7) \<Rightarrow> (Inl err, w7)
                   | (Inr promExporter, w7) \<Rightarrow>
                       (let (meterProvider, w8) = otel_MeterProvider api res promExporter w7
                        in (Inr \<lparr>OTel_tracerProvider = tracerProvider,
                                 OTel_meterProvider = meterProvider,
                                 OTel_promExporter = promExporter,
                                 OTel_promRegistry = promRegistry\<rparr>,
                            otel_SetMeterProvider api meterProvider w8)))))"

definition MetricsHandler :: "'w otel_api \<Rightarrow> OTel \<Rightarrow> otel_ref" where
  "MetricsHandler api ot = otel_HandlerFor api (OTel_promRegistry ot)"

definition OTel_Shutdown :: "'w otel_api \<Rightarrow> OTel \<Rightarrow> ctx \<Rightarrow> 'w \<Rightarrow> go_error option \<times> 'w" where
  "OTel_Shutdown api ot c w =
     (case otel_TracerShutdown api (OTel_tracerProvider ot) c w of
        (Some err, w') \<Rightarrow> (Some err, w')
      | (None, w') \<Rightarrow>
          (case otel_MeterShutdown api (OTel_meterProvider ot) c w' of
             (Some err, w'') \<Rightarrow> (Some err, w'')
           | (None, w'') \<Rightarrow> (None, w'')))"

section \<open>Facts\<close>

text \<open>An unknown log level is not an error: the logger is built with level info.\<close>

lemma log_New_unknown_level:
  "zap_UnmarshalText zap level = Inl err \<Longrightarrow>
   log_New zap level w = log_New (zap\<lparr>zap_UnmarshalText := \<lambda>_. Inr InfoLevel\<rparr>) level w"
  by (simp add: log_New_def)

text \<open>When the tracer provider fails to shut down, the meter provider is not asked to.\<close>

lemma OTel_Shutdown_tracer_error:
  "otel_TracerShutdown api (OTel_tracerProvider ot) c w = (Some err, w') \<Longrightarrow>
   OTel_Shutdown api ot c w = (Some err, w')"
  by (simp add: OTel_Shutdown_def)

end
