(* ===== verification/Shutdown.thy ===== *)
theory Shutdown
  imports Prelude
begin

text \<open>
  \<open>src/internal/shutdown/shutdown.go\<close>: graceful shutdown. A run is described by the event that ended
  the wait; the result is the lines printed to the standard logger and the new state.
\<close>

text \<open>What ends the \<open>select\<close>: the context is done, or a signal (SIGTERM or SIGINT) by its name.\<close>

datatype stop_event = CtxEnded | SignalReceived string

record 'w Callback =
  Callback_Name :: string
  Callback_Func :: "ctx \<Rightarrow> 'w \<Rightarrow> go_error option \<times> 'w"

definition run_callback :: "duration \<Rightarrow> 'w Callback \<Rightarrow> 'w \<Rightarrow> string list \<times> 'w" where
  "run_callback timeout cb w =
     (let shutdownCtx = WithTimeout Background timeout;
          started = ''shutdown: '' @ Callback_Name cb
      in case Callback_Func cb shutdownCtx w of
           (None, w') \<Rightarrow> ([started], w')
         | (Some err, w') \<Rightarrow> ([started, ''shutdown '' @ Callback_Name cb @ '': '' @ err], w'))"

fun run_callbacks :: "duration \<Rightarrow> 'w Callback list \<Rightarrow> 'w \<Rightarrow> string list \<times> 'w" where
  "run_callbacks timeout [] w = ([], w)"
| "run_callbacks timeout (cb # cbs) w =
     (case run_callback timeout cb w of
        (lines, w') \<Rightarrow>
          (case run_callbacks timeout cbs w' of (lines', w'') \<Rightarrow> (lines @ lines', w'')))"

definition Graceful :: "stop_event \<Rightarrow> duration \<Rightarrow> 'w Callback list \<Rightarrow> 'w \<Rightarrow> string list \<times> 'w" where
  "Graceful ev timeout callbacks w =
     (case run_callbacks timeout callbacks w of
        (lines, w') \<Rightarrow>
          ((case ev of
              CtxEnded \<Rightarrow> []
            | SignalReceived sig \<Rightarrow> [''received signal '' @ sig @ '', starting graceful shutdown'']) @ lines,
           w'))"

section \<open>Facts\<close>

lemma run_callback_state:
  "snd (run_callback timeout cb w) = snd (Callback_Func cb (WithTimeout Background timeout) w)"
  by (simp add: run_callback_def Let_def case_prod_unfold split: option.splits)

lemma run_callbacks_state:
  "snd (run_callbacks timeout cbs w) =
     fold (\<lambda>cb. snd \<circ> Callback_Func cb (WithTimeout Background timeout)) cbs w"
  by (induction cbs arbitrary: w) (simp_all add: run_callback_state case_prod_unfold)

text \<open>
  Every callback is called, once and in the order given, with a context that has its own full
  timeout and does not descend from the ended one, whether or not an earlier one failed.
\<close>

lemma Graceful_state:
  "snd (Graceful ev timeout cbs w) =
     fold (\<lambda>cb. snd \<circ> Callback_Func cb (WithTimeout Background timeout)) cbs w"
  by (simp add: Graceful_def case_prod_unfold run_callbacks_state)

end
