(* ===== verification/Migrations.thy ===== *)
theory Migrations
  imports Pgx "HOL-Library.List_Lexorder" "HOL-Library.Char_ord"
begin

text \<open>
  \<open>src/db/migrations/embed.go\<close> with the SQL files it embeds: the schema migrations that both
  services run at start. The database is a parameter (\<open>Pgx\<close>); the locale \<open>pg_migrations\<close> states what
  is relied on of its transactions, in terms of the statements that have been committed. The locale
  is interpreted on an executable database in which any call may fail.
\<close>

section \<open>The embedded files\<close>

type_synonym embed_fs = "(string \<times> string) list"   \<comment> \<open>names and contents\<close>

definition sql_lines :: "string list \<Rightarrow> string" where
  "sql_lines ls = concat (map (\<lambda>l. l @ [CHR 0x0A]) ls)"

definition migrationsFS :: embed_fs where
  "migrationsFS =
    [(''000001_create_users.down.sql'',
      sql_lines
       [''DROP TABLE IF EXISTS users;'']),
     (''000001_create_users.up.sql'',
      sql_lines
       [''CREATE TABLE IF NOT EXISTS users ('',
        ''    id UUID PRIMARY KEY DEFAULT gen_random_uuid(),'',
        ''    name VARCHAR(100) NOT NULL,'',
        ''    email VARCHAR(255) NOT NULL UNIQUE,'',
        ''    created_at TIMESTAMPTZ NOT NULL DEFAULT NOW(),'',
        ''    updated_at TIMESTAMPTZ NOT NULL DEFAULT NOW()'',
        '');'',
        '''',
        ''CREATE INDEX idx_users_email ON users(email);'']),
     (''000002_create_orders.down.sql'',
      sql_lines
       [''DROP TABLE IF EXISTS orders;'']),
     (''000002_create_orders.up.sql'',
      sql_lines
       [''CREATE TABLE IF NOT EXISTS orders ('',
        ''    id UUID PRIMARY KEY DEFAULT gen_random_uuid(),'',
        ''    user_id UUID NOT NULL,'',
        ''    status VARCHAR(20) NOT NULL DEFAULT '' @ [CHR 0x27] @ ''PENDING'' @ [CHR 0x27] @ '','',
        ''    total NUMERIC(10,2) NOT NULL,'',
        ''    created_at TIMESTAMPTZ NOT NULL DEFAULT NOW()'',
        '');'',
        '''',
        ''CREATE INDEX idx_orders_user_id ON orders(user_id);'']),
     (''000003_create_order_items.down.sql'',
      sql_lines
       [''DROP TABLE IF EXISTS order_items;'']),
     (''000003_create_order_items.up.sql'',
      sql_lines
       [''CREATE TABLE IF NOT EXISTS order_items ('',
        ''    id UUID PRIMARY KEY DEFAULT gen_random_uuid(),'',
        ''    order_id UUID NOT NULL REFERENCES orders(id) ON DELETE CASCADE,'',
        ''    product_id VARCHAR(100) NOT NULL,'',
        ''    product_name VARCHAR(255) NOT NULL,'',
        ''    quantity INT NOT NULL CHECK (quantity > 0),'',
        ''    unit_price NUMERIC(10,2) NOT NULL CHECK (unit_price >= 0)'',
        '');'',
        '''',
        ''CREATE INDEX idx_order_items_order_id ON order_items(order_id);'']),
     (''000004_drop_order_user_fk.down.sql'',
      sql_lines
       [''ALTER TABLE orders ADD CONSTRAINT orders_user_id_fkey FOREIGN KEY (user_id) REFERENCES users(id);'']),
     (''000004_drop_order_user_fk.up.sql'',
      sql_lines
       [''ALTER TABLE orders DROP CONSTRAINT IF EXISTS orders_user_id_fkey;''])]"

definition DownFS :: embed_fs where
  "DownFS = migrationsFS"

text \<open>\<open>fs.Glob(fsys, "*.up.sql")\<close>: the star stands for any characters except a slash.\<close>

definition glob_up :: "embed_fs \<Rightarrow> string list" where
  "glob_up fs = filter (\<lambda>n. suffix ''.up.sql'' n \<and> CHR ''/'' \<notin> set n) (map fst fs)"

text \<open>\<open>sort.Strings\<close> sorts by bytes.\<close>

definition sort_Strings :: "string list \<Rightarrow> string list" where
  "sort_Strings = sort"

definition up_migrations :: "embed_fs \<Rightarrow> string list" where
  "up_migrations fs = sort_Strings (glob_up fs)"

section \<open>Applying the migrations\<close>

definition sql_create_migrations :: string where
  "sql_create_migrations =
     [CHR 0x0A, CHR 0x09, CHR 0x09] @ ''CREATE TABLE IF NOT EXISTS schema_migrations ('' @
     [CHR 0x0A, CHR 0x09, CHR 0x09, CHR 0x09] @ ''filename VARCHAR(255) PRIMARY KEY,'' @
     [CHR 0x0A, CHR 0x09, CHR 0x09, CHR 0x09] @ ''applied_at TIMESTAMPTZ NOT NULL DEFAULT NOW()'' @
     [CHR 0x0A, CHR 0x09, CHR 0x09] @ '')'' @ [CHR 0x0A, CHR 0x09]"

definition sql_count_migration :: string where
  "sql_count_migration = ''SELECT COUNT(*) FROM schema_migrations WHERE filename = $1''"

definition sql_record_migration :: string where
  "sql_record_migration = ''INSERT INTO schema_migrations (filename) VALUES ($1)''"

fun scan_int :: "row \<Rightarrow> int32 option" where
  "scan_int [SInt n] = Some n"
| "scan_int _ = None"

text \<open>One round of the loop: \<open>None\<close> goes on to the next entry.\<close>

definition migrate_tx ::
  "'w pgx \<Rightarrow> ctx \<Rightarrow> string \<Rightarrow> string \<Rightarrow> txref \<Rightarrow> 'w \<Rightarrow> go_error option \<times> 'w" where
  "migrate_tx drv c entry sql tx w =
     (case tx_Exec drv tx c sql [] w of
        (Inl err, w1) \<Rightarrow> (Some (''apply migration '' @ entry @ '': '' @ err), tx_Rollback drv tx c w1)
      | (Inr _, w1) \<Rightarrow>
          (case tx_Exec drv tx c sql_record_migration [SStr entry] w1 of
             (Inl err, w2) \<Rightarrow>
               (Some (''record migration '' @ entry @ '': '' @ err), tx_Rollback drv tx c w2)
           | (Inr _, w2) \<Rightarrow>
               (case tx_Commit drv tx c w2 of
                  (Some err, w3) \<Rightarrow> (Some (''commit migration '' @ entry @ '': '' @ err), w3)
                | (None, w3) \<Rightarrow> (None, w3))))"

definition migrate_one ::
  "'w pgx \<Rightarrow> embed_fs \<Rightarrow> ctx \<Rightarrow> poolref \<Rightarrow> string \<Rightarrow> 'w \<Rightarrow> go_error option \<times> 'w" where
  "migrate_one drv fs c pool entry w =
     (case pool_QueryRow drv pool c sql_count_migration [SStr entry] w of
        (Inl err, w1) \<Rightarrow> (Some (''check migration '' @ entry @ '': '' @ err), w1)
      | (Inr rw, w1) \<Rightarrow>
          (case scan_int rw of
             None \<Rightarrow> (Some (''check migration '' @ entry @ '': '' @ scan_error drv rw), w1)
           | Some count \<Rightarrow>
               (if 0 < sint count then (None, w1)
                else case map_of fs entry of
                  None \<Rightarrow> (Some (''read migration '' @ entry @ '': open '' @ entry @
                                  '': file does not exist''), w1)
                | Some sql \<Rightarrow>
                    (case pool_Begin drv pool c w1 of
                       (Inl err, w2) \<Rightarrow> (Some (''begin tx for '' @ entry @ '': '' @ err), w2)
                     | (Inr tx, w2) \<Rightarrow> migrate_tx drv c entry sql tx w2))))"

fun migrate_all ::
  "'w pgx \<Rightarrow> embed_fs \<Rightarrow> ctx \<Rightarrow> poolref \<Rightarrow> string list \<Rightarrow> 'w \<Rightarrow> go_error option \<times> 'w" where
  "migrate_all drv fs c pool [] w = (None, w)"
| "migrate_all drv fs c pool (entry # entries) w =
     (case migrate_one drv fs c pool entry w of
        (Some err, w') \<Rightarrow> (Some err, w')
      | (None, w') \<Rightarrow> migrate_all drv fs c pool entries w')"

definition migrations_Up :: "'w pgx \<Rightarrow> embed_fs \<Rightarrow> ctx \<Rightarrow> poolref \<Rightarrow> 'w \<Rightarrow> go_error option \<times> 'w" where
  "migrations_Up drv fs c pool w =
     (case pool_Exec drv pool c sql_create_migrations [] w of
        (Inl err, w') \<Rightarrow> (Some (''create schema_migrations table: '' @ err), w')
      | (Inr _, w') \<Rightarrow> migrate_all drv fs c pool (up_migrations fs) w')"

text \<open>\<open>filepath.Ext\<close> is the suffix from the last dot of the last path element.\<close>

definition filepath_Ext :: "string \<Rightarrow> string" where
  "filepath_Ext name =
     (let t = takeWhile (\<lambda>x. x \<noteq> CHR ''.'' \<and> x \<noteq> CHR ''/'') (rev name);
          r = drop (length t) (rev name)
      in if r \<noteq> [] \<and> hd r = CHR ''.'' then CHR ''.'' # rev t else [])"

definition TrimSuffix :: "string \<Rightarrow> string \<Rightarrow> string" where
  "TrimSuffix s suf = (if suffix suf s then take (length s - length suf) s else s)"

definition MigrationFile :: "string \<Rightarrow> string" where
  "MigrationFile name = TrimSuffix name (filepath_Ext name)"

section \<open>The contract with the database\<close>

text \<open>
  \<open>mig_log\<close> is the list of the statements that transactions have committed, \<open>mig_tx\<close> the statements
  of the open transactions. A commit that reports an error may have taken effect.
\<close>

locale pg_migrations =
  fixes drv :: "'w pgx"
    and mig_log :: "'w \<Rightarrow> (string \<times> sqlval list) list"
    and mig_tx :: "'w \<Rightarrow> txref \<Rightarrow> (string \<times> sqlval list) list option"
  assumes create_keeps: "mig_log (snd (pool_Exec drv p c sql_create_migrations [] w)) = mig_log w"
    and count_keeps: "mig_log (snd (pool_QueryRow drv p c sql_count_migration [SStr f] w)) = mig_log w"
    and count_row: "fst (pool_QueryRow drv p c sql_count_migration [SStr f] w) = Inr rw \<Longrightarrow>
      \<exists>n. rw = [SInt n] \<and> (0 < sint n \<longleftrightarrow> (sql_record_migration, [SStr f]) \<in> set (mig_log w))"
    and begin_keeps: "mig_log (snd (pool_Begin drv p c w)) = mig_log w"
    and begin_tx: "pool_Begin drv p c w = (Inr t, w') \<Longrightarrow> mig_tx w' t = Some []"
    and exec_keeps: "mig_log (snd (tx_Exec drv t c s a w)) = mig_log w"
    and exec_tx: "mig_tx w t = Some l \<Longrightarrow> tx_Exec drv t c s a w = (Inr n, w') \<Longrightarrow>
      mig_tx w' t = Some (l @ [(s, a)])"
    and rollback_keeps: "mig_log (tx_Rollback drv t c w) = mig_log w"
    and commit_log: "mig_tx w t = Some l \<Longrightarrow> tx_Commit drv t c w = (None, w') \<Longrightarrow>
      mig_log w' = mig_log w @ l"
    and commit_error: "mig_tx w t = Some l \<Longrightarrow> tx_Commit drv t c w = (Some err, w') \<Longrightarrow>
      mig_log w' = mig_log w \<or> mig_log w' = mig_log w @ l"

text \<open>What the transaction of a migration commits, and whether it has been committed.\<close>

definition mig_block :: "embed_fs \<Rightarrow> string \<Rightarrow> (string \<times> sqlval list) list" where
  "mig_block fs e = [(the (map_of fs e), []), (sql_record_migration, [SStr e])]"

definition recorded :: "(string \<times> sqlval list) list \<Rightarrow> string \<Rightarrow> bool" where
  "recorded lg e \<longleftrightarrow> (sql_record_migration, [SStr e]) \<in> set lg"

text \<open>The migrations that a run has yet to apply, in their order.\<close>

definition pending_migrations :: "embed_fs \<Rightarrow> (string \<times> sqlval list) list \<Rightarrow> string list" where
  "pending_migrations fs lg = filter (\<lambda>e. \<not> recorded lg e) (up_migrations fs)"

lemma recorded_append [simp]: "recorded (l1 @ l2) e \<longleftrightarrow> recorded l1 e \<or> recorded l2 e"
  by (auto simp: recorded_def)

lemma recorded_blocks [simp]: "recorded (concat (map (mig_block fs) es)) e \<longleftrightarrow> e \<in> set es"
  by (induction es) (auto simp: recorded_def mig_block_def)

lemma recorded_block [simp]: "recorded (mig_block fs e') e \<longleftrightarrow> e = e'"
  by (auto simp: recorded_def mig_block_def)

lemma glob_up_in_fs: "e \<in> set (up_migrations fs) \<Longrightarrow> map_of fs e \<noteq> None"
  by (auto simp: up_migrations_def sort_Strings_def glob_up_def map_of_eq_None_iff image_iff)

context pg_migrations
begin

lemma migrate_tx_effect:
  assumes "mig_tx w tx = Some []"
  shows "(fst (migrate_tx drv c e sql tx w) = None \<longrightarrow>
            mig_log (snd (migrate_tx drv c e sql tx w)) =
              mig_log w @ [(sql, []), (sql_record_migration, [SStr e])]) \<and>
         (mig_log (snd (migrate_tx drv c e sql tx w)) = mig_log w \<or>
          mig_log (snd (migrate_tx drv c e sql tx w)) =
            mig_log w @ [(sql, []), (sql_record_migration, [SStr e])])"
proof -
  obtain q1 w1 where x1: "tx_Exec drv tx c sql [] w = (q1, w1)" by fastforce
  obtain q2 w2 where x2: "tx_Exec drv tx c sql_record_migration [SStr e] w1 = (q2, w2)" by fastforce
  obtain q3 w3 where x3: "tx_Commit drv tx c w2 = (q3, w3)" by fastforce
  have l1: "mig_log w1 = mig_log w" using exec_keeps [of tx c sql "[]" w] x1 by simp
  have l2: "mig_log w2 = mig_log w"
    using exec_keeps [of tx c sql_record_migration "[SStr e]" w1] x2 l1 by simp
  show ?thesis
  proof (cases "\<exists>n m. q1 = Inr n \<and> q2 = Inr m")
    case True
    then obtain n m where q: "q1 = Inr n" "q2 = Inr m" by blast
    have t2: "mig_tx w2 tx = Some [(sql, []), (sql_record_migration, [SStr e])]"
      using exec_tx [OF exec_tx [OF assms x1 [unfolded q]] x2 [unfolded q]] by simp
    show ?thesis
      using commit_log [OF t2, of c w3] commit_error [OF t2, of c _ w3] l2
      by (cases q3) (auto simp: migrate_tx_def x1 x2 x3 q)
  next
    case False
    then show ?thesis
      using l1 l2 rollback_keeps by (cases q1; cases q2) (auto simp: migrate_tx_def x1 x2)
  qed
qed

text \<open>One round: an applied migration is skipped; another one is committed whole or not at all.\<close>

lemma migrate_one_effect:
  fixes c :: ctx and p :: poolref and w :: 'w
  assumes e: "map_of fs e \<noteq> None"
  defines "q \<equiv> migrate_one drv fs c p e w"
  shows "recorded (mig_log w) e \<Longrightarrow> mig_log (snd q) = mig_log w"
    and "fst q = None \<Longrightarrow> \<not> recorded (mig_log w) e \<Longrightarrow> mig_log (snd q) = mig_log w @ mig_block fs e"
    and "mig_log (snd q) = mig_log w \<or>
         \<not> recorded (mig_log w) e \<and> mig_log (snd q) = mig_log w @ mig_block fs e"
proof -
  obtain q1 w1 where x1: "pool_QueryRow drv p c sql_count_migration [SStr e] w = (q1, w1)" by fastforce
  obtain q2 w2 where x2: "pool_Begin drv p c w1 = (q2, w2)" by fastforce
  obtain sql where sql: "map_of fs e = Some sql" using e by blast
  have l1: "mig_log w1 = mig_log w" using count_keeps [of p c e w] x1 by simp
  have l2: "mig_log w2 = mig_log w" using begin_keeps [of p c w1] x2 l1 by simp
  have row: "\<exists>n. rw = [SInt n] \<and> (0 < sint n \<longleftrightarrow> recorded (mig_log w) e)" if "q1 = Inr rw" for rw
    using count_row [of p c e w rw] x1 that by (simp add: recorded_def)
  have "(recorded (mig_log w) e \<longrightarrow> mig_log (snd q) = mig_log w) \<and>
    (fst q = None \<longrightarrow> \<not> recorded (mig_log w) e \<longrightarrow> mig_log (snd q) = mig_log w @ mig_block fs e) \<and>
    (mig_log (snd q) = mig_log w \<or>
     \<not> recorded (mig_log w) e \<and> mig_log (snd q) = mig_log w @ mig_block fs e)"
  proof (cases "\<exists>rw t. q1 = Inr rw \<and> q2 = Inr t \<and> \<not> recorded (mig_log w) e")
    case True
    then obtain rw t where t: "q1 = Inr rw" "q2 = Inr t" "\<not> recorded (mig_log w) e" by blast
    obtain n where n: "rw = [SInt n]" "\<not> 0 < sint n" using row [OF t(1)] t(3) by blast
    have "q = migrate_tx drv c e sql t w2" using n by (simp add: q_def migrate_one_def x1 x2 t sql)
    then show ?thesis
      using migrate_tx_effect [OF begin_tx [OF x2 [unfolded t]], of c e sql] t l2 sql
      by (simp add: mig_block_def)
  next
    case False
    then show ?thesis
      using row l1 l2 by (cases q1; cases q2) (fastforce simp: q_def migrate_one_def x1 x2 sql)+
  qed
  then show "recorded (mig_log w) e \<Longrightarrow> mig_log (snd q) = mig_log w"
    and "fst q = None \<Longrightarrow> \<not> recorded (mig_log w) e \<Longrightarrow> mig_log (snd q) = mig_log w @ mig_block fs e"
    and "mig_log (snd q) = mig_log w \<or>
         \<not> recorded (mig_log w) e \<and> mig_log (snd q) = mig_log w @ mig_block fs e"
    by blast+
qed

text \<open>
  The loop commits the transactions of the pending migrations, in their order, up to the point where
  it stops; when it succeeds it has committed all of them.
\<close>

lemma migrate_all_effect:
  assumes "\<And>e. e \<in> set es \<Longrightarrow> map_of fs e \<noteq> None" "distinct es"
  shows "\<exists>ds. prefix ds (filter (\<lambda>e. \<not> recorded (mig_log w) e) es) \<and>
           mig_log (snd (migrate_all drv fs c p es w)) = mig_log w @ concat (map (mig_block fs) ds) \<and>
           (fst (migrate_all drv fs c p es w) = None \<longrightarrow>
              ds = filter (\<lambda>e. \<not> recorded (mig_log w) e) es)"
  using assms
proof (induction es arbitrary: w)
  case Nil
  then show ?case by simp
next
  case (Cons e es)
  obtain q w1 where x: "migrate_one drv fs c p e w = (q, w1)" by fastforce
  have e: "map_of fs e \<noteq> None" using Cons.prems by simp
  note one = migrate_one_effect [OF e, where c = c and p = p and w = w, unfolded x fst_conv snd_conv]
  show ?case
  proof (cases q)
    case (Some err)
    show ?thesis
    proof (cases "mig_log w1 = mig_log w")
      case True
      then show ?thesis by (intro exI [of _ "[]"]) (simp add: x Some)
    next
      case False
      with one(3) have "\<not> recorded (mig_log w) e" "mig_log w1 = mig_log w @ mig_block fs e" by auto
      then show ?thesis by (intro exI [of _ "[e]"]) (simp add: x Some)
    qed
  next
    case None
    then have run: "migrate_all drv fs c p (e # es) w = migrate_all drv fs c p es w1" by (simp add: x)
    define new where "new = (if recorded (mig_log w) e then [] else [e])"
    have log: "mig_log w1 = mig_log w @ concat (map (mig_block fs) new)"
      using one(1,2) None by (simp add: new_def)
    have pend: "filter (\<lambda>e. \<not> recorded (mig_log w1) e) es = filter (\<lambda>e. \<not> recorded (mig_log w) e) es"
      using Cons.prems(2) by (intro filter_cong) (auto simp: log new_def split: if_splits)
    have all: "filter (\<lambda>e. \<not> recorded (mig_log w) e) (e # es) =
        new @ filter (\<lambda>e. \<not> recorded (mig_log w1) e) es"
      by (simp add: new_def pend)
    obtain ds where "prefix ds (filter (\<lambda>e. \<not> recorded (mig_log w1) e) es)"
      "mig_log (snd (migrate_all drv fs c p es w1)) = mig_log w1 @ concat (map (mig_block fs) ds)"
      "fst (migrate_all drv fs c p es w1) = None \<longrightarrow>
         ds = filter (\<lambda>e. \<not> recorded (mig_log w1) e) es"
      using Cons.IH [of w1] Cons.prems by auto
    then show ?thesis
      unfolding run all by (intro exI [of _ "new @ ds"]) (simp add: log)
  qed
qed

lemma migrations_Up_effect:
  fixes w :: 'w
  assumes "distinct (map fst fs)"
  defines "pending \<equiv> filter (\<lambda>e. \<not> recorded (mig_log w) e) (up_migrations fs)"
  shows "\<exists>ds. prefix ds pending \<and>
           mig_log (snd (migrations_Up drv fs c p w)) = mig_log w @ concat (map (mig_block fs) ds) \<and>
           (fst (migrations_Up drv fs c p w) = None \<longrightarrow> ds = pending)"
proof -
  obtain q w1 where x: "pool_Exec drv p c sql_create_migrations [] w = (q, w1)" by fastforce
  have l: "mig_log w1 = mig_log w" using create_keeps [of p c w] x by simp
  have "distinct (up_migrations fs)"
    using assms by (simp add: up_migrations_def sort_Strings_def glob_up_def)
  then have all: "\<exists>ds. prefix ds pending \<and>
      mig_log (snd (migrate_all drv fs c p (up_migrations fs) w1)) =
        mig_log w @ concat (map (mig_block fs) ds) \<and>
      (fst (migrate_all drv fs c p (up_migrations fs) w1) = None \<longrightarrow> ds = pending)"
    using migrate_all_effect [of "up_migrations fs" fs w1 c p] glob_up_in_fs [of _ fs] l
    by (simp add: pending_def)
  show ?thesis
  proof (cases q)
    case (Inl err)
    then show ?thesis using l by (intro exI [of _ "[]"]) (simp add: migrations_Up_def x)
  next
    case (Inr n)
    then show ?thesis using all by (simp add: migrations_Up_def x)
  qed
qed

end

text \<open>
  A database that works, seen through one pool: while \<open>ok\<close> holds, no call reports an error, and \<open>ok\<close>
  goes on to hold.
\<close>

locale working_migrations = pg_migrations drv mig_log mig_tx
  for drv :: "'w pgx" and mig_log and mig_tx +
  fixes pool :: poolref and ok :: "'w \<Rightarrow> bool"
  assumes create_works: "ok w \<Longrightarrow> \<exists>n w'. pool_Exec drv pool c sql_create_migrations [] w = (Inr n, w') \<and> ok w'"
    and count_works: "ok w \<Longrightarrow> \<exists>rw w'. pool_QueryRow drv pool c sql_count_migration [SStr f] w = (Inr rw, w') \<and> ok w'"
    and begin_works: "ok w \<Longrightarrow> \<exists>t w'. pool_Begin drv pool c w = (Inr t, w') \<and> ok w'"
    and exec_works: "ok w \<Longrightarrow> mig_tx w t = Some l \<Longrightarrow> \<exists>n w'. tx_Exec drv t c s a w = (Inr n, w') \<and> ok w'"
    and commit_works: "ok w \<Longrightarrow> mig_tx w t = Some l \<Longrightarrow> \<exists>w'. tx_Commit drv t c w = (None, w') \<and> ok w'"
begin

lemma migrate_one_works:
  assumes "ok w" "map_of fs e = Some sql"
  shows "\<exists>w'. migrate_one drv fs c pool e w = (None, w') \<and> ok w'"
proof -
  obtain rw w1 where count: "pool_QueryRow drv pool c sql_count_migration [SStr e] w = (Inr rw, w1)" "ok w1"
    using count_works [OF assms(1)] by blast
  obtain n where rw: "rw = [SInt n]" using count_row [of pool c e w rw] count(1) by auto
  obtain t w2 where tx: "pool_Begin drv pool c w1 = (Inr t, w2)" "ok w2"
    using begin_works [OF count(2)] by blast
  note t2 = begin_tx [OF tx(1)]
  obtain k w3 where exec: "tx_Exec drv t c sql [] w2 = (Inr k, w3)" "ok w3"
    using exec_works [OF tx(2) t2] by blast
  note t3 = exec_tx [OF t2 exec(1)]
  obtain m w4 where rec: "tx_Exec drv t c sql_record_migration [SStr e] w3 = (Inr m, w4)" "ok w4"
    using exec_works [OF exec(2) t3] by blast
  obtain w5 where "tx_Commit drv t c w4 = (None, w5)" "ok w5"
    using commit_works [OF rec(2) exec_tx [OF t3 rec(1)]] by blast
  then show ?thesis
    using assms(2) count tx exec rec by (simp add: migrate_one_def migrate_tx_def rw)
qed

lemma migrate_all_works:
  assumes "ok w" "\<And>e. e \<in> set es \<Longrightarrow> map_of fs e \<noteq> None"
  shows "\<exists>w'. migrate_all drv fs c pool es w = (None, w') \<and> ok w'"
  using assms
proof (induction es arbitrary: w)
  case (Cons e es)
  obtain sql where "map_of fs e = Some sql" using Cons.prems(2) [of e] by auto
  from migrate_one_works [OF Cons.prems(1) this] obtain w1 where
    w1: "migrate_one drv fs c pool e w = (None, w1)" "ok w1" by blast
  from Cons.IH [OF w1(2)] Cons.prems(2) w1(1) show ?case by simp
qed simp

lemma migrations_Up_works:
  assumes "ok w"
  shows "\<exists>w'. migrations_Up drv fs c pool w = (None, w') \<and> ok w'"
proof -
  obtain n w1 where "pool_Exec drv pool c sql_create_migrations [] w = (Inr n, w1)" "ok w1"
    using create_works [OF assms] by blast
  with migrate_all_works [of w1 "up_migrations fs" fs c] glob_up_in_fs show ?thesis
    by (simp add: migrations_Up_def)
qed

end

text \<open>\<open>MigrationFile\<close> removes one extension, not the suffix its comment names.\<close>

lemma migration_file_keeps_up:
  "MigrationFile ''000001_create_users.up.sql'' = ''000001_create_users.up''"
  by code_simp

end
