(* ===== verification/Platform.thy ===== *)
theory Platform
  imports OrderCache Pgx Config Vault Tls Telemetry Shutdown Migrations
begin

text \<open>
  What the two \<open>main\<close> functions share: the libraries they call (the connection pools of
  \<open>pgxpool\<close>, the gRPC server, the network, the Redis connection) as records of functions over the
  state of the outside world, the health server, and the interface \<open>pgx_pools\<close>, which states what is
  relied on of connection pools.
\<close>

section \<open>Libraries\<close>

record pool_config =
  PoolConfig_ConnString :: string
  PoolConfig_MaxConns :: int32
  PoolConfig_MinConns :: int32
  PoolConfig_MaxConnLifetime :: duration
  PoolConfig_MaxConnIdleTime :: duration
  PoolConfig_HealthCheckPeriod :: duration

record 'w pgxpool =
  pgxpool_ParseConfig :: "string \<Rightarrow> go_error + pool_config"
  pgxpool_NewWithConfig :: "ctx \<Rightarrow> pool_config \<Rightarrow> 'w \<Rightarrow> (go_error + nat) \<times> 'w"
  pgxpool_Ping :: "poolref \<Rightarrow> ctx \<Rightarrow> 'w \<Rightarrow> go_error option \<times> 'w"

record 'w net_api =
  net_Listen :: "string \<Rightarrow> 'w \<Rightarrow> (go_error + nat) \<times> 'w"
  grpc_GracefulStop :: "'w \<Rightarrow> 'w"
  http_Shutdown :: "ctx \<Rightarrow> 'w \<Rightarrow> go_error option \<times> 'w"

record 'w redis_api =
  redis_ParseURL :: "string \<Rightarrow> go_error + string"
  redis_NewClient :: "string \<Rightarrow> 'w \<Rightarrow> nat \<times> 'w"
  redis_Ping :: "rdbref \<Rightarrow> ctx \<Rightarrow> 'w \<Rightarrow> go_error option \<times> 'w"
  redis_Close :: "rdbref \<Rightarrow> 'w \<Rightarrow> go_error option \<times> 'w"

record 'w platform =
  pf_os :: os_env
  pf_zap :: "'w zap_api"
  pf_otel :: "'w otel_api"
  pf_vault :: "'w vault_api"
  pf_pools :: "'w pgxpool"
  pf_drv :: "'w pgx"
  pf_x509 :: x509
  pf_dialer :: "'w grpc_dialer"
  pf_net :: "'w net_api"
  pf_redis :: "'w redis_api"

text \<open>
  How \<open>main\<close> ends before it serves: \<open>logger.Fatal\<close>, or a panic (a method of the nil logger).
\<close>

datatype main_exit = FatalExit string | PanicExit

section \<open>The gRPC server and its health service\<close>

datatype serving_status = SERVING | NOT_SERVING

type_synonym health = "string \<rightharpoonup> serving_status"

record grpc_server =
  gs_creds :: "tls_config option"     \<comment> \<open>\<open>None\<close>: connections are not secured\<close>
  gs_MaxRecvMsgSize :: int
  gs_services :: "string list"

section \<open>Connection pools\<close>

text \<open>
  \<open>created\<close> are the pools made so far, \<open>opened\<close> those among them that are not closed. A new pool is
  none of the earlier ones; closing a pool affects no other; a closed pool does not answer a ping.
\<close>

locale pgx_pools =
  fixes drv :: "'w pgx" and pools :: "'w pgxpool"
    and created opened :: "'w \<Rightarrow> nat set"
  assumes opened_created: "opened w \<subseteq> created w"
    and new_pool: "pgxpool_NewWithConfig pools c cfg w = (Inr p, w') \<Longrightarrow>
      p \<notin> created w \<and> created w' = insert p (created w) \<and> opened w' = insert p (opened w)"
    and new_fails: "pgxpool_NewWithConfig pools c cfg w = (Inl err, w') \<Longrightarrow>
      created w' = created w \<and> opened w' = opened w"
    and close_pool: "created (pool_Close drv (Some p) w) = created w"
      "opened (pool_Close drv (Some p) w) = opened w - {p}"
    and ping_keeps: "created (snd (pgxpool_Ping pools q c w)) = created w"
      "opened (snd (pgxpool_Ping pools q c w)) = opened w"
    and ping_closed: "p \<notin> opened w \<Longrightarrow> fst (pgxpool_Ping pools (Some p) c w) \<noteq> None"

end
