(* ===== verification/Interceptors.thy ===== *)
theory Interceptors
  imports UserService OrderService
begin

text \<open>
  The unary interceptors of \<open>src/services/user-service/main.go\<close> and
  \<open>src/services/order-service/main.go\<close> (two copies of the same code), and the chain that every call
  passes through. A handler may panic; the logger and the clock are parameters.
\<close>

section \<open>The interceptors\<close>

datatype log_entry = LogPanic string | LogWarn string duration string | LogInfo string duration

record 'w server_env =
  srv_log :: "log_entry \<Rightarrow> 'w \<Rightarrow> 'w"
  srv_now :: "'w \<Rightarrow> time \<times> 'w"
  srv_code_name :: "code \<Rightarrow> string"   \<comment> \<open>\<open>codes.Code.String\<close>\<close>

type_synonym ('q, 'r, 'w) handler = "ctx \<Rightarrow> 'q \<Rightarrow> 'w \<Rightarrow> (status + 'r) outcome \<times> 'w"

text \<open>\<open>time.Since\<close>: a difference of times, saturated to an int64.\<close>

definition time_Sub :: "time \<Rightarrow> time \<Rightarrow> duration" where
  "time_Sub t u = max (- (2 ^ 63)) (min (2 ^ 63 - 1) (t - u))"

definition recoveryInterceptor ::
  "'w server_env \<Rightarrow> ctx \<Rightarrow> 'q \<Rightarrow> string \<Rightarrow> ('q, 'r, 'w) handler \<Rightarrow> 'w \<Rightarrow>
   (status + 'r) outcome \<times> 'w" where
  "recoveryInterceptor srv c req method handler w =
     (case handler c req w of
        (Panicked, w') \<Rightarrow>
          (Done (Inl (Status Internal ''internal server error'')), srv_log srv (LogPanic method) w')
      | (Done res, w') \<Rightarrow> (Done res, w'))"

definition loggingInterceptor ::
  "'w server_env \<Rightarrow> ctx \<Rightarrow> 'q \<Rightarrow> string \<Rightarrow> ('q, 'r, 'w) handler \<Rightarrow> 'w \<Rightarrow>
   (status + 'r) outcome \<times> 'w" where
  "loggingInterceptor srv c req method handler w =
     (case srv_now srv w of
        (start, w1) \<Rightarrow>
          (case handler c req w1 of
             (Panicked, w2) \<Rightarrow> (Panicked, w2)
           | (Done res, w2) \<Rightarrow>
               (case srv_now srv w2 of
                  (stop, w3) \<Rightarrow>
                    (let d = time_Sub stop start
                     in (Done res,
                         case res of
                           Inl err \<Rightarrow> srv_log srv (LogWarn method d (srv_code_name srv (status_code err))) w3
                         | Inr _ \<Rightarrow> srv_log srv (LogInfo method d) w3)))))"

text \<open>The order service's copies.\<close>

definition order_recoveryInterceptor ::
  "'w server_env \<Rightarrow> ctx \<Rightarrow> 'q \<Rightarrow> string \<Rightarrow> ('q, 'r, 'w) handler \<Rightarrow> 'w \<Rightarrow>
   (status + 'r) outcome \<times> 'w" where
  "order_recoveryInterceptor srv c req method handler w =
     (case handler c req w of
        (Panicked, w') \<Rightarrow>
          (Done (Inl (Status Internal ''internal server error'')), srv_log srv (LogPanic method) w')
      | (Done res, w') \<Rightarrow> (Done res, w'))"

definition order_loggingInterceptor ::
  "'w server_env \<Rightarrow> ctx \<Rightarrow> 'q \<Rightarrow> string \<Rightarrow> ('q, 'r, 'w) handler \<Rightarrow> 'w \<Rightarrow>
   (status + 'r) outcome \<times> 'w" where
  "order_loggingInterceptor srv c req method handler w =
     (case srv_now srv w of
        (start, w1) \<Rightarrow>
          (case handler c req w1 of
             (Panicked, w2) \<Rightarrow> (Panicked, w2)
           | (Done res, w2) \<Rightarrow>
               (case srv_now srv w2 of
                  (stop, w3) \<Rightarrow>
                    (let d = time_Sub stop start
                     in (Done res,
                         case res of
                           Inl err \<Rightarrow> srv_log srv (LogWarn method d (srv_code_name srv (status_code err))) w3
                         | Inr _ \<Rightarrow> srv_log srv (LogInfo method d) w3)))))"

section \<open>The chain\<close>

text \<open>\<open>grpc.ChainUnaryInterceptor\<close>: the first interceptor is the outermost.\<close>

definition user_chain ::
  "'w server_env \<Rightarrow> ctx \<Rightarrow> 'q \<Rightarrow> string \<Rightarrow> ('q, 'r, 'w) handler \<Rightarrow> 'w \<Rightarrow>
   (status + 'r) outcome \<times> 'w" where
  "user_chain srv c req method handler w =
     recoveryInterceptor srv c req method
       (\<lambda>c' req'. loggingInterceptor srv c' req' method handler) w"

definition order_chain ::
  "'w server_env \<Rightarrow> ctx \<Rightarrow> 'q \<Rightarrow> string \<Rightarrow> ('q, 'r, 'w) handler \<Rightarrow> 'w \<Rightarrow>
   (status + 'r) outcome \<times> 'w" where
  "order_chain srv c req method handler w =
     order_recoveryInterceptor srv c req method
       (\<lambda>c' req'. order_loggingInterceptor srv c' req' method handler) w"

text \<open>The full method names of the calls.\<close>

fun user_method :: "user_call \<Rightarrow> string" where
  "user_method (CallCreateUser _) = ''/user.v1.UserService/CreateUser''"
| "user_method (CallGetUser _) = ''/user.v1.UserService/GetUser''"
| "user_method (CallUpdateUser _) = ''/user.v1.UserService/UpdateUser''"
| "user_method (CallDeleteUser _) = ''/user.v1.UserService/DeleteUser''"

fun order_method :: "order_call \<Rightarrow> string" where
  "order_method (CallCreateOrder _) = ''/order.v1.OrderService/CreateOrder''"
| "order_method (CallGetOrder _) = ''/order.v1.OrderService/GetOrder''"
| "order_method (CallListOrders _) = ''/order.v1.OrderService/ListOrders''"
| "order_method (CallCancelOrder _) = ''/order.v1.OrderService/CancelOrder''"

text \<open>A call as the servers run it.\<close>

definition user_serve ::
  "'w server_env \<Rightarrow> 'w pgx \<Rightarrow> UserServiceServer \<Rightarrow> ctx \<Rightarrow> user_call \<Rightarrow> 'w \<Rightarrow>
   (status + user_reply) outcome \<times> 'w" where
  "user_serve srv drv s c call w =
     user_chain srv c call (user_method call)
       (\<lambda>c' call' w'. apfst Done (UserService_dispatch drv s c' call' w')) w"

definition order_serve ::
  "'w server_env \<Rightarrow> 'w order_env \<Rightarrow> 'w user_conn \<Rightarrow> OrderServiceServer \<Rightarrow> ctx \<Rightarrow> order_call \<Rightarrow> 'w \<Rightarrow>
   (status + order_reply) outcome \<times> 'w" where
  "order_serve srv env conn s c call w =
     order_chain srv c call (order_method call) (OrderService_dispatch env conn s) w"

section \<open>Facts\<close>

lemma order_interceptors [simp]:
  "order_recoveryInterceptor = recoveryInterceptor" "order_loggingInterceptor = loggingInterceptor"
  by (intro ext; simp add: order_recoveryInterceptor_def recoveryInterceptor_def
        order_loggingInterceptor_def loggingInterceptor_def)+

lemma order_chain_eq [simp]: "order_chain = user_chain"
  by (intro ext) (simp add: order_chain_def user_chain_def)

text \<open>The clock and the logger do not touch the part \<open>view\<close> of the state.\<close>

locale quiet_server =
  fixes srv :: "'w server_env" and view :: "'w \<Rightarrow> 'v"
  assumes log_view [simp]: "view (srv_log srv e w) = view w"
    and now_view [simp]: "view (snd (srv_now srv w)) = view w"
begin

text \<open>
  The chain turns a panic into the status Internal and is otherwise transparent: the reply of the
  handler, started in a state with the same view, is the reply of the chain.
\<close>

lemma chain_transparent:
  obtains w1 where "view w1 = view w"
    "fst (user_chain srv c req m handler w) =
       (case fst (handler c req w1) of
          Panicked \<Rightarrow> Done (Inl (Status Internal ''internal server error''))
        | Done res \<Rightarrow> Done res)"
    "view (snd (user_chain srv c req m handler w)) = view (snd (handler c req w1))"
proof -
  obtain t w1 where t: "srv_now srv w = (t, w1)" by fastforce
  obtain q w2 where h: "handler c req w1 = (q, w2)" by fastforce
  have v1: "view w1 = view w" using now_view [of w] t by simp
  have v3: "view w3 = view w2" if "srv_now srv w2 = (t', w3)" for t' w3
    using now_view [of w2] that by simp
  have "fst (user_chain srv c req m handler w) =
      (case q of Panicked \<Rightarrow> Done (Inl (Status Internal ''internal server error'')) | Done res \<Rightarrow> Done res)"
    "view (snd (user_chain srv c req m handler w)) = view w2"
    using v3 by (auto simp: user_chain_def recoveryInterceptor_def loggingInterceptor_def t h Let_def
        split: outcome.splits prod.splits sum.splits)
  with that [of w1] v1 h show thesis by simp
qed

lemma chain_view:
  assumes "\<And>v. view (snd (handler c req v)) = view v"
  shows "view (snd (user_chain srv c req m handler w)) = view w"
  by (rule chain_transparent [of w c req m handler]) (simp add: assms)

end

lemma chain_no_panic: "fst (user_chain srv c req m handler w) \<noteq> Panicked"
  by (auto simp: user_chain_def recoveryInterceptor_def split: prod.splits outcome.splits)

end
