(* ===== verification/Rotation.thy ===== *)
theory Rotation
  imports Platform Interceptors
begin

text \<open>
  A service while it runs: the calls it serves, the credential refresher that replaces the
  repository's pool and the health monitor, as a step relation over the repository, the health
  server and the outside world. The locale \<open>rotating_server\<close> states what the goroutines do to the set
  of connection pools; its lemmas say which pools are open in every reachable state and what the
  health monitor reports. Both services are instances.
\<close>

section \<open>The step relation\<close>

record ('r, 'w) server_state =
  st_repo :: 'r
  st_health :: health
  st_w :: 'w

text \<open>
  \<open>fetch\<close> is \<open>GetDBCreds\<close> in the refresher, \<open>refresh\<close> its callback, \<open>tick\<close> one round of the health
  monitor, and \<open>serve\<close> a call through the interceptors.
\<close>

inductive server_step ::
  "('w \<Rightarrow> (go_error + DBCreds) \<times> 'w) \<Rightarrow> (DBCreds \<Rightarrow> 'r \<Rightarrow> 'w \<Rightarrow> 'r \<times> 'w) \<Rightarrow>
   (health \<Rightarrow> 'w \<Rightarrow> health \<times> 'w) \<Rightarrow> ('r \<Rightarrow> 'c \<Rightarrow> 'w \<Rightarrow> 'w) \<Rightarrow>
   ('r, 'w) server_state \<Rightarrow> ('r, 'w) server_state \<Rightarrow> bool"
  for fetch refresh tick serve where
  refreshed: "fetch (st_w s) = (Inr creds, w1) \<Longrightarrow> refresh creds (st_repo s) w1 = (repo', w2) \<Longrightarrow>
    server_step fetch refresh tick serve s (s\<lparr>st_repo := repo', st_w := w2\<rparr>)"
| not_refreshed: "fetch (st_w s) = (Inl err, w1) \<Longrightarrow>
    server_step fetch refresh tick serve s (s\<lparr>st_w := w1\<rparr>)"
| ticked: "tick (st_health s) (st_w s) = (h', w1) \<Longrightarrow>
    server_step fetch refresh tick serve s (s\<lparr>st_health := h', st_w := w1\<rparr>)"
| served: "server_step fetch refresh tick serve s (s\<lparr>st_w := serve (st_repo s) call (st_w s)\<rparr>)"

inductive server_reach ::
  "('w \<Rightarrow> (go_error + DBCreds) \<times> 'w) \<Rightarrow> (DBCreds \<Rightarrow> 'r \<Rightarrow> 'w \<Rightarrow> 'r \<times> 'w) \<Rightarrow>
   (health \<Rightarrow> 'w \<Rightarrow> health \<times> 'w) \<Rightarrow> ('r \<Rightarrow> 'c \<Rightarrow> 'w \<Rightarrow> 'w) \<Rightarrow>
   ('r, 'w) server_state \<Rightarrow> ('r, 'w) server_state \<Rightarrow> bool"
  for fetch refresh tick serve where
  reach_refl: "server_reach fetch refresh tick serve s s"
| reach_step: "server_reach fetch refresh tick serve s t \<Longrightarrow> server_step fetch refresh tick serve t u \<Longrightarrow>
    server_reach fetch refresh tick serve s u"

inductive_cases server_stepE [consumes 1, case_names refreshed not_refreshed ticked served]:
  "server_step fetch refresh tick serve s t"

lemma server_reach_trans:
  "server_reach f r t c x y \<Longrightarrow> server_reach f r t c y z \<Longrightarrow> server_reach f r t c x z"
  by (rotate_tac 1, induction rule: server_reach.induct) (auto intro: server_reach.intros)

lemma server_reach_invariant:
  assumes "server_reach f r t c x y" "P x" "\<And>y z. P y \<Longrightarrow> server_step f r t c y z \<Longrightarrow> P z"
  shows "P y"
  using assms by (induction rule: server_reach.induct) auto

text \<open>The steps of the refresher and of the monitor as functions.\<close>

definition server_refresh ::
  "('w \<Rightarrow> (go_error + DBCreds) \<times> 'w) \<Rightarrow> (DBCreds \<Rightarrow> 'r \<Rightarrow> 'w \<Rightarrow> 'r \<times> 'w) \<Rightarrow>
   ('r, 'w) server_state \<Rightarrow> ('r, 'w) server_state" where
  "server_refresh fetch refresh s =
     (case fetch (st_w s) of
        (Inr creds, w1) \<Rightarrow>
          (case refresh creds (st_repo s) w1 of (repo', w2) \<Rightarrow> s\<lparr>st_repo := repo', st_w := w2\<rparr>)
      | (Inl err, w1) \<Rightarrow> s\<lparr>st_w := w1\<rparr>)"

definition server_tick ::
  "(health \<Rightarrow> 'w \<Rightarrow> health \<times> 'w) \<Rightarrow> ('r, 'w) server_state \<Rightarrow> ('r, 'w) server_state" where
  "server_tick tick s =
     (case tick (st_health s) (st_w s) of (h', w1) \<Rightarrow> s\<lparr>st_health := h', st_w := w1\<rparr>)"

lemma server_step_refresh: "server_step f r t c s (server_refresh f r s)"
  by (auto simp: server_refresh_def intro: refreshed not_refreshed split: prod.split sum.split)

lemma server_step_tick: "server_step f r t c s (server_tick t s)"
  by (auto simp: server_tick_def intro: ticked split: prod.split)

lemmas server_reach_step1 = reach_step [OF reach_refl]

section \<open>Rotation of the pool\<close>

text \<open>\<open>p0\<close> is the pool that \<open>main\<close> opened; the health monitor pings it for ever.\<close>

locale rotating_server =
  fixes fetch :: "'w \<Rightarrow> (go_error + DBCreds) \<times> 'w"
    and refresh :: "DBCreds \<Rightarrow> 'r \<Rightarrow> 'w \<Rightarrow> 'r \<times> 'w"
    and tick :: "health \<Rightarrow> 'w \<Rightarrow> health \<times> 'w"
    and serve :: "'r \<Rightarrow> 'c \<Rightarrow> 'w \<Rightarrow> 'w"
    and pool_of :: "'r \<Rightarrow> poolref"
    and created opened :: "'w \<Rightarrow> nat set"
    and p0 :: nat
    and name :: string
  assumes fetch_keeps: "created (snd (fetch w)) = created w" "opened (snd (fetch w)) = opened w"
    and refresh_pool: "refresh creds r w = (r', w') \<Longrightarrow> pool_of r = Some p \<Longrightarrow>
      r' = r \<and> created w' = created w \<and> opened w' = opened w \<or>
      (\<exists>q. q \<notin> created w \<and> pool_of r' = Some q \<and> created w' = insert q (created w) \<and>
           opened w' = insert q (opened w) - {p})"
    and tick_keeps: "created (snd (tick h w)) = created w" "opened (snd (tick h w)) = opened w"
    and tick_closed: "p0 \<notin> opened w \<Longrightarrow> fst (tick h w) name = Some NOT_SERVING"
    and serve_keeps: "created (serve r call w) = created w" "opened (serve r call w) = opened w"
begin

abbreviation reach :: "('r, 'w) server_state \<Rightarrow> ('r, 'w) server_state \<Rightarrow> bool" where
  "reach \<equiv> server_reach fetch refresh tick serve"

text \<open>
  Besides the pools \<open>base\<close> of others, exactly the pool of the repository is open, and it is the first
  one or one that was made later.
\<close>

definition pools_ok :: "nat set \<Rightarrow> ('r, 'w) server_state \<Rightarrow> bool" where
  "pools_ok base s \<longleftrightarrow> p0 \<notin> base \<and> insert p0 base \<subseteq> created (st_w s) \<and>
     (\<exists>p. pool_of (st_repo s) = Some p \<and> p \<notin> base \<and> p \<in> created (st_w s) \<and>
          opened (st_w s) = insert p base)"

lemma step_pools:
  assumes "pools_ok base s" "server_step fetch refresh tick serve s t"
  shows "pools_ok base t"
  using assms(2)
proof (cases rule: server_stepE)
  case (refreshed creds w1 repo' w2)
  obtain p where p: "pool_of (st_repo s) = Some p" "p \<notin> base" "opened (st_w s) = insert p base"
    using assms(1) by (auto simp: pools_ok_def)
  have w1: "created w1 = created (st_w s)" "opened w1 = opened (st_w s)"
    using fetch_keeps [of "st_w s"] refreshed by simp_all
  from refresh_pool [OF \<open>refresh creds (st_repo s) w1 = (repo', w2)\<close> p(1)] show ?thesis
  proof (elim disjE exE conjE)
    assume "repo' = st_repo s" "created w2 = created w1" "opened w2 = opened w1"
    then show ?thesis using assms(1) refreshed w1 by (simp add: pools_ok_def)
  next
    fix q
    assume q: "q \<notin> created w1" "pool_of repo' = Some q" "created w2 = insert q (created w1)"
      "opened w2 = insert q (opened w1) - {p}"
    have "q \<noteq> p" "q \<notin> base" using assms(1) q(1) w1 p by (auto simp: pools_ok_def)
    then have "opened w2 = insert q base" using q(4) w1 p by auto
    then show ?thesis using assms(1) q w1 refreshed \<open>q \<notin> base\<close> by (auto simp: pools_ok_def)
  qed
next
  case (not_refreshed err w1)
  then show ?thesis using assms(1) fetch_keeps [of "st_w s"] by (simp add: pools_ok_def)
next
  case (ticked h' w1)
  then show ?thesis using assms(1) tick_keeps [of "st_health s" "st_w s"] by (simp add: pools_ok_def)
next
  case (served call)
  then show ?thesis using assms(1) serve_keeps by (simp add: pools_ok_def)
qed

lemma reach_pools: "reach s t \<Longrightarrow> pools_ok base s \<Longrightarrow> pools_ok base t"
  by (erule server_reach_invariant) (auto intro: step_pools)

text \<open>After a rotation the first pool is closed, for good.\<close>

definition rotated :: "nat set \<Rightarrow> ('r, 'w) server_state \<Rightarrow> bool" where
  "rotated base s \<longleftrightarrow> pools_ok base s \<and> pool_of (st_repo s) \<noteq> Some p0"

lemma rotated_closed: "rotated base s \<Longrightarrow> p0 \<notin> opened (st_w s)"
  by (auto simp: rotated_def pools_ok_def)

lemma step_rotated:
  assumes "rotated base s" "server_step fetch refresh tick serve s t"
  shows "rotated base t"
  unfolding rotated_def
proof (rule conjI)
  show "pools_ok base t" using assms step_pools by (auto simp: rotated_def)
  show "pool_of (st_repo t) \<noteq> Some p0"
    using assms(2)
  proof (cases rule: server_stepE)
    case (refreshed creds w1 repo' w2)
    obtain p where p: "pool_of (st_repo s) = Some p" using assms(1) by (auto simp: rotated_def pools_ok_def)
    have "p0 \<in> created w1"
      using assms(1) fetch_keeps [of "st_w s"] refreshed by (auto simp: rotated_def pools_ok_def)
    then show ?thesis
      using refresh_pool [OF \<open>refresh creds (st_repo s) w1 = (repo', w2)\<close> p] assms(1) refreshed
      by (auto simp: rotated_def)
  qed (use assms(1) in \<open>auto simp: rotated_def\<close>)
qed

text \<open>From the first round of the monitor after a rotation on, the service is reported as not serving.\<close>

lemma stuck_step:
  assumes "rotated base s" "st_health s name = Some NOT_SERVING"
    "server_step fetch refresh tick serve s t"
  shows "st_health t name = Some NOT_SERVING"
  using assms(3)
proof (cases rule: server_stepE)
  case (ticked h' w1)
  then show ?thesis
    using tick_closed [OF rotated_closed [OF assms(1)], of "st_health s"] by simp
qed (use assms(2) in auto)

lemma stuck_reach:
  assumes "reach s t" "rotated base s" "st_health s name = Some NOT_SERVING"
  shows "rotated base t \<and> st_health t name = Some NOT_SERVING"
  using assms(1) by (rule server_reach_invariant) (use assms(2,3) step_rotated stuck_step in blast)+

lemma stuck_tick:
  assumes "rotated base s" "reach (server_tick tick s) t"
  shows "rotated base t \<and> st_health t name = Some NOT_SERVING"
proof (rule stuck_reach [OF assms(2)])
  show "rotated base (server_tick tick s)" using assms(1) server_step_tick by (rule step_rotated)
  show "st_health (server_tick tick s) name = Some NOT_SERVING"
    using tick_closed [OF rotated_closed [OF assms(1)], of "st_health s"]
    by (simp add: server_tick_def case_prod_unfold)
qed

end

section \<open>Operations that do not touch the pools\<close>

text \<open>A driver whose queries and transactions leave the part \<open>view\<close> of the state alone.\<close>

locale quiet_driver =
  fixes drv :: "'w pgx" and view :: "'w \<Rightarrow> 'v"
  assumes QueryRow_view: "view (snd (pool_QueryRow drv p c s a w)) = view w"
    and Query_view: "view (snd (pool_Query drv p c s a w)) = view w"
    and Exec_view: "view (snd (pool_Exec drv p c s a w)) = view w"
    and Begin_view: "view (snd (pool_Begin drv p c w)) = view w"
    and tx_QueryRow_view: "view (snd (tx_QueryRow drv t c s a w)) = view w"
    and tx_Exec_view: "view (snd (tx_Exec drv t c s a w)) = view w"
    and Commit_view: "view (snd (tx_Commit drv t c w)) = view w"
    and Rollback_view: "view (tx_Rollback drv t c w) = view w"
begin

lemma User_Create_view: "view (snd (UserRepository_Create drv r c n e w)) = view w"
  by (simp add: UserRepository_Create_def Let_def case_prod_unfold QueryRow_view split: sum.split option.split)

lemma User_Get_view: "view (snd (UserRepository_Get drv r c i w)) = view w"
  by (simp add: UserRepository_Get_def Let_def case_prod_unfold QueryRow_view split: sum.split option.split)

lemma User_Update_view: "view (snd (UserRepository_Update drv r c i n e ns es w)) = view w"
  by (simp add: UserRepository_Update_def Let_def case_prod_unfold User_Get_view QueryRow_view
      split: sum.split option.split)

lemma User_Delete_view: "view (snd (UserRepository_Delete drv r c i w)) = view w"
  by (simp add: UserRepository_Delete_def Let_def case_prod_unfold Exec_view split: sum.split)

lemma UserService_dispatch_view: "view (snd (UserService_dispatch drv s c call w)) = view w"
proof (cases call)
  case (CallCreateUser req)
  then show ?thesis
    by (simp add: CreateUser_def Let_def case_prod_unfold User_Create_view split: sum.split)
next
  case (CallGetUser req)
  then show ?thesis
    by (simp add: GetUser_def case_prod_unfold User_Get_view split: sum.split option.split)
next
  case (CallUpdateUser req)
  then show ?thesis
    by (simp add: UpdateUser_def case_prod_unfold User_Update_view split: sum.split option.split)
next
  case (CallDeleteUser req)
  then show ?thesis
    by (simp add: DeleteUser_def case_prod_unfold User_Delete_view split: sum.split)
qed

end

text \<open>The order service's environment and its connection to the user service, likewise.\<close>

locale quiet_order = quiet_driver "env_drv env" view
  for env :: "'w order_env" and view :: "'w \<Rightarrow> 'v" +
  fixes conn :: "'w user_conn"
  assumes redis_Get_view: "view (snd (redis_Get (env_red env) p c k w)) = view w"
    and redis_Set_view: "view (snd (redis_Set (env_red env) p c k d t w)) = view w"
    and redis_Del_view: "view (snd (redis_Del (env_red env) p c k w)) = view w"
    and uuid_view: "view (snd (env_uuid env w)) = view w"
    and rpc_view: "view (snd (rpc_GetUser conn c req w)) = view w"
begin

lemma cache_Get_view: "view (snd (OrderCache_Get (env_red env) js oc c i w)) = view w"
  by (simp add: OrderCache_Get_def case_prod_unfold redis_Get_view split: redis_reply.split sum.split)

lemma cache_Set_view: "view (snd (OrderCache_Set (env_red env) js oc c order w)) = view w"
  by (simp add: OrderCache_Set_def redis_Set_view split: sum.split)

lemma cache_Invalidate_view: "view (OrderCache_Invalidate (env_red env) oc c i w) = view w"
  by (simp add: OrderCache_Invalidate_def redis_Del_view)

lemma Create_items_view: "view (snd (Create_items env tx c i items w)) = view w"
  by (induction items arbitrary: w)
    (simp_all add: case_prod_unfold tx_Exec_view uuid_view split: option.split sum.split)

lemma Create_body_view: "view (snd (Create_body env tx c u items w)) = view w"
  by (simp add: Create_body_def case_prod_unfold Create_items_view tx_QueryRow_view uuid_view Commit_view
      split: option.split sum.split outcome.split)

lemma Repository_Create_view: "view (snd (OrderRepository_Create env r c u items w)) = view w"
  by (simp add: OrderRepository_Create_def Let_def case_prod_unfold Rollback_view Begin_view Create_body_view
      split: sum.split)

lemma getItems_view: "view (snd (OrderRepository_getItems env r c i w)) = view w"
  by (simp add: OrderRepository_getItems_def Let_def case_prod_unfold Query_view split: sum.split)

lemma getFromDB_view: "view (snd (OrderRepository_getFromDB env r c i w)) = view w"
  by (simp add: OrderRepository_getFromDB_def Let_def case_prod_unfold getItems_view QueryRow_view
      split: option.split sum.split)

lemma Repository_Get_view: "view (snd (OrderRepository_Get env r c i w)) = view w"
  by (simp add: OrderRepository_Get_def case_prod_unfold cache_Set_view getFromDB_view cache_Get_view
      split: option.split sum.split)

lemma Repository_Cancel_view: "view (snd (OrderRepository_Cancel env r c i w)) = view w"
  by (simp add: OrderRepository_Cancel_def Let_def case_prod_unfold getFromDB_view cache_Invalidate_view
      QueryRow_view split: option.split sum.split)

lemma Repository_List_view: "view (snd (OrderRepository_List env r c u pg ps w)) = view w"
  by (simp add: OrderRepository_List_def Let_def case_prod_unfold QueryRow_view Query_view
      split: option.split sum.split)

lemma UserClient_GetUser_view: "view (snd (UserClient_GetUser conn c i w)) = view w"
  by (simp add: UserClient_GetUser_def case_prod_unfold rpc_view split: sum.split option.split)

lemma OrderService_dispatch_view: "view (snd (OrderService_dispatch env conn s c call w)) = view w"
proof (cases call)
  case (CallCreateOrder req)
  then show ?thesis
    by (simp add: CreateOrder_def Let_def case_prod_unfold UserClient_GetUser_view Repository_Create_view
        split: outcome.split option.split sum.split)
next
  case (CallGetOrder req)
  then show ?thesis
    by (simp add: GetOrder_def case_prod_unfold Repository_Get_view split: option.split sum.split)
next
  case (CallListOrders req)
  then show ?thesis
    by (simp add: ListOrders_def Let_def case_prod_unfold Repository_List_view split: sum.split)
next
  case (CallCancelOrder req)
  then show ?thesis
    by (simp add: CancelOrder_def case_prod_unfold Repository_Cancel_view split: option.split sum.split)
qed

end

end
