(* ===== verification/UserMain.thy ===== *)
theory UserMain
  imports Platform UserService
begin

text \<open>
  \<open>src/services/user-service/main.go\<close>: the user service's process. Connection pools and their
  rotation, the health monitor, start-up with its fatal exits, and shutdown. Log lines are left out;
  the interceptors are in \<open>Interceptors\<close>.
\<close>

section \<open>The connection pool\<close>

definition newPool ::
  "'w pgxpool \<Rightarrow> ctx \<Rightarrow> string \<Rightarrow> UserConfig \<Rightarrow> 'w \<Rightarrow> (go_error + nat) \<times> 'w" where
  "newPool pools c databaseURL cfg w =
     (case pgxpool_ParseConfig pools databaseURL of
        Inl err \<Rightarrow> (Inl (''parse pool config: '' @ err), w)
      | Inr poolCfg0 \<Rightarrow>
          (let poolCfg = poolCfg0
                 \<lparr>PoolConfig_MaxConns := UserConfig_DBPoolMaxConns cfg,
                  PoolConfig_MinConns := UserConfig_DBPoolMinConns cfg,
                  PoolConfig_MaxConnLifetime := UserConfig_DBPoolMaxConnLifetime cfg,
                  PoolConfig_MaxConnIdleTime := UserConfig_DBPoolMaxConnIdleTime cfg,
                  PoolConfig_HealthCheckPeriod := UserConfig_DBPoolHealthCheckPeriod cfg\<rparr>
           in case pgxpool_NewWithConfig pools c poolCfg w of
                (Inl err, w') \<Rightarrow> (Inl (''create pool: '' @ err), w')
              | (Inr pool, w') \<Rightarrow> (Inr pool, w')))"

definition buildDatabaseURL :: "DBCreds \<Rightarrow> string" where
  "buildDatabaseURL creds =
     ''postgres://'' @ DBCreds_Username creds @ '':'' @ DBCreds_Password creds @
     ''@user-db:5432/users?sslmode=disable''"

text \<open>The callback of the credential refresher: the repository changes over to a new pool.\<close>

definition rotate_pool ::
  "'w platform \<Rightarrow> UserConfig \<Rightarrow> DBCreds \<Rightarrow> UserRepository \<Rightarrow> 'w \<Rightarrow> UserRepository \<times> 'w" where
  "rotate_pool pf cfg creds repo w =
     (let newURL = buildDatabaseURL creds
      in case newPool (pf_pools pf) Background newURL cfg w of
           (Inl err, w') \<Rightarrow> (repo, w')
         | (Inr pool, w') \<Rightarrow> UserRepository_SetPool (pf_drv pf) (Some pool) repo w')"

section \<open>The health monitor\<close>

definition health_tick ::
  "'w pgxpool \<Rightarrow> ctx \<Rightarrow> poolref \<Rightarrow> health \<Rightarrow> 'w \<Rightarrow> health \<times> 'w" where
  "health_tick pools c pool h w =
     (let pingCtx = WithTimeout c (5 * time_Second)
      in case pgxpool_Ping pools pool pingCtx w of
           (Some err, w') \<Rightarrow> (h(''user.v1.UserService'' \<mapsto> NOT_SERVING), w')
         | (None, w') \<Rightarrow> (h(''user.v1.UserService'' \<mapsto> SERVING), w'))"

text \<open>The loop, for the outcomes of its \<open>select\<close> statements; the flag tells that it has returned.\<close>

fun monitorDBHealth ::
  "'w pgxpool \<Rightarrow> ctx \<Rightarrow> poolref \<Rightarrow> wakeup list \<Rightarrow> health \<Rightarrow> 'w \<Rightarrow> bool \<times> health \<times> 'w" where
  "monitorDBHealth pools c pool [] h w = (False, h, w)"
| "monitorDBHealth pools c pool (CtxDone # ks) h w = (True, h, w)"
| "monitorDBHealth pools c pool (TimerFired # ks) h w =
     (case health_tick pools c pool h w of
        (h', w') \<Rightarrow> monitorDBHealth pools c pool ks h' w')"

section \<open>Start-up\<close>

text \<open>Credentials from Vault, where it is configured: the client and the URL of the database.\<close>

definition database_url ::
  "'w platform \<Rightarrow> UserConfig \<Rightarrow> 'w \<Rightarrow> (main_exit + VaultClient option \<times> string) \<times> 'w" where
  "database_url pf cfg w =
     (if UseVault cfg
      then (case Vault_New (pf_vault pf) (UserConfig_VaultAddr cfg) (UserConfig_VaultToken cfg) w of
              (Inl err, w1) \<Rightarrow> (Inl (FatalExit ''failed to create vault client''), w1)
            | (Inr vc, w1) \<Rightarrow>
                (case GetDBCreds (pf_vault pf) vc Background (UserConfig_VaultDBRole cfg) w1 of
                   (Inl err, w2) \<Rightarrow> (Inl (FatalExit ''failed to get db creds from vault''), w2)
                 | (Inr creds, w2) \<Rightarrow> (Inr (Some vc, buildDatabaseURL creds), w2)))
      else (Inr (None, UserConfig_DatabaseURL cfg), w))"

text \<open>The pool, with the schema migrations applied.\<close>

definition open_database ::
  "'w platform \<Rightarrow> UserConfig \<Rightarrow> string \<Rightarrow> 'w \<Rightarrow> (main_exit + nat) \<times> 'w" where
  "open_database pf cfg databaseURL w =
     (case newPool (pf_pools pf) Background databaseURL cfg w of
        (Inl err, w1) \<Rightarrow> (Inl (FatalExit ''failed to connect to database''), w1)
      | (Inr pool, w1) \<Rightarrow>
          (case migrations_Up (pf_drv pf) migrationsFS Background (Some pool) w1 of
             (Some err, w2) \<Rightarrow> (Inl (FatalExit ''failed to run migrations''), w2)
           | (None, w2) \<Rightarrow> (Inr pool, w2)))"

text \<open>
  The service once it serves: the variables of \<open>main\<close> that the goroutines and the shutdown use.
\<close>

record user_running =
  ur_cfg :: UserConfig
  ur_otel :: OTel
  ur_vc :: "VaultClient option"
  ur_pool :: poolref
  ur_svc :: UserServiceServer
  ur_server :: grpc_server
  ur_health :: health
  ur_metrics :: "string \<times> otel_ref"
  ur_lis :: nat

text \<open>The gRPC server, its health service and the metrics server, up to the listener.\<close>

definition user_start_servers ::
  "'w platform \<Rightarrow> UserConfig \<Rightarrow> OTel \<Rightarrow> VaultClient option \<Rightarrow> poolref \<Rightarrow> UserServiceServer \<Rightarrow> 'w \<Rightarrow>
   (main_exit + user_running) \<times> 'w" where
  "user_start_servers pf cfg ot vc pool svc w =
     (case LoadServerConfig (pf_os pf) (pf_x509 pf) (UserConfig_CertFile cfg) (UserConfig_KeyFile cfg)
             (UserConfig_CAFile cfg) of
        Inl err \<Rightarrow> (Inl (FatalExit ''failed to load TLS config''), w)
      | Inr creds \<Rightarrow>
          (let server = \<lparr>gs_creds = creds, gs_MaxRecvMsgSize = 4 * 1024 * 1024,
                         gs_services = [''user.v1.UserService'', ''grpc.health.v1.Health'',
                                        ''grpc.reflection'']\<rparr>;
               h = [''user.v1.UserService'' \<mapsto> SERVING]
           in case net_Listen (pf_net pf) ('':'' @ UserConfig_Port cfg) w of
                (Inl err, w') \<Rightarrow> (Inl (FatalExit ''failed to listen''), w')
              | (Inr lis, w') \<Rightarrow>
                  (Inr \<lparr>ur_cfg = cfg, ur_otel = ot, ur_vc = vc, ur_pool = pool, ur_svc = svc,
                        ur_server = server, ur_health = h,
                        ur_metrics = ('':'' @ UserConfig_MetricsPort cfg, MetricsHandler (pf_otel pf) ot),
                        ur_lis = lis\<rparr>, w')))"

text \<open>
  \<open>main\<close> up to its listener. The goroutines that it starts on the way (the credential refresher and
  the health monitor) are the steps of \<open>Services\<close>: they act on the state that is returned here.
\<close>

definition user_main :: "'w platform \<Rightarrow> 'w \<Rightarrow> (main_exit + user_running) \<times> 'w" where
  "user_main pf w =
     (let cfg = LoadConfig (pf_os pf)
      in case log_New (pf_zap pf) (UserConfig_LogLevel cfg) w of
        (Inl err, w1) \<Rightarrow> (Inl PanicExit, w1)
      | (Inr logger, w1) \<Rightarrow>
        (case otel_New (pf_otel pf) Background ''user-service'' (UserConfig_OTLPEndpoint cfg) w1 of
           (Inl err, w2) \<Rightarrow> (Inl (FatalExit ''failed to init OpenTelemetry''), w2)
         | (Inr ot, w2) \<Rightarrow>
           (case database_url pf cfg w2 of
              (Inl ex, w3) \<Rightarrow> (Inl ex, w3)
            | (Inr (vc, databaseURL), w3) \<Rightarrow>
              (case open_database pf cfg databaseURL w3 of
                 (Inl ex, w4) \<Rightarrow> (Inl ex, w4)
               | (Inr pool, w4) \<Rightarrow>
                   (let repo = NewUserRepository (Some pool);
                        svc = NewUserServiceServer repo
                    in user_start_servers pf cfg ot vc (Some pool) svc w4)))))"

section \<open>Shutdown\<close>

definition user_shutdown_callbacks :: "'w platform \<Rightarrow> user_running \<Rightarrow> 'w Callback list" where
  "user_shutdown_callbacks pf run =
     [\<lparr>Callback_Name = ''gRPC server'', Callback_Func = (\<lambda>c w. (None, grpc_GracefulStop (pf_net pf) w))\<rparr>,
      \<lparr>Callback_Name = ''OpenTelemetry'', Callback_Func = OTel_Shutdown (pf_otel pf) (ur_otel run)\<rparr>,
      \<lparr>Callback_Name = ''metrics server'', Callback_Func = http_Shutdown (pf_net pf)\<rparr>,
      \<lparr>Callback_Name = ''database pool'', Callback_Func = (\<lambda>c w. (None, pool_Close (pf_drv pf) (ur_pool run) w))\<rparr>]"

text \<open>The end of \<open>main\<close>: the callbacks, then the deferred \<open>pool.Close\<close>.\<close>

definition user_main_end ::
  "'w platform \<Rightarrow> user_running \<Rightarrow> stop_event \<Rightarrow> 'w \<Rightarrow> string list \<times> 'w" where
  "user_main_end pf run ev w =
     (case Graceful ev (30 * time_Second) (user_shutdown_callbacks pf run) w of
        (lines, w') \<Rightarrow> (lines, pool_Close (pf_drv pf) (ur_pool run) w'))"

end
