(* ===== verification/OrderMain.thy ===== *)
theory OrderMain
  imports Platform OrderService
begin

text \<open>
  \<open>src/services/order-service/main.go\<close>: the order service's process. Connection pools and their
  rotation, the health monitor, start-up with its fatal exits, and shutdown. Log lines are left out;
  the interceptors are in \<open>Interceptors\<close>.
\<close>

section \<open>The connection pool\<close>

definition order_newPool ::
  "'w pgxpool \<Rightarrow> ctx \<Rightarrow> string \<Rightarrow> OrderConfig \<Rightarrow> 'w \<Rightarrow> (go_error + nat) \<times> 'w" where
  "order_newPool pools c databaseURL cfg w =
     (case pgxpool_ParseConfig pools databaseURL of
        Inl err \<Rightarrow> (Inl (''parse pool config: '' @ err), w)
      | Inr poolCfg0 \<Rightarrow>
          (let poolCfg = poolCfg0
                 \<lparr>PoolConfig_MaxConns := OrderConfig_DBPoolMaxConns cfg,
                  PoolConfig_MinConns := OrderConfig_DBPoolMinConns cfg,
                  PoolConfig_MaxConnLifetime := OrderConfig_DBPoolMaxConnLifetime cfg,
                  PoolConfig_MaxConnIdleTime := OrderConfig_DBPoolMaxConnIdleTime cfg,
                  PoolConfig_HealthCheckPeriod := OrderConfig_DBPoolHealthCheckPeriod cfg\<rparr>
           in case pgxpool_NewWithConfig pools c poolCfg w of
                (Inl err, w') \<Rightarrow> (Inl (''create pool: '' @ err), w')
              | (Inr pool, w') \<Rightarrow> (Inr pool, w')))"

definition order_buildDatabaseURL :: "DBCreds \<Rightarrow> string" where
  "order_buildDatabaseURL creds =
     ''postgres://'' @ DBCreds_Username creds @ '':'' @ DBCreds_Password creds @
     ''@order-db:5432/orders?sslmode=disable''"

text \<open>The callback of the credential refresher: the repository changes over to a new pool.\<close>

definition order_rotate_pool ::
  "'w platform \<Rightarrow> OrderConfig \<Rightarrow> DBCreds \<Rightarrow> OrderRepository \<Rightarrow> 'w \<Rightarrow> OrderRepository \<times> 'w" where
  "order_rotate_pool pf cfg creds repo w =
     (let newURL = order_buildDatabaseURL creds
      in case order_newPool (pf_pools pf) Background newURL cfg w of
           (Inl err, w') \<Rightarrow> (repo, w')
         | (Inr pool, w') \<Rightarrow> OrderRepository_SetPool (pf_drv pf) (Some pool) repo w')"

section \<open>The health monitor\<close>

definition order_health_tick ::
  "'w pgxpool \<Rightarrow> ctx \<Rightarrow> poolref \<Rightarrow> health \<Rightarrow> 'w \<Rightarrow> health \<times> 'w" where
  "order_health_tick pools c pool h w =
     (let pingCtx = WithTimeout c (5 * time_Second)
      in case pgxpool_Ping pools pool pingCtx w of
           (Some err, w') \<Rightarrow> (h(''order.v1.OrderService'' \<mapsto> NOT_SERVING), w')
         | (None, w') \<Rightarrow> (h(''order.v1.OrderService'' \<mapsto> SERVING), w'))"

text \<open>The loop, for the outcomes of its \<open>select\<close> statements; the flag tells that it has returned.\<close>

fun order_monitorDBHealth ::
  "'w pgxpool \<Rightarrow> ctx \<Rightarrow> poolref \<Rightarrow> wakeup list \<Rightarrow> health \<Rightarrow> 'w \<Rightarrow> bool \<times> health \<times> 'w" where
  "order_monitorDBHealth pools c pool [] h w = (False, h, w)"
| "order_monitorDBHealth pools c pool (CtxDone # ks) h w = (True, h, w)"
| "order_monitorDBHealth pools c pool (TimerFired # ks) h w =
     (case order_health_tick pools c pool h w of
        (h', w') \<Rightarrow> order_monitorDBHealth pools c pool ks h' w')"

section \<open>Start-up\<close>

text \<open>Credentials from Vault, where it is configured: the client and the URL of the database.\<close>

definition order_database_url ::
  "'w platform \<Rightarrow> OrderConfig \<Rightarrow> 'w \<Rightarrow> (main_exit + VaultClient option \<times> string) \<times> 'w" where
  "order_database_url pf cfg w =
     (if order_UseVault cfg
      then (case Vault_New (pf_vault pf) (OrderConfig_VaultAddr cfg) (OrderConfig_VaultToken cfg) w of
              (Inl err, w1) \<Rightarrow> (Inl (FatalExit ''failed to create vault client''), w1)
            | (Inr vc, w1) \<Rightarrow>
                (case GetDBCreds (pf_vault pf) vc Background (OrderConfig_VaultDBRole cfg) w1 of
                   (Inl err, w2) \<Rightarrow> (Inl (FatalExit ''failed to get db creds from vault''), w2)
                 | (Inr creds, w2) \<Rightarrow> (Inr (Some vc, order_buildDatabaseURL creds), w2)))
      else (Inr (None, OrderConfig_DatabaseURL cfg), w))"

text \<open>The pool, with the schema migrations applied.\<close>

definition order_open_database ::
  "'w platform \<Rightarrow> OrderConfig \<Rightarrow> string \<Rightarrow> 'w \<Rightarrow> (main_exit + nat) \<times> 'w" where
  "order_open_database pf cfg databaseURL w =
     (case order_newPool (pf_pools pf) Background databaseURL cfg w of
        (Inl err, w1) \<Rightarrow> (Inl (FatalExit ''failed to connect to database''), w1)
      | (Inr pool, w1) \<Rightarrow>
          (case migrations_Up (pf_drv pf) migrationsFS Background (Some pool) w1 of
             (Some err, w2) \<Rightarrow> (Inl (FatalExit ''failed to run migrations''), w2)
           | (None, w2) \<Rightarrow> (Inr pool, w2)))"

text \<open>
  The Redis client and the user client. A Redis server that does not answer is not an error.
\<close>

definition order_connect ::
  "'w platform \<Rightarrow> OrderConfig \<Rightarrow> 'w \<Rightarrow> (main_exit + rdbref \<times> UserClient) \<times> 'w" where
  "order_connect pf cfg w =
     (case redis_ParseURL (pf_redis pf) (OrderConfig_RedisURL cfg) of
        Inl err \<Rightarrow> (Inl (FatalExit ''failed to parse redis URL''), w)
      | Inr redisOpts \<Rightarrow>
        (case redis_NewClient (pf_redis pf) redisOpts w of
           (rdb, w1) \<Rightarrow>
             (case redis_Ping (pf_redis pf) (Some rdb) Background w1 of
                (pinged, w2) \<Rightarrow>
                  (case NewUserClient (pf_os pf) (pf_x509 pf) (pf_dialer pf)
                          (OrderConfig_UserServiceAddr cfg) (OrderConfig_CAFile cfg)
                          (OrderConfig_CertFile cfg) (OrderConfig_KeyFile cfg) w2 of
                     (Inl err, w3) \<Rightarrow> (Inl (FatalExit ''failed to create user client''), w3)
                   | (Inr client, w3) \<Rightarrow> (Inr (Some rdb, client), w3)))))"

text \<open>
  The service once it serves: the variables of \<open>main\<close> that the goroutines and the shutdown use.
\<close>

record order_running =
  or_cfg :: OrderConfig
  or_otel :: OTel
  or_vc :: "VaultClient option"
  or_pool :: poolref
  or_rdb :: rdbref
  or_userClient :: UserClient
  or_svc :: OrderServiceServer
  or_server :: grpc_server
  or_health :: health
  or_metrics :: "string \<times> otel_ref"
  or_lis :: nat

definition order_start_servers ::
  "'w platform \<Rightarrow> OrderConfig \<Rightarrow> OTel \<Rightarrow> VaultClient option \<Rightarrow> poolref \<Rightarrow> rdbref \<Rightarrow> UserClient \<Rightarrow>
   OrderServiceServer \<Rightarrow> 'w \<Rightarrow> (main_exit + order_running) \<times> 'w" where
  "order_start_servers pf cfg ot vc pool rdb client svc w =
     (case LoadServerConfig (pf_os pf) (pf_x509 pf) (OrderConfig_CertFile cfg) (OrderConfig_KeyFile cfg)
             (OrderConfig_CAFile cfg) of
        Inl err \<Rightarrow> (Inl (FatalExit ''failed to load TLS config''), w)
      | Inr creds \<Rightarrow>
          (let server = \<lparr>gs_creds = creds, gs_MaxRecvMsgSize = 4 * 1024 * 1024,
                         gs_services = [''order.v1.OrderService'', ''grpc.health.v1.Health'',
                                        ''grpc.reflection'']\<rparr>;
               h = [''order.v1.OrderService'' \<mapsto> SERVING]
           in case net_Listen (pf_net pf) ('':'' @ OrderConfig_Port cfg) w of
                (Inl err, w') \<Rightarrow> (Inl (FatalExit ''failed to listen''), w')
              | (Inr lis, w') \<Rightarrow>
                  (Inr \<lparr>or_cfg = cfg, or_otel = ot, or_vc = vc, or_pool = pool, or_rdb = rdb,
                        or_userClient = client, or_svc = svc, or_server = server, or_health = h,
                        or_metrics = ('':'' @ OrderConfig_MetricsPort cfg, MetricsHandler (pf_otel pf) ot),
                        or_lis = lis\<rparr>, w')))"

text \<open>
  \<open>main\<close> up to its listener. The goroutines that it starts on the way (the credential refresher and
  the health monitor) are the steps of \<open>Services\<close>: they act on the state that is returned here.
\<close>

definition order_main :: "'w platform \<Rightarrow> 'w \<Rightarrow> (main_exit + order_running) \<times> 'w" where
  "order_main pf w =
     (let cfg = order_LoadConfig (pf_os pf)
      in case log_New (pf_zap pf) (OrderConfig_LogLevel cfg) w of
        (Inl err, w1) \<Rightarrow> (Inl PanicExit, w1)
      | (Inr logger, w1) \<Rightarrow>
        (case otel_New (pf_otel pf) Background ''order-service'' (OrderConfig_OTLPEndpoint cfg) w1 of
           (Inl err, w2) \<Rightarrow> (Inl (FatalExit ''failed to init OpenTelemetry''), w2)
         | (Inr ot, w2) \<Rightarrow>
           (case order_database_url pf cfg w2 of
              (Inl ex, w3) \<Rightarrow> (Inl ex, w3)
            | (Inr (vc, databaseURL), w3) \<Rightarrow>
              (case order_open_database pf cfg databaseURL w3 of
                 (Inl ex, w4) \<Rightarrow> (Inl ex, w4)
               | (Inr pool, w4) \<Rightarrow>
                 (case order_connect pf cfg w4 of
                    (Inl ex, w5) \<Rightarrow> (Inl ex, w5)
                  | (Inr (rdb, client), w5) \<Rightarrow>
                      (let repo = NewOrderRepository (Some pool) rdb;
                           svc = NewOrderServiceServer repo
                       in order_start_servers pf cfg ot vc (Some pool) rdb client svc w5))))))"

section \<open>Shutdown\<close>

definition order_shutdown_callbacks :: "'w platform \<Rightarrow> order_running \<Rightarrow> 'w Callback list" where
  "order_shutdown_callbacks pf run =
     [\<lparr>Callback_Name = ''gRPC server'', Callback_Func = (\<lambda>c w. (None, grpc_GracefulStop (pf_net pf) w))\<rparr>,
      \<lparr>Callback_Name = ''OpenTelemetry'', Callback_Func = OTel_Shutdown (pf_otel pf) (or_otel run)\<rparr>,
      \<lparr>Callback_Name = ''metrics server'', Callback_Func = http_Shutdown (pf_net pf)\<rparr>,
      \<lparr>Callback_Name = ''database pool'', Callback_Func = (\<lambda>c w. (None, pool_Close (pf_drv pf) (or_pool run) w))\<rparr>,
      \<lparr>Callback_Name = ''redis client'', Callback_Func = (\<lambda>c w. redis_Close (pf_redis pf) (or_rdb run) w)\<rparr>]"

text \<open>The end of \<open>main\<close>: the callbacks, then the deferred \<open>userClient.Close\<close> and \<open>pool.Close\<close>.\<close>

definition order_main_end ::
  "'w platform \<Rightarrow> order_running \<Rightarrow> stop_event \<Rightarrow> 'w \<Rightarrow> string list \<times> 'w" where
  "order_main_end pf run ev w =
     (case Graceful ev (30 * time_Second) (order_shutdown_callbacks pf run) w of
        (lines, w') \<Rightarrow>
          (lines, pool_Close (pf_drv pf) (or_pool run)
             (snd (UserClient_Close (pf_dialer pf) (or_userClient run) w'))))"

end
