(* ===== verification/Services.thy ===== *)
theory Services
  imports Rotation UserMain OrderMain
begin

text \<open>
  The two services from start-up to shutdown: \<open>main\<close> makes a running service, whose goroutines are an
  instance of \<open>Rotation\<close>; the shutdown ends it. The locales \<open>user_platform\<close> and \<open>order_platform\<close> collect
  what is relied on of the libraries: the laws of connection pools, and that no other call opens or
  closes a pool.
\<close>

section \<open>Libraries that do not touch the pools\<close>

locale quiet_platform =
  fixes pf :: "'w platform" and view :: "'w \<Rightarrow> 'v"
  assumes zap_view: "view (snd (zap_Build (pf_zap pf) zc w)) = view w"
    and resource_view: "view (snd (otel_resource (pf_otel pf) c n w)) = view w"
    and traceExporter_view: "view (snd (otel_traceExporter (pf_otel pf) c n w)) = view w"
    and TracerProvider_view: "view (snd (otel_TracerProvider (pf_otel pf) a b w)) = view w"
    and SetTracerProvider_view: "view (otel_SetTracerProvider (pf_otel pf) a w) = view w"
    and SetPropagator_view: "view (otel_SetPropagator (pf_otel pf) ps w) = view w"
    and Registry_view: "view (snd (otel_Registry (pf_otel pf) w)) = view w"
    and promExporter_view: "view (snd (otel_promExporter (pf_otel pf) a w)) = view w"
    and MeterProvider_view: "view (snd (otel_MeterProvider (pf_otel pf) a b w)) = view w"
    and SetMeterProvider_view: "view (otel_SetMeterProvider (pf_otel pf) a w) = view w"
    and TracerShutdown_view: "view (snd (otel_TracerShutdown (pf_otel pf) a c w)) = view w"
    and MeterShutdown_view: "view (snd (otel_MeterShutdown (pf_otel pf) a c w)) = view w"
    and NewClient_view: "view (snd (vault_NewClient (pf_vault pf) n w)) = view w"
    and SetToken_view: "view (vault_SetToken (pf_vault pf) v n w) = view w"
    and Read_view: "view (snd (vault_Read (pf_vault pf) v c n w)) = view w"
    and Listen_view: "view (snd (net_Listen (pf_net pf) n w)) = view w"
    and GracefulStop_view: "view (grpc_GracefulStop (pf_net pf) w) = view w"
    and http_Shutdown_view: "view (snd (http_Shutdown (pf_net pf) c w)) = view w"
    and redis_NewClient_view: "view (snd (redis_NewClient (pf_redis pf) n w)) = view w"
    and redis_Ping_view: "view (snd (redis_Ping (pf_redis pf) r c w)) = view w"
    and redis_Close_view: "view (snd (redis_Close (pf_redis pf) r w)) = view w"
    and Dial_view: "view (snd (grpc_Dial (pf_dialer pf) n opts w)) = view w"
    and conn_Close_view: "view (snd (conn_Close (pf_dialer pf) k w)) = view w"
begin

lemma log_New_view: "view (snd (log_New (pf_zap pf) level w)) = view w"
  by (simp add: log_New_def Let_def zap_view)

lemma otel_New_view: "view (snd (otel_New (pf_otel pf) c n e w)) = view w"
proof -
  note vs = resource_view traceExporter_view TracerProvider_view SetTracerProvider_view
    SetPropagator_view Registry_view promExporter_view MeterProvider_view SetMeterProvider_view
  show ?thesis by (simp add: otel_New_def Let_def case_prod_unfold vs split: sum.split)
qed

lemma GetDBCreds_view: "view (snd (GetDBCreds (pf_vault pf) vc c role w)) = view w"
  by (simp add: GetDBCreds_state Read_view)

lemma Vault_New_view: "view (snd (Vault_New (pf_vault pf) a t w)) = view w"
  using NewClient_view [of a w]
  by (auto simp: Vault_New_def SetToken_view split: prod.splits sum.splits)

lemma OTel_Shutdown_view: "view (snd (OTel_Shutdown (pf_otel pf) ot c w)) = view w"
  by (simp add: OTel_Shutdown_def case_prod_unfold TracerShutdown_view MeterShutdown_view split: option.split)

lemma NewUserClient_view: "view (snd (NewUserClient os x (pf_dialer pf) a ca ce k w)) = view w"
  using Dial_view by (auto simp: NewUserClient_def case_prod_unfold split: sum.split)

lemma UserClient_Close_view: "view (snd (UserClient_Close (pf_dialer pf) uc w)) = view w"
  by (simp add: UserClient_Close_def conn_Close_view)

lemma order_connect_view: "view (snd (order_connect pf cfg w)) = view w"
  by (simp add: order_connect_def case_prod_unfold redis_NewClient_view redis_Ping_view
      NewUserClient_view split: sum.split)

lemma database_url_view: "view (snd (database_url pf cfg w)) = view w"
  by (simp add: database_url_def case_prod_unfold Vault_New_view GetDBCreds_view split: sum.split)

lemma order_database_url_view: "view (snd (order_database_url pf cfg w)) = view w"
  by (simp add: order_database_url_def case_prod_unfold Vault_New_view GetDBCreds_view split: sum.split)

end

context quiet_driver
begin

lemma migrate_one_view: "view (snd (migrate_one drv fs c p e w)) = view w"
  by (simp add: migrate_one_def migrate_tx_def case_prod_unfold QueryRow_view Begin_view tx_Exec_view
      Rollback_view Commit_view split: sum.split option.split)

lemma migrations_Up_view: "view (snd (migrations_Up drv fs c p w)) = view w"
proof -
  have "view (snd (migrate_all drv fs c p es w)) = view w" for es w
  proof (induction es arbitrary: w)
    case (Cons e es)
    then show ?case using migrate_one_view [of fs c p e w] by (auto split: prod.splits option.splits)
  qed simp
  then show ?thesis
    by (simp add: migrations_Up_def case_prod_unfold Exec_view split: sum.split)
qed

end

section \<open>The user service\<close>

text \<open>
  The refresher fetches credentials with the client of \<open>main\<close>; without Vault there is no refresher,
  which is a fetch that never succeeds.
\<close>

definition user_fetch :: "'w platform \<Rightarrow> user_running \<Rightarrow> 'w \<Rightarrow> (go_error + DBCreds) \<times> 'w" where
  "user_fetch pf run w =
     (case ur_vc run of
        Some vc \<Rightarrow> GetDBCreds (pf_vault pf) vc Background (UserConfig_VaultDBRole (ur_cfg run)) w
      | None \<Rightarrow> (Inl ''no refresher'', w))"

definition user_call_step ::
  "'w platform \<Rightarrow> 'w server_env \<Rightarrow> UserRepository \<Rightarrow> ctx \<times> user_call \<Rightarrow> 'w \<Rightarrow> 'w" where
  "user_call_step pf srv repo cc w =
     snd (user_serve srv (pf_drv pf) (NewUserServiceServer repo) (fst cc) (snd cc) w)"

definition user_started :: "user_running \<Rightarrow> 'w \<Rightarrow> (UserRepository, 'w) server_state" where
  "user_started run w =
     \<lparr>st_repo = UserServiceServer_repo (ur_svc run), st_health = ur_health run, st_w = w\<rparr>"

definition user_reach ::
  "'w platform \<Rightarrow> 'w server_env \<Rightarrow> user_running \<Rightarrow>
   (UserRepository, 'w) server_state \<Rightarrow> (UserRepository, 'w) server_state \<Rightarrow> bool" where
  "user_reach pf srv run =
     server_reach (user_fetch pf run) (rotate_pool pf (ur_cfg run))
       (health_tick (pf_pools pf) Background (ur_pool run)) (user_call_step pf srv)"

text \<open>What \<open>main\<close> has done when the service runs.\<close>

lemma user_main_Inr:
  assumes "user_main pf w = (Inr run, w')"
  obtains w1 lg w2 ot w3 vc url w4 k w5 where
    "log_New (pf_zap pf) (UserConfig_LogLevel (LoadConfig (pf_os pf))) w = (Inr lg, w1)"
    "otel_New (pf_otel pf) Background ''user-service'' (UserConfig_OTLPEndpoint (LoadConfig (pf_os pf))) w1 = (Inr ot, w2)"
    "database_url pf (LoadConfig (pf_os pf)) w2 = (Inr (vc, url), w3)"
    "newPool (pf_pools pf) Background url (LoadConfig (pf_os pf)) w3 = (Inr k, w4)"
    "migrations_Up (pf_drv pf) migrationsFS Background (Some k) w4 = (None, w5)"
    "LoadServerConfig (pf_os pf) (pf_x509 pf) (UserConfig_CertFile (LoadConfig (pf_os pf)))
       (UserConfig_KeyFile (LoadConfig (pf_os pf))) (UserConfig_CAFile (LoadConfig (pf_os pf))) =
       Inr (gs_creds (ur_server run))"
    "net_Listen (pf_net pf) ('':'' @ UserConfig_Port (LoadConfig (pf_os pf))) w5 = (Inr (ur_lis run), w')"
    "ur_cfg run = LoadConfig (pf_os pf)" "ur_vc run = vc" "ur_pool run = Some k" "ur_otel run = ot"
    "ur_svc run = NewUserServiceServer (NewUserRepository (Some k))"
    "ur_health run = [''user.v1.UserService'' \<mapsto> SERVING]"
  using assms unfolding user_main_def Let_def open_database_def user_start_servers_def
  by (auto split: prod.splits sum.splits option.splits)

locale user_platform =
  pgx_pools "pf_drv pf" "pf_pools pf" created opened +
  quiet_platform pf "\<lambda>w. (created w, opened w)" +
  quiet_driver "pf_drv pf" "\<lambda>w. (created w, opened w)" +
  quiet_server srv "\<lambda>w. (created w, opened w)"
  for pf :: "'w platform" and srv :: "'w server_env" and created opened :: "'w \<Rightarrow> nat set"
begin

lemma newPool_Inr:
  assumes "newPool (pf_pools pf) c url cfg w = (Inr q, w')"
  shows "q \<notin> created w \<and> created w' = insert q (created w) \<and> opened w' = insert q (opened w)"
  using assms new_pool
  by (auto simp: newPool_def Let_def split: sum.splits prod.splits)

lemma newPool_Inl:
  assumes "newPool (pf_pools pf) c url cfg w = (Inl err, w')"
  shows "created w' = created w \<and> opened w' = opened w"
  using assms new_fails
  by (auto simp: newPool_def Let_def split: sum.splits prod.splits)

lemma rotate_pool_cases:
  assumes "rotate_pool pf cfg creds r w = (r', w')" "UserRepository_pool r = Some k"
  shows "r' = r \<and> created w' = created w \<and> opened w' = opened w \<or>
    (\<exists>q. q \<notin> created w \<and> UserRepository_pool r' = Some q \<and> created w' = insert q (created w) \<and>
         opened w' = insert q (opened w) - {k})"
proof (cases "newPool (pf_pools pf) Background (buildDatabaseURL creds) cfg w")
  case (Pair res w1)
  show ?thesis
  proof (cases res)
    case (Inl err)
    then show ?thesis using newPool_Inl [of Background _ cfg w err w1] Pair assms
      by (simp add: rotate_pool_def)
  next
    case (Inr q)
    then show ?thesis using newPool_Inr [of Background _ cfg w q w1] Pair assms close_pool
      by (auto simp: rotate_pool_def UserRepository_SetPool_def)
  qed
qed

lemma health_tick_facts:
  shows "created (snd (health_tick (pf_pools pf) c q h w)) = created w"
    "opened (snd (health_tick (pf_pools pf) c q h w)) = opened w"
    "k \<notin> opened w \<Longrightarrow>
       fst (health_tick (pf_pools pf) c (Some k) h w) ''user.v1.UserService'' = Some NOT_SERVING"
  using ping_keeps ping_closed [of k w]
  by (auto simp: health_tick_def Let_def case_prod_unfold split: option.split)

lemma user_fetch_view: "(created (snd (user_fetch pf run w)), opened (snd (user_fetch pf run w))) = (created w, opened w)"
  using GetDBCreds_view by (simp add: user_fetch_def split: option.split)

lemma user_call_view:
  "(created (user_call_step pf srv r cc w), opened (user_call_step pf srv r cc w)) = (created w, opened w)"
  using chain_view [of "\<lambda>c' call' w'. apfst Done (UserService_dispatch (pf_drv pf) (NewUserServiceServer r) c' call' w')"
      "fst cc" "snd cc" "user_method (snd cc)" w] UserService_dispatch_view
  by (simp add: user_call_step_def user_serve_def)

lemma user_fetch_keeps:
  "created (snd (user_fetch pf run w)) = created w" "opened (snd (user_fetch pf run w)) = opened w"
  using user_fetch_view by simp_all

lemma user_call_keeps:
  "created (user_call_step pf srv r cc w) = created w" "opened (user_call_step pf srv r cc w) = opened w"
  using user_call_view by simp_all

text \<open>The running service is an instance of a server that rotates its pool.\<close>

lemma user_rotating:
  "rotating_server (user_fetch pf run) (rotate_pool pf (ur_cfg run))
     (health_tick (pf_pools pf) Background (Some k)) (user_call_step pf srv) UserRepository_pool created opened
     k ''user.v1.UserService''"
  by unfold_locales
    (rule user_fetch_keeps user_call_keeps health_tick_facts(1,2) | erule health_tick_facts(3) |
     erule (1) rotate_pool_cases)+

lemma user_main_pool:
  assumes "user_main pf w = (Inr run, w')"
  obtains q where "ur_pool run = Some q" "UserRepository_pool (UserServiceServer_repo (ur_svc run)) = Some q"
    "q \<notin> created w" "q \<in> created w'" "created w \<subseteq> created w'" "opened w' = insert q (opened w)"
proof -
  obtain w1 lg w2 ot w3 vc url w4 k w5 where run:
    "log_New (pf_zap pf) (UserConfig_LogLevel (LoadConfig (pf_os pf))) w = (Inr lg, w1)"
    "otel_New (pf_otel pf) Background ''user-service'' (UserConfig_OTLPEndpoint (LoadConfig (pf_os pf))) w1 = (Inr ot, w2)"
    "database_url pf (LoadConfig (pf_os pf)) w2 = (Inr (vc, url), w3)"
    "newPool (pf_pools pf) Background url (LoadConfig (pf_os pf)) w3 = (Inr k, w4)"
    "migrations_Up (pf_drv pf) migrationsFS Background (Some k) w4 = (None, w5)"
    "net_Listen (pf_net pf) ('':'' @ UserConfig_Port (LoadConfig (pf_os pf))) w5 = (Inr (ur_lis run), w')"
    "ur_pool run = Some k" "ur_svc run = NewUserServiceServer (NewUserRepository (Some k))"
    using assms by (rule user_main_Inr)
  have "(created w3, opened w3) = (created w, opened w)"
    using log_New_view [of "UserConfig_LogLevel (LoadConfig (pf_os pf))" w]
      otel_New_view [of Background "''user-service''" "UserConfig_OTLPEndpoint (LoadConfig (pf_os pf))" w1]
      database_url_view [of "LoadConfig (pf_os pf)" w2] run by simp
  moreover have "(created w', opened w') = (created w4, opened w4)"
    using migrations_Up_view [of migrationsFS Background "Some k" w4]
      Listen_view [of "'':'' @ UserConfig_Port (LoadConfig (pf_os pf))" w5] run by simp
  ultimately show ?thesis
    using newPool_Inr [OF run(4)] that [of k] run(7,8)
    by (auto simp: NewUserServiceServer_def NewUserRepository_def)
qed

lemma user_started_pools:
  assumes "user_main pf w = (Inr run, w1)"
  obtains k where "ur_pool run = Some k" "k \<in> created w1" "k \<notin> created w"
    "rotating_server.pools_ok UserRepository_pool created opened k (opened w) (user_started run w1)"
proof -
  obtain k where k: "ur_pool run = Some k" "UserRepository_pool (UserServiceServer_repo (ur_svc run)) = Some k"
    "k \<notin> created w" "k \<in> created w1" "created w \<subseteq> created w1" "opened w1 = insert k (opened w)"
    using assms by (rule user_main_pool)
  then have "rotating_server.pools_ok UserRepository_pool created opened k (opened w) (user_started run w1)"
    unfolding rotating_server.pools_ok_def [OF user_rotating]
    using opened_created [of w] by (auto simp: user_started_def)
  with that k show thesis by blast
qed

lemma user_reach_pools:
  assumes "user_main pf w = (Inr run, w1)" "user_reach pf srv run (user_started run w1) s"
  obtains k where "ur_pool run = Some k"
    "rotating_server.pools_ok UserRepository_pool created opened k (opened w) s"
proof -
  obtain k where k: "ur_pool run = Some k"
    "rotating_server.pools_ok UserRepository_pool created opened k (opened w) (user_started run w1)"
    using assms(1) by (rule user_started_pools)
  from rotating_server.reach_pools [OF user_rotating assms(2) [unfolded user_reach_def k(1)] k(2)] that k(1)
  show thesis by blast
qed

lemma user_shutdown_pools:
  assumes "ur_pool run = Some k"
  shows "opened (snd (user_main_end pf run ev w)) = opened w - {k}"
proof -
  have "opened (snd (OTel_Shutdown (pf_otel pf) (ur_otel run) c v)) = opened v"
      "opened (snd (http_Shutdown (pf_net pf) c v)) = opened v"
      "opened (grpc_GracefulStop (pf_net pf) v) = opened v" for c v
    using OTel_Shutdown_view http_Shutdown_view GracefulStop_view by simp_all
  then show ?thesis
    using assms close_pool
    by (simp add: user_main_end_def case_prod_unfold Graceful_state user_shutdown_callbacks_def)
qed

end

section \<open>The order service\<close>

text \<open>
  The refresher fetches credentials with the client of \<open>main\<close>; without Vault there is no refresher,
  which is a fetch that never succeeds.
\<close>

definition order_fetch :: "'w platform \<Rightarrow> order_running \<Rightarrow> 'w \<Rightarrow> (go_error + DBCreds) \<times> 'w" where
  "order_fetch pf run w =
     (case or_vc run of
        Some vc \<Rightarrow> GetDBCreds (pf_vault pf) vc Background (OrderConfig_VaultDBRole (or_cfg run)) w
      | None \<Rightarrow> (Inl ''no refresher'', w))"

definition order_call_step ::
  "'w server_env \<Rightarrow> 'w order_env \<Rightarrow> 'w user_conn \<Rightarrow> OrderRepository \<Rightarrow> ctx \<times> order_call \<Rightarrow> 'w \<Rightarrow> 'w" where
  "order_call_step srv env conn repo cc w =
     snd (order_serve srv env conn (NewOrderServiceServer repo) (fst cc) (snd cc) w)"

definition order_started :: "order_running \<Rightarrow> 'w \<Rightarrow> (OrderRepository, 'w) server_state" where
  "order_started run w =
     \<lparr>st_repo = OrderServiceServer_repo (or_svc run), st_health = or_health run, st_w = w\<rparr>"

definition order_reach ::
  "'w platform \<Rightarrow> 'w server_env \<Rightarrow> 'w order_env \<Rightarrow> 'w user_conn \<Rightarrow> order_running \<Rightarrow>
   (OrderRepository, 'w) server_state \<Rightarrow> (OrderRepository, 'w) server_state \<Rightarrow> bool" where
  "order_reach pf srv env conn run =
     server_reach (order_fetch pf run) (order_rotate_pool pf (or_cfg run))
       (order_health_tick (pf_pools pf) Background (or_pool run)) (order_call_step srv env conn)"

text \<open>What \<open>main\<close> has done when the service runs.\<close>

lemma order_main_Inr:
  assumes "order_main pf w = (Inr run, w')"
  obtains w1 lg w2 ot w3 vc url w4 k w5 w6 where
    "log_New (pf_zap pf) (OrderConfig_LogLevel (order_LoadConfig (pf_os pf))) w = (Inr lg, w1)"
    "otel_New (pf_otel pf) Background ''order-service'' (OrderConfig_OTLPEndpoint (order_LoadConfig (pf_os pf))) w1 = (Inr ot, w2)"
    "order_database_url pf (order_LoadConfig (pf_os pf)) w2 = (Inr (vc, url), w3)"
    "order_newPool (pf_pools pf) Background url (order_LoadConfig (pf_os pf)) w3 = (Inr k, w4)"
    "migrations_Up (pf_drv pf) migrationsFS Background (Some k) w4 = (None, w5)"
    "order_connect pf (order_LoadConfig (pf_os pf)) w5 = (Inr (or_rdb run, or_userClient run), w6)"
    "LoadServerConfig (pf_os pf) (pf_x509 pf) (OrderConfig_CertFile (order_LoadConfig (pf_os pf)))
       (OrderConfig_KeyFile (order_LoadConfig (pf_os pf))) (OrderConfig_CAFile (order_LoadConfig (pf_os pf))) =
       Inr (gs_creds (or_server run))"
    "net_Listen (pf_net pf) ('':'' @ OrderConfig_Port (order_LoadConfig (pf_os pf))) w6 = (Inr (or_lis run), w')"
    "or_cfg run = order_LoadConfig (pf_os pf)" "or_vc run = vc" "or_pool run = Some k" "or_otel run = ot"
    "or_svc run = NewOrderServiceServer (NewOrderRepository (Some k) (or_rdb run))"
    "or_health run = [''order.v1.OrderService'' \<mapsto> SERVING]"
  using assms unfolding order_main_def Let_def order_open_database_def order_start_servers_def
  by (auto split: prod.splits sum.splits option.splits)

text \<open>A service that runs has brought the migrations to their end, and left their log alone since.\<close>

context quiet_platform
begin

lemma user_main_migrates:
  assumes "user_main pf w = (Inr run, w')"
  obtains p v u where "migrations_Up (pf_drv pf) migrationsFS Background p v = (None, u)" "view w' = view u"
  using assms
proof (cases rule: user_main_Inr)
  case (1 w1 lg w2 ot w3 vc url w4 k w5)
  with that Listen_view [of "'':'' @ UserConfig_Port (LoadConfig (pf_os pf))" w5] show thesis by simp
qed

lemma order_main_migrates:
  assumes "order_main pf w = (Inr run, w')"
  obtains p v u where "migrations_Up (pf_drv pf) migrationsFS Background p v = (None, u)" "view w' = view u"
  using assms
proof (cases rule: order_main_Inr)
  case (1 w1 lg w2 ot w3 vc url w4 k w5 w6)
  with that Listen_view [of "'':'' @ OrderConfig_Port (order_LoadConfig (pf_os pf))" w6]
    order_connect_view [of "order_LoadConfig (pf_os pf)" w5] show thesis by simp
qed

end

locale order_platform =
  pgx_pools "pf_drv pf" "pf_pools pf" created opened +
  quiet_platform pf "\<lambda>w. (created w, opened w)" +
  pool_driver: quiet_driver "pf_drv pf" "\<lambda>w. (created w, opened w)" +
  quiet_server srv "\<lambda>w. (created w, opened w)" +
  quiet_order env "\<lambda>w. (created w, opened w)" conn
  for pf :: "'w platform" and srv :: "'w server_env" and env :: "'w order_env"
    and conn :: "'w user_conn" and created opened :: "'w \<Rightarrow> nat set"
begin

lemma order_newPool_Inr:
  assumes "order_newPool (pf_pools pf) c url cfg w = (Inr q, w')"
  shows "q \<notin> created w \<and> created w' = insert q (created w) \<and> opened w' = insert q (opened w)"
  using assms new_pool
  by (auto simp: order_newPool_def Let_def split: sum.splits prod.splits)

lemma order_newPool_Inl:
  assumes "order_newPool (pf_pools pf) c url cfg w = (Inl err, w')"
  shows "created w' = created w \<and> opened w' = opened w"
  using assms new_fails
  by (auto simp: order_newPool_def Let_def split: sum.splits prod.splits)

lemma order_rotate_pool_cases:
  assumes "order_rotate_pool pf cfg creds r w = (r', w')" "OrderRepository_pool r = Some k"
  shows "r' = r \<and> created w' = created w \<and> opened w' = opened w \<or>
    (\<exists>q. q \<notin> created w \<and> OrderRepository_pool r' = Some q \<and> created w' = insert q (created w) \<and>
         opened w' = insert q (opened w) - {k})"
proof (cases "order_newPool (pf_pools pf) Background (order_buildDatabaseURL creds) cfg w")
  case (Pair res w1)
  show ?thesis
  proof (cases res)
    case (Inl err)
    then show ?thesis using order_newPool_Inl [of Background _ cfg w err w1] Pair assms
      by (simp add: order_rotate_pool_def)
  next
    case (Inr q)
    then show ?thesis using order_newPool_Inr [of Background _ cfg w q w1] Pair assms close_pool
      by (auto simp: order_rotate_pool_def OrderRepository_SetPool_def)
  qed
qed

lemma order_health_tick_facts:
  shows "created (snd (order_health_tick (pf_pools pf) c q h w)) = created w"
    "opened (snd (order_health_tick (pf_pools pf) c q h w)) = opened w"
    "k \<notin> opened w \<Longrightarrow>
       fst (order_health_tick (pf_pools pf) c (Some k) h w) ''order.v1.OrderService'' = Some NOT_SERVING"
  using ping_keeps ping_closed [of k w]
  by (auto simp: order_health_tick_def Let_def case_prod_unfold split: option.split)

lemma order_fetch_view: "(created (snd (order_fetch pf run w)), opened (snd (order_fetch pf run w))) = (created w, opened w)"
  using GetDBCreds_view by (simp add: order_fetch_def split: option.split)

lemma order_call_view:
  "(created (order_call_step srv env conn r cc w), opened (order_call_step srv env conn r cc w)) =
   (created w, opened w)"
  using chain_view [of "OrderService_dispatch env conn (NewOrderServiceServer r)"
      "fst cc" "snd cc" "order_method (snd cc)" w] OrderService_dispatch_view
  by (simp add: order_call_step_def order_serve_def)

lemma order_fetch_keeps:
  "created (snd (order_fetch pf run w)) = created w" "opened (snd (order_fetch pf run w)) = opened w"
  using order_fetch_view by simp_all

lemma order_call_keeps:
  "created (order_call_step srv env conn r cc w) = created w" "opened (order_call_step srv env conn r cc w) = opened w"
  using order_call_view by simp_all

text \<open>The running service is an instance of a server that rotates its pool.\<close>

lemma order_rotating:
  "rotating_server (order_fetch pf run) (order_rotate_pool pf (or_cfg run))
     (order_health_tick (pf_pools pf) Background (Some k)) (order_call_step srv env conn) OrderRepository_pool created opened
     k ''order.v1.OrderService''"
  by unfold_locales
    (rule order_fetch_keeps order_call_keeps order_health_tick_facts(1,2) | erule order_health_tick_facts(3) |
     erule (1) order_rotate_pool_cases)+

lemma order_main_pool:
  assumes "order_main pf w = (Inr run, w')"
  obtains q where "or_pool run = Some q" "OrderRepository_pool (OrderServiceServer_repo (or_svc run)) = Some q"
    "q \<notin> created w" "q \<in> created w'" "created w \<subseteq> created w'" "opened w' = insert q (opened w)"
proof -
  obtain w1 lg w2 ot w3 vc url w4 k w5 w6 where run:
    "log_New (pf_zap pf) (OrderConfig_LogLevel (order_LoadConfig (pf_os pf))) w = (Inr lg, w1)"
    "otel_New (pf_otel pf) Background ''order-service'' (OrderConfig_OTLPEndpoint (order_LoadConfig (pf_os pf))) w1 = (Inr ot, w2)"
    "order_database_url pf (order_LoadConfig (pf_os pf)) w2 = (Inr (vc, url), w3)"
    "order_newPool (pf_pools pf) Background url (order_LoadConfig (pf_os pf)) w3 = (Inr k, w4)"
    "migrations_Up (pf_drv pf) migrationsFS Background (Some k) w4 = (None, w5)"
    "order_connect pf (order_LoadConfig (pf_os pf)) w5 = (Inr (or_rdb run, or_userClient run), w6)"
    "net_Listen (pf_net pf) ('':'' @ OrderConfig_Port (order_LoadConfig (pf_os pf))) w6 = (Inr (or_lis run), w')"
    "or_pool run = Some k" "or_svc run = NewOrderServiceServer (NewOrderRepository (Some k) (or_rdb run))"
    using assms by (rule order_main_Inr)
  have "(created w3, opened w3) = (created w, opened w)"
    using log_New_view [of "OrderConfig_LogLevel (order_LoadConfig (pf_os pf))" w]
      otel_New_view [of Background "''order-service''" "OrderConfig_OTLPEndpoint (order_LoadConfig (pf_os pf))" w1]
      order_database_url_view [of "order_LoadConfig (pf_os pf)" w2] run by simp
  moreover have "(created w', opened w') = (created w4, opened w4)"
    using pool_driver.migrations_Up_view [of migrationsFS Background "Some k" w4]
      order_connect_view [of "order_LoadConfig (pf_os pf)" w5]
      Listen_view [of "'':'' @ OrderConfig_Port (order_LoadConfig (pf_os pf))" w6] run by simp
  ultimately show ?thesis
    using order_newPool_Inr [OF run(4)] that [of k] run(8,9)
    by (auto simp: NewOrderServiceServer_def NewOrderRepository_def)
qed

lemma order_started_pools:
  assumes "order_main pf w = (Inr run, w1)"
  obtains k where "or_pool run = Some k" "k \<in> created w1" "k \<notin> created w"
    "rotating_server.pools_ok OrderRepository_pool created opened k (opened w) (order_started run w1)"
proof -
  obtain k where k: "or_pool run = Some k" "OrderRepository_pool (OrderServiceServer_repo (or_svc run)) = Some k"
    "k \<notin> created w" "k \<in> created w1" "created w \<subseteq> created w1" "opened w1 = insert k (opened w)"
    using assms by (rule order_main_pool)
  then have "rotating_server.pools_ok OrderRepository_pool created opened k (opened w) (order_started run w1)"
    unfolding rotating_server.pools_ok_def [OF order_rotating]
    using opened_created [of w] by (auto simp: order_started_def)
  with that k show thesis by blast
qed

lemma order_reach_pools:
  assumes "order_main pf w = (Inr run, w1)" "order_reach pf srv env conn run (order_started run w1) s"
  obtains k where "or_pool run = Some k"
    "rotating_server.pools_ok OrderRepository_pool created opened k (opened w) s"
proof -
  obtain k where k: "or_pool run = Some k"
    "rotating_server.pools_ok OrderRepository_pool created opened k (opened w) (order_started run w1)"
    using assms(1) by (rule order_started_pools)
  from rotating_server.reach_pools [OF order_rotating assms(2) [unfolded order_reach_def k(1)] k(2)] that k(1)
  show thesis by blast
qed

lemma order_shutdown_pools:
  assumes "or_pool run = Some k"
  shows "opened (snd (order_main_end pf run ev w)) = opened w - {k}"
proof -
  have "opened (snd (OTel_Shutdown (pf_otel pf) (or_otel run) c v)) = opened v"
      "opened (snd (http_Shutdown (pf_net pf) c v)) = opened v"
      "opened (grpc_GracefulStop (pf_net pf) v) = opened v"
      "opened (snd (redis_Close (pf_redis pf) (or_rdb run) v)) = opened v"
      "opened (snd (UserClient_Close (pf_dialer pf) uc v)) = opened v" for c v uc
    using OTel_Shutdown_view http_Shutdown_view GracefulStop_view redis_Close_view
      UserClient_Close_view by simp_all
  then show ?thesis
    using assms close_pool
    by (simp add: order_main_end_def case_prod_unfold Graceful_state order_shutdown_callbacks_def)
qed

end

end
