(* ===== verification/MemServer.thy ===== *)
theory MemServer
  imports Services
begin

text \<open>
  An executable platform: connection pools that are opened and closed around an arbitrary database
  driver, Vault as a script of replies, and libraries that succeed. It provides the interfaces
  \<open>user_platform\<close> and \<open>order_platform\<close>, for every environment of the process, every certificate
  parser and every inner database, and so the facts about rotation, start-up and shutdown.
\<close>

section \<open>Pools around a database\<close>

record 'w pooled =
  pw_inner :: 'w
  pw_next :: nat                                              \<comment> \<open>the pools made so far are below\<close>
  pw_open :: "nat list"
  pw_down :: bool                                             \<comment> \<open>the server does not answer pings\<close>
  pw_secrets :: "(go_error + vault_secret option) list"       \<comment> \<open>Vault's replies to come\<close>
  pw_clock :: time
  pw_log :: "log_entry list"

definition pd_open :: "poolref \<Rightarrow> 'w pooled \<Rightarrow> bool" where
  "pd_open p w = (case p of None \<Rightarrow> False | Some k \<Rightarrow> k \<in> set (pw_open w) \<and> k < pw_next w)"

definition pd_lift :: "('w \<Rightarrow> 'a \<times> 'w) \<Rightarrow> 'w pooled \<Rightarrow> 'a \<times> 'w pooled" where
  "pd_lift f w = (case f (pw_inner w) of (r, i) \<Rightarrow> (r, w\<lparr>pw_inner := i\<rparr>))"

definition pd_guard :: "poolref \<Rightarrow> ('w \<Rightarrow> (go_error + 'a) \<times> 'w) \<Rightarrow> 'w pooled \<Rightarrow> (go_error + 'a) \<times> 'w pooled" where
  "pd_guard p f w = (if pd_open p w then pd_lift f w else (Inl ''closed pool'', w))"

definition pd_QueryRow ::
  "'w pgx \<Rightarrow> poolref \<Rightarrow> ctx \<Rightarrow> string \<Rightarrow> sqlval list \<Rightarrow> 'w pooled \<Rightarrow> (go_error + row) \<times> 'w pooled" where
  "pd_QueryRow drv p c s a = pd_guard p (pool_QueryRow drv p c s a)"

definition pd_Query ::
  "'w pgx \<Rightarrow> poolref \<Rightarrow> ctx \<Rightarrow> string \<Rightarrow> sqlval list \<Rightarrow> 'w pooled \<Rightarrow>
   (go_error + (row list \<times> go_error option)) \<times> 'w pooled" where
  "pd_Query drv p c s a = pd_guard p (pool_Query drv p c s a)"

definition pd_Exec ::
  "'w pgx \<Rightarrow> poolref \<Rightarrow> ctx \<Rightarrow> string \<Rightarrow> sqlval list \<Rightarrow> 'w pooled \<Rightarrow> (go_error + nat) \<times> 'w pooled" where
  "pd_Exec drv p c s a = pd_guard p (pool_Exec drv p c s a)"

definition pd_Begin :: "'w pgx \<Rightarrow> poolref \<Rightarrow> ctx \<Rightarrow> 'w pooled \<Rightarrow> (go_error + txref) \<times> 'w pooled" where
  "pd_Begin drv p c = pd_guard p (pool_Begin drv p c)"

definition pd_Close :: "poolref \<Rightarrow> 'w pooled \<Rightarrow> 'w pooled" where
  "pd_Close p w = (case p of None \<Rightarrow> w | Some k \<Rightarrow> w\<lparr>pw_open := removeAll k (pw_open w)\<rparr>)"

definition pd_txQueryRow ::
  "'w pgx \<Rightarrow> txref \<Rightarrow> ctx \<Rightarrow> string \<Rightarrow> sqlval list \<Rightarrow> 'w pooled \<Rightarrow> (go_error + row) \<times> 'w pooled" where
  "pd_txQueryRow drv t c s a = pd_lift (tx_QueryRow drv t c s a)"

definition pd_txExec ::
  "'w pgx \<Rightarrow> txref \<Rightarrow> ctx \<Rightarrow> string \<Rightarrow> sqlval list \<Rightarrow> 'w pooled \<Rightarrow> (go_error + nat) \<times> 'w pooled" where
  "pd_txExec drv t c s a = pd_lift (tx_Exec drv t c s a)"

definition pd_Commit :: "'w pgx \<Rightarrow> txref \<Rightarrow> ctx \<Rightarrow> 'w pooled \<Rightarrow> go_error option \<times> 'w pooled" where
  "pd_Commit drv t c = pd_lift (tx_Commit drv t c)"

definition pd_Rollback :: "'w pgx \<Rightarrow> txref \<Rightarrow> ctx \<Rightarrow> 'w pooled \<Rightarrow> 'w pooled" where
  "pd_Rollback drv t c w = w\<lparr>pw_inner := tx_Rollback drv t c (pw_inner w)\<rparr>"

definition pooled_drv :: "'w pgx \<Rightarrow> 'w pooled pgx" where
  "pooled_drv drv =
    \<lparr>pool_QueryRow = pd_QueryRow drv, pool_Query = pd_Query drv, pool_Exec = pd_Exec drv,
     pool_Begin = pd_Begin drv, pool_Close = pd_Close, tx_QueryRow = pd_txQueryRow drv,
     tx_Exec = pd_txExec drv, tx_Commit = pd_Commit drv, tx_Rollback = pd_Rollback drv,
     scan_error = scan_error drv\<rparr>"

text \<open>A pool needs room for a connection, and a database URL its scheme.\<close>

definition pd_ParseConfig :: "string \<Rightarrow> go_error + pool_config" where
  "pd_ParseConfig s =
     (if prefix ''postgres://'' s
      then Inr \<lparr>PoolConfig_ConnString = s, PoolConfig_MaxConns = 4, PoolConfig_MinConns = 0,
                PoolConfig_MaxConnLifetime = 60 * time_Minute, PoolConfig_MaxConnIdleTime = 30 * time_Minute,
                PoolConfig_HealthCheckPeriod = time_Minute\<rparr>
      else Inl ''cannot parse'')"

definition pd_NewWithConfig :: "ctx \<Rightarrow> pool_config \<Rightarrow> 'w pooled \<Rightarrow> (go_error + nat) \<times> 'w pooled" where
  "pd_NewWithConfig c cfg w =
     (if sint (PoolConfig_MaxConns cfg) < 1 then (Inl ''MaxConns must be at least 1'', w)
      else (Inr (pw_next w), w\<lparr>pw_next := pw_next w + 1, pw_open := pw_next w # pw_open w\<rparr>))"

definition pd_Ping :: "poolref \<Rightarrow> ctx \<Rightarrow> 'w pooled \<Rightarrow> go_error option \<times> 'w pooled" where
  "pd_Ping p c w =
     (if \<not> pd_open p w then (Some ''closed pool'', w)
      else if pw_down w then (Some ''connection refused'', w) else (None, w))"

definition pd_pools :: "'w pooled pgxpool" where
  "pd_pools = \<lparr>pgxpool_ParseConfig = pd_ParseConfig, pgxpool_NewWithConfig = pd_NewWithConfig,
               pgxpool_Ping = pd_Ping\<rparr>"

section \<open>The other libraries\<close>

definition pd_vRead :: "vault_ref \<Rightarrow> ctx \<Rightarrow> string \<Rightarrow> 'w pooled \<Rightarrow> (go_error + vault_secret option) \<times> 'w pooled" where
  "pd_vRead v c path w =
     (case pw_secrets w of [] \<Rightarrow> (Inl ''permission denied'', w) | r # rs \<Rightarrow> (r, w\<lparr>pw_secrets := rs\<rparr>))"

definition pd_vault :: "'w pooled vault_api" where
  "pd_vault = \<lparr>vault_NewClient = \<lambda>a w. (Inr 0, w), vault_SetToken = \<lambda>v t w. w, vault_Read = pd_vRead,
               vault_Renew = \<lambda>v c l n w. (None, w)\<rparr>"

definition pd_level :: "string \<Rightarrow> go_error + zap_level" where
  "pd_level s = (if s = ''debug'' then Inr DebugLevel else if s = ''info'' then Inr InfoLevel
     else if s = ''warn'' then Inr WarnLevel else if s = ''error'' then Inr ErrorLevel
     else Inl ''unrecognized level'')"

definition pd_zap :: "'w pooled zap_api" where
  "pd_zap = \<lparr>zap_UnmarshalText = pd_level, zap_Build = \<lambda>c w. (Inr 0, w)\<rparr>"

definition pd_otel :: "'w pooled otel_api" where
  "pd_otel =
    \<lparr>otel_resource = \<lambda>c n w. (Inr 0, w), otel_traceExporter = \<lambda>c n w. (Inr 1, w),
     otel_TracerProvider = \<lambda>a b w. (2, w), otel_SetTracerProvider = \<lambda>a w. w,
     otel_SetPropagator = \<lambda>ps w. w, otel_Registry = \<lambda>w. (3, w), otel_promExporter = \<lambda>a w. (Inr 4, w),
     otel_MeterProvider = \<lambda>a b w. (5, w), otel_SetMeterProvider = \<lambda>a w. w, otel_HandlerFor = \<lambda>r. r,
     otel_TracerShutdown = \<lambda>a c w. (None, w), otel_MeterShutdown = \<lambda>a c w. (None, w)\<rparr>"

definition pd_net :: "'w pooled net_api" where
  "pd_net = \<lparr>net_Listen = \<lambda>a w. (Inr 0, w), grpc_GracefulStop = \<lambda>w. w, http_Shutdown = \<lambda>c w. (None, w)\<rparr>"

definition pd_redis :: "'w pooled redis_api" where
  "pd_redis = \<lparr>redis_ParseURL = \<lambda>u. Inr u, redis_NewClient = \<lambda>o' w. (0, w),
               redis_Ping = \<lambda>r c w. (None, w), redis_Close = \<lambda>r w. (None, w)\<rparr>"

text \<open>\<open>grpc.Dial\<close> insists on a decision about transport security: nil credentials are refused.\<close>

definition pd_Dial :: "string \<Rightarrow> dial_option list \<Rightarrow> 'w pooled \<Rightarrow> (go_error + conn_ref) \<times> 'w pooled" where
  "pd_Dial a opts w =
     (if \<exists>opt \<in> set opts. opt \<noteq> WithTLS None then (Inr 0, w)
      else (Inl ''grpc: no transport security set'', w))"

definition pd_dialer :: "'w pooled grpc_dialer" where
  "pd_dialer = \<lparr>grpc_Dial = pd_Dial, conn_Close = \<lambda>k w. (None, w)\<rparr>"

definition mem_platform :: "os_env \<Rightarrow> x509 \<Rightarrow> 'w pgx \<Rightarrow> 'w pooled platform" where
  "mem_platform os x drv =
    \<lparr>pf_os = os, pf_zap = pd_zap, pf_otel = pd_otel, pf_vault = pd_vault, pf_pools = pd_pools,
     pf_drv = pooled_drv drv, pf_x509 = x, pf_dialer = pd_dialer, pf_net = pd_net, pf_redis = pd_redis\<rparr>"

definition pd_srv :: "'w pooled server_env" where
  "pd_srv = \<lparr>srv_log = \<lambda>e w. w\<lparr>pw_log := pw_log w @ [e]\<rparr>,
             srv_now = \<lambda>w. (pw_clock w, w\<lparr>pw_clock := pw_clock w + 1000000\<rparr>),
             srv_code_name = \<lambda>c. ''code''\<rparr>"

section \<open>The order service's environment\<close>

definition pooled_redis :: "'w redis \<Rightarrow> 'w pooled redis" where
  "pooled_redis red =
    \<lparr>redis_Get = \<lambda>p c k. pd_lift (redis_Get red p c k),
     redis_Set = \<lambda>p c k d t. pd_lift (redis_Set red p c k d t),
     redis_Del = \<lambda>p c k. pd_lift (redis_Del red p c k)\<rparr>"

definition pooled_env :: "'w order_env \<Rightarrow> 'w pooled order_env" where
  "pooled_env env =
    \<lparr>env_drv = pooled_drv (env_drv env), env_red = pooled_redis (env_red env), env_js = env_js env,
     env_uuid = pd_lift (env_uuid env)\<rparr>"

definition pooled_conn :: "'w user_conn \<Rightarrow> 'w pooled user_conn" where
  "pooled_conn conn =
    \<lparr>rpc_GetUser = \<lambda>c req. pd_lift (rpc_GetUser conn c req), code_String = code_String conn,
     rpc_error_text = rpc_error_text conn\<rparr>"

section \<open>The interfaces\<close>

definition pd_created :: "'w pooled \<Rightarrow> nat set" where
  "pd_created w = {..<pw_next w}"

definition pd_opened :: "'w pooled \<Rightarrow> nat set" where
  "pd_opened w = {k \<in> set (pw_open w). k < pw_next w}"

lemma pd_lift_keeps [simp]:
  "pw_next (snd (pd_lift f w)) = pw_next w" "pw_open (snd (pd_lift f w)) = pw_open w"
  by (simp_all add: pd_lift_def split: prod.split)

lemma pd_guard_keeps [simp]:
  "pw_next (snd (pd_guard p f w)) = pw_next w" "pw_open (snd (pd_guard p f w)) = pw_open w"
  by (simp_all add: pd_guard_def)

lemma pooled_drv_simps [simp]:
  "pool_QueryRow (pooled_drv drv) = pd_QueryRow drv" "pool_Query (pooled_drv drv) = pd_Query drv"
  "pool_Exec (pooled_drv drv) = pd_Exec drv" "pool_Begin (pooled_drv drv) = pd_Begin drv"
  "pool_Close (pooled_drv drv) = pd_Close" "tx_QueryRow (pooled_drv drv) = pd_txQueryRow drv"
  "tx_Exec (pooled_drv drv) = pd_txExec drv" "tx_Commit (pooled_drv drv) = pd_Commit drv"
  "tx_Rollback (pooled_drv drv) = pd_Rollback drv"
  by (simp_all add: pooled_drv_def)

lemma mem_platform_simps [simp]:
  "pf_os (mem_platform os x drv) = os" "pf_zap (mem_platform os x drv) = pd_zap"
  "pf_otel (mem_platform os x drv) = pd_otel" "pf_vault (mem_platform os x drv) = pd_vault"
  "pf_pools (mem_platform os x drv) = pd_pools" "pf_drv (mem_platform os x drv) = pooled_drv drv"
  "pf_x509 (mem_platform os x drv) = x" "pf_dialer (mem_platform os x drv) = pd_dialer"
  "pf_net (mem_platform os x drv) = pd_net" "pf_redis (mem_platform os x drv) = pd_redis"
  by (simp_all add: mem_platform_def)

lemmas pd_drv_defs = pd_QueryRow_def pd_Query_def pd_Exec_def pd_Begin_def pd_txQueryRow_def
  pd_txExec_def pd_Commit_def pd_Rollback_def

lemmas pd_sets = pd_created_def pd_opened_def

lemma pgx_pools_mem: "pgx_pools (pooled_drv drv) pd_pools pd_created pd_opened"
  by unfold_locales
    (auto simp: pd_sets pd_pools_def pd_NewWithConfig_def pd_Close_def pd_Ping_def pd_open_def
      split: if_splits)

lemma quiet_driver_mem: "quiet_driver (pooled_drv drv) (\<lambda>w. (pd_created w, pd_opened w))"
  by unfold_locales (simp_all add: pd_sets pd_drv_defs)

lemma quiet_platform_mem: "quiet_platform (mem_platform os x drv) (\<lambda>w. (pd_created w, pd_opened w))"
  by unfold_locales
    (simp_all add: pd_zap_def pd_otel_def pd_vault_def pd_vRead_def pd_net_def pd_redis_def pd_dialer_def
      pd_Dial_def pd_sets split: list.split)

lemma quiet_server_mem: "quiet_server pd_srv (\<lambda>w. (pd_created w, pd_opened w))"
  by unfold_locales (simp_all add: pd_srv_def pd_sets)

lemma quiet_order_mem:
  "quiet_order (pooled_env env) (\<lambda>w. (pd_created w, pd_opened w)) (pooled_conn conn)"
  using quiet_driver_mem [of "env_drv env"]
  by (simp add: quiet_order_def quiet_order_axioms_def pooled_env_def pooled_redis_def pooled_conn_def pd_sets)

interpretation up: user_platform "mem_platform os x drv" pd_srv pd_created pd_opened
  for os :: os_env and x :: x509 and drv :: "'w pgx"
  unfolding user_platform_def mem_platform_simps
  by (intro conjI pgx_pools_mem quiet_driver_mem quiet_platform_mem quiet_server_mem)

interpretation op: order_platform "mem_platform os x (env_drv env)" pd_srv "pooled_env env" "pooled_conn conn"
    pd_created pd_opened
  for os :: os_env and x :: x509 and env :: "'w order_env" and conn :: "'w user_conn"
  unfolding order_platform_def mem_platform_simps
  by (intro conjI pgx_pools_mem quiet_driver_mem quiet_platform_mem quiet_server_mem quiet_order_mem)

interpretation ur: rotating_server "user_fetch (mem_platform os x drv) run"
    "rotate_pool (mem_platform os x drv) (ur_cfg run)"
    "health_tick (pf_pools (mem_platform os x drv)) Background (Some k)"
    "user_call_step (mem_platform os x drv) pd_srv" UserRepository_pool pd_created pd_opened
    k "''user.v1.UserService''"
  for os :: os_env and x :: x509 and drv :: "'w pgx" and run :: user_running and k :: nat
  by (rule up.user_rotating)

interpretation orot: rotating_server "order_fetch (mem_platform os x (env_drv env)) run"
    "order_rotate_pool (mem_platform os x (env_drv env)) (or_cfg run)"
    "order_health_tick (pf_pools (mem_platform os x (env_drv env))) Background (Some k)"
    "order_call_step pd_srv (pooled_env env) (pooled_conn conn)" OrderRepository_pool pd_created pd_opened
    k "''order.v1.OrderService''"
  for os :: os_env and x :: x509 and env :: "'w order_env" and conn :: "'w user_conn"
    and run :: order_running and k :: nat
  by (rule op.order_rotating)

end
