(* ===== verification/MemMigrations.thy ===== *)
theory MemMigrations
  imports Migrations
begin

text \<open>
  An executable database for the migrations, in which every call may fail: the state carries the
  outcomes of the calls to come, and a commit may also fail after it took effect. It provides the
  interface \<open>pg_migrations\<close>.
\<close>

datatype fault = Works | Fails | FailsLate

record mem_mig =
  mm_log :: "(string \<times> sqlval list) list"
  mm_txs :: "(txref \<times> (string \<times> sqlval list) list) list"
  mm_next :: txref
  mm_faults :: "fault list"

text \<open>The outcome of the next call; a list that has run out means that calls work.\<close>

definition mm_fault :: "mem_mig \<Rightarrow> fault" where
  "mm_fault w = (case mm_faults w of [] \<Rightarrow> Works | f # _ \<Rightarrow> f)"

definition mm_tick :: "mem_mig \<Rightarrow> mem_mig" where
  "mm_tick w = w\<lparr>mm_faults := tl (mm_faults w)\<rparr>"

definition mm_QueryRow ::
  "poolref \<Rightarrow> ctx \<Rightarrow> string \<Rightarrow> sqlval list \<Rightarrow> mem_mig \<Rightarrow> (go_error + row) \<times> mem_mig" where
  "mm_QueryRow p c s a w =
     (if mm_fault w \<noteq> Works then (Inl ''connection reset'', mm_tick w)
      else if s = sql_count_migration
           then (Inr [SInt (if (sql_record_migration, a) \<in> set (mm_log w) then 1 else 0)], mm_tick w)
           else (Inl ''syntax error'', mm_tick w))"

definition mm_Query ::
  "poolref \<Rightarrow> ctx \<Rightarrow> string \<Rightarrow> sqlval list \<Rightarrow> mem_mig \<Rightarrow>
   (go_error + (row list \<times> go_error option)) \<times> mem_mig" where
  "mm_Query p c s a w = (Inl ''syntax error'', mm_tick w)"

definition mm_Exec ::
  "poolref \<Rightarrow> ctx \<Rightarrow> string \<Rightarrow> sqlval list \<Rightarrow> mem_mig \<Rightarrow> (go_error + nat) \<times> mem_mig" where
  "mm_Exec p c s a w =
     (if mm_fault w \<noteq> Works then (Inl ''connection reset'', mm_tick w) else (Inr 0, mm_tick w))"

definition mm_Begin :: "poolref \<Rightarrow> ctx \<Rightarrow> mem_mig \<Rightarrow> (go_error + txref) \<times> mem_mig" where
  "mm_Begin p c w =
     (if mm_fault w \<noteq> Works then (Inl ''connection reset'', mm_tick w)
      else (Inr (mm_next w),
            (mm_tick w)\<lparr>mm_txs := (mm_next w, []) # mm_txs w, mm_next := mm_next w + 1\<rparr>))"

definition mm_Close :: "poolref \<Rightarrow> mem_mig \<Rightarrow> mem_mig" where
  "mm_Close p w = w"

definition mm_txQueryRow ::
  "txref \<Rightarrow> ctx \<Rightarrow> string \<Rightarrow> sqlval list \<Rightarrow> mem_mig \<Rightarrow> (go_error + row) \<times> mem_mig" where
  "mm_txQueryRow t c s a w = (Inl ''syntax error'', mm_tick w)"

definition mm_txExec ::
  "txref \<Rightarrow> ctx \<Rightarrow> string \<Rightarrow> sqlval list \<Rightarrow> mem_mig \<Rightarrow> (go_error + nat) \<times> mem_mig" where
  "mm_txExec t c s a w =
     (case map_of (mm_txs w) t of
        None \<Rightarrow> (Inl ''tx is closed'', mm_tick w)
      | Some l \<Rightarrow>
          (if mm_fault w \<noteq> Works then (Inl ''connection reset'', mm_tick w)
           else (Inr 0, (mm_tick w)\<lparr>mm_txs := (t, l @ [(s, a)]) # mm_txs w\<rparr>)))"

definition mm_Commit :: "txref \<Rightarrow> ctx \<Rightarrow> mem_mig \<Rightarrow> go_error option \<times> mem_mig" where
  "mm_Commit t c w =
     (case map_of (mm_txs w) t of
        None \<Rightarrow> (Some ''tx is closed'', mm_tick w)
      | Some l \<Rightarrow>
          (case mm_fault w of
             Works \<Rightarrow> (None, (mm_tick w)\<lparr>mm_log := mm_log w @ l\<rparr>)
           | Fails \<Rightarrow> (Some ''connection reset'', mm_tick w)
           | FailsLate \<Rightarrow> (Some ''connection reset'', (mm_tick w)\<lparr>mm_log := mm_log w @ l\<rparr>)))"

definition mm_Rollback :: "txref \<Rightarrow> ctx \<Rightarrow> mem_mig \<Rightarrow> mem_mig" where
  "mm_Rollback t c w = w"

definition mm_scan_error :: "row \<Rightarrow> go_error" where
  "mm_scan_error rw = ''cannot scan''"

definition mem_mig_drv :: "mem_mig pgx" where
  "mem_mig_drv =
    \<lparr>pool_QueryRow = mm_QueryRow, pool_Query = mm_Query, pool_Exec = mm_Exec, pool_Begin = mm_Begin,
     pool_Close = mm_Close, tx_QueryRow = mm_txQueryRow, tx_Exec = mm_txExec, tx_Commit = mm_Commit,
     tx_Rollback = mm_Rollback, scan_error = mm_scan_error\<rparr>"

lemma mem_mig_drv_simps [simp]:
  "pool_QueryRow mem_mig_drv = mm_QueryRow" "pool_Exec mem_mig_drv = mm_Exec"
  "pool_Begin mem_mig_drv = mm_Begin" "tx_Exec mem_mig_drv = mm_txExec"
  "tx_Commit mem_mig_drv = mm_Commit" "tx_Rollback mem_mig_drv = mm_Rollback"
  "scan_error mem_mig_drv = mm_scan_error"
  by (simp_all add: mem_mig_drv_def)

definition mm_tx :: "mem_mig \<Rightarrow> txref \<Rightarrow> (string \<times> sqlval list) list option" where
  "mm_tx w t = map_of (mm_txs w) t"

lemma mm_tick_simps [simp]:
  "mm_log (mm_tick w) = mm_log w" "mm_txs (mm_tick w) = mm_txs w" "mm_next (mm_tick w) = mm_next w"
  "mm_faults (mm_tick w) = tl (mm_faults w)"
  by (simp_all add: mm_tick_def)

lemmas mm_defs = mm_QueryRow_def mm_Exec_def mm_Begin_def mm_txExec_def mm_Commit_def
  mm_Rollback_def mm_tx_def

interpretation mig: pg_migrations mem_mig_drv mm_log mm_tx
  by unfold_locales (auto simp: mm_defs split: if_splits option.splits fault.splits)

section \<open>A database that works\<close>

interpretation migw: working_migrations mem_mig_drv mm_log mm_tx pool "\<lambda>w. mm_faults w = []"
  for pool :: poolref
  by unfold_locales (auto simp: mm_defs mm_fault_def)

lemma distinct_migrationsFS: "distinct (map fst migrationsFS)"
  by (simp add: migrationsFS_def)

lemma up_migrationsFS:
  "up_migrations migrationsFS =
     [''000001_create_users.up.sql'', ''000002_create_orders.up.sql'',
      ''000003_create_order_items.up.sql'', ''000004_drop_order_user_fk.up.sql'']"
  by code_simp

end
