(* ===== verification/MemRunning.thy ===== *)
theory MemRunning
  imports MemServer MemUsers MemMigrations
begin

text \<open>
  The pools of \<open>MemServer\<close> around the executable databases: a pooled driver keeps the promises of the
  driver inside (a call on a closed pool is an error without effect), so the specifications of the
  user service and of the migrations hold in the running service, whatever pool is in use.
\<close>

lemma pd_guard_cases:
  assumes "pd_guard p f w = (res, w')"
  shows "f (pw_inner w) = (res, pw_inner w') \<or> res = Inl ''closed pool'' \<and> w' = w"
  using assms by (auto simp: pd_guard_def pd_lift_def split: prod.splits if_splits)

lemma closed_pool_text: "''closed pool'' \<noteq> no_rows" "\<not> says_duplicate ''closed pool''"
  by code_simp+

lemma pooled_pg_users:
  assumes "pg_users drv uuid_in users"
  shows "pg_users (pooled_drv drv) uuid_in (\<lambda>w. users (pw_inner w))"
proof -
  note base = pg_users.insert_row [OF assms] pg_users.insert_error [OF assms]
    pg_users.insert_duplicate [OF assms] pg_users.select_keeps [OF assms]
    pg_users.select_row [OF assms] pg_users.select_none [OF assms] pg_users.update_row [OF assms]
    pg_users.update_none [OF assms] pg_users.update_error [OF assms]
    pg_users.update_duplicate [OF assms] pg_users.delete_row [OF assms] pg_users.delete_error [OF assms]
  note guard = pd_guard_cases [where p = p and f = "pool_QueryRow drv p c s a" for p c s a, folded pd_QueryRow_def]
    pd_guard_cases [where p = p and f = "pool_Exec drv p c s a" for p c s a, folded pd_Exec_def]
  show ?thesis
    by (unfold_locales; unfold pooled_drv_simps; drule guard; rotate_tac -1; erule disjE;
        ((rule base; assumption) | (use closed_pool_text in auto)))
qed

lemma pd_lift_cases: "pd_lift f w = (res, w') \<Longrightarrow> f (pw_inner w) = (res, pw_inner w')"
  by (auto simp: pd_lift_def split: prod.splits)

lemma pooled_pg_migrations:
  assumes "pg_migrations drv lg tx"
  shows "pg_migrations (pooled_drv drv) (\<lambda>w. lg (pw_inner w)) (\<lambda>w. tx (pw_inner w))"
proof
  note base = pg_migrations.create_keeps [OF assms] pg_migrations.count_keeps [OF assms]
    pg_migrations.count_row [OF assms] pg_migrations.begin_keeps [OF assms]
    pg_migrations.begin_tx [OF assms] pg_migrations.exec_keeps [OF assms]
    pg_migrations.exec_tx [OF assms] pg_migrations.rollback_keeps [OF assms]
    pg_migrations.commit_log [OF assms] pg_migrations.commit_error [OF assms]
  fix p c f t s a w
  show "lg (pw_inner (snd (pool_Exec (pooled_drv drv) p c sql_create_migrations [] w))) = lg (pw_inner w)"
    using base(1) by (simp add: pd_Exec_def pd_guard_def pd_lift_def case_prod_unfold)
  show "lg (pw_inner (snd (pool_QueryRow (pooled_drv drv) p c sql_count_migration [SStr f] w))) = lg (pw_inner w)"
    using base(2) by (simp add: pd_QueryRow_def pd_guard_def pd_lift_def case_prod_unfold)
  show "lg (pw_inner (snd (pool_Begin (pooled_drv drv) p c w))) = lg (pw_inner w)"
    using base(4) by (simp add: pd_Begin_def pd_guard_def pd_lift_def case_prod_unfold)
  show "lg (pw_inner (snd (tx_Exec (pooled_drv drv) t c s a w))) = lg (pw_inner w)"
    using base(6) by (simp add: pd_txExec_def pd_lift_def case_prod_unfold)
  show "lg (pw_inner (tx_Rollback (pooled_drv drv) t c w)) = lg (pw_inner w)"
    using base(8) by (simp add: pd_Rollback_def)
  show "\<exists>n. rw = [SInt n] \<and> (0 < sint n \<longleftrightarrow> (sql_record_migration, [SStr f]) \<in> set (lg (pw_inner w)))"
    if "fst (pool_QueryRow (pooled_drv drv) p c sql_count_migration [SStr f] w) = Inr rw" for rw
    using that base(3) by (auto simp: pd_QueryRow_def pd_guard_def pd_lift_def case_prod_unfold split: if_splits)
  show "tx (pw_inner w') t = Some []" if "pool_Begin (pooled_drv drv) p c w = (Inr t, w')" for w'
    using that base(5) by (auto simp: pd_Begin_def dest!: pd_guard_cases)
  show "tx (pw_inner w') t = Some (l @ [(s, a)])"
    if "tx (pw_inner w) t = Some l" "tx_Exec (pooled_drv drv) t c s a w = (Inr n, w')" for l n w'
    using that base(7) by (auto simp: pd_txExec_def dest!: pd_lift_cases)
  show "lg (pw_inner w') = lg (pw_inner w) @ l"
    if "tx (pw_inner w) t = Some l" "tx_Commit (pooled_drv drv) t c w = (None, w')" for l w'
    using that base(9) by (auto simp: pd_Commit_def dest!: pd_lift_cases)
  show "lg (pw_inner w') = lg (pw_inner w) \<or> lg (pw_inner w') = lg (pw_inner w) @ l"
    if "tx (pw_inner w) t = Some l" "tx_Commit (pooled_drv drv) t c w = (Some err, w')" for l err w'
    using that(1) base(10) pd_lift_cases [OF that(2) [unfolded pooled_drv_simps pd_Commit_def]] by blast
qed

interpretation pu: pg_users "pooled_drv mem_pgx" mem_uuid_in "\<lambda>w. mem_table (pw_inner w)"
  by (rule pooled_pg_users, unfold_locales)

interpretation pm: pg_migrations "pooled_drv mem_mig_drv" "\<lambda>w. mm_log (pw_inner w)" "\<lambda>w. mm_tx (pw_inner w)"
  by (rule pooled_pg_migrations, unfold_locales)

end
