(* ===== verification/PlatformProps.thy ===== *)
theory PlatformProps
  imports MemRunning OrderCodec UserClient
begin

text \<open>
  The properties of the two processes: configuration, credentials, start-up, schema migrations,
  rotation of connection pools, health monitoring, interceptors and shutdown. Each is a few steps
  over the lemmas of its component, and comes with an instance on the executable platform.
\<close>

section \<open>Configuration\<close>

lemma sint_word_of_int32: "sint (word_of_int i :: int32) = wrap32 i"
proof -
  have "sint (word_of_int i :: int32) = signed_take_bit 31 i" by (simp add: signed_of_int)
  also have "\<dots> = wrap32 i"
    by (simp add: wrap32_def signed_take_bit_eq_take_bit_shift take_bit_eq_mod)
  finally show ?thesis .
qed

text \<open>A process environment with the given variables and files.\<close>

definition test_os :: "(string \<times> string) list \<Rightarrow> (string \<times> string) list \<Rightarrow> os_env" where
  "test_os vars files =
    \<lparr>Getenv = \<lambda>k. case map_of vars k of Some v \<Rightarrow> v | None \<Rightarrow> [],
     ReadFile = \<lambda>p. case map_of files p of Some d \<Rightarrow> Inr d | None \<Rightarrow> Inl ''no such file''\<rparr>"

text \<open> (C28) Configuration round trip: a pool size written in decimal and a lifetime written as a
  whole number with a unit of \<open>time.ParseDuration\<close> are read back by both services, the pool size
  truncated to 32 bits: from \<open>2\<^sup>3\<^sup>1\<close> on, a positive setting becomes another number.\<close>

theorem config_reads_environment:
  assumes "Getenv os ''DB_POOL_MAX_CONNS'' = dec_int i" "- (2 ^ 63) \<le> i" "i < 2 ^ 63"
    and "Getenv os ''DB_POOL_MAX_CONN_LIFETIME'' = dec_nat n @ u" "map_of unitMap u = Some k"
      "int n * k < 2 ^ 63"
  shows "sint (UserConfig_DBPoolMaxConns (LoadConfig os)) = wrap32 i \<and>
    sint (OrderConfig_DBPoolMaxConns (order_LoadConfig os)) = wrap32 i \<and>
    UserConfig_DBPoolMaxConnLifetime (LoadConfig os) = int n * k \<and>
    OrderConfig_DBPoolMaxConnLifetime (order_LoadConfig os) = int n * k"
  using getEnvInt_dec_int [OF assms(1-3)] getEnvDuration_dec_nat [OF assms(4-6)]
  by (simp add: LoadConfig_def order_LoadConfig_def sint_word_of_int32)

lemma config_reads_environment_witness:
  "sint (UserConfig_DBPoolMaxConns (LoadConfig (test_os
       [(''DB_POOL_MAX_CONNS'', ''4294967297''), (''DB_POOL_MAX_CONN_LIFETIME'', ''15m'')] []))) = 1 \<and>
   OrderConfig_DBPoolMaxConnLifetime (order_LoadConfig (test_os
       [(''DB_POOL_MAX_CONNS'', ''4294967297''), (''DB_POOL_MAX_CONN_LIFETIME'', ''15m'')] [])) = 15 * time_Minute"
proof -
  have d: "dec_int 4294967297 = ''4294967297''" "dec_nat 15 = ''15''"
    by (simp_all add: dec_int_def dec_nat.simps)
  have u: "map_of unitMap ''m'' = Some time_Minute" by (simp add: unitMap_def)
  show ?thesis
    using config_reads_environment [of "test_os [(''DB_POOL_MAX_CONNS'', ''4294967297''),
        (''DB_POOL_MAX_CONN_LIFETIME'', ''15m'')] []" 4294967297 15 "''m''" time_Minute] d u
    by (simp add: test_os_def wrap32_def)
qed

text \<open>When Vault is used: exactly when an address is set and a token comes from the variable or,
  failing that, from the token file; a file that cannot be read or holds only white space gives
  none, and the service silently starts with the static database URL.\<close>

theorem vault_in_use_iff:
  "(UseVault (LoadConfig os) \<longleftrightarrow>
     Getenv os ''VAULT_ADDR'' \<noteq> [] \<and>
     (Getenv os ''VAULT_TOKEN'' \<noteq> [] \<or>
      Getenv os ''VAULT_TOKEN_FILE'' \<noteq> [] \<and>
        (\<exists>data. ReadFile os (Getenv os ''VAULT_TOKEN_FILE'') = Inr data \<and> TrimSpace data \<noteq> []))) \<and>
   (order_UseVault (order_LoadConfig os) \<longleftrightarrow> UseVault (LoadConfig os))"
  using loadVaultToken_empty_iff [of os]
  by (auto simp: UseVault_def order_UseVault_def LoadConfig_def order_LoadConfig_def getEnv_def Let_def)

section \<open>Credentials\<close>

text \<open>The credential refresher waits half the lease, but never less than 30 seconds, after every
  fetch that succeeds: a lease of at least a minute is renewed in time, a lease shorter than 30
  seconds has expired before the next fetch. It waits at least 30 seconds in every case.\<close>

theorem refresher_wait:
  assumes "vault_Read api (VaultClient_client vc) c (''database/creds/'' @ role) w = (Inr (Some sec), w1)"
    and "GetDBCreds api vc c role w = (Inr creds, w1)"
    and "0 \<le> Secret_LeaseDuration sec" "Secret_LeaseDuration sec * time_Second < 2 ^ 63"
  shows "fst (refresher_round api vc c role rf lf w) =
      max (30 * time_Second) (Secret_LeaseDuration sec * time_Second div 2) \<and>
    (\<forall>d \<in> set (fst (StartCredentialRefresher api vc c role rf lf ks w)). 30 * time_Second \<le> d)"
proof -
  have lease: "DBCreds_LeaseDuration creds = Secret_LeaseDuration sec * time_Second"
    using assms by (auto elim!: GetDBCreds_Inr)
  have "refresh_interval creds = max (30 * time_Second) (Secret_LeaseDuration sec * time_Second div 2)"
    using refresh_interval_half [of creds] refresh_interval_short [of creds] lease
    by (cases "60 * time_Second \<le> DBCreds_LeaseDuration creds") (simp_all add: max_def)
  then show ?thesis
    using assms(2) refresher_waits by (simp add: refresher_round_def)
qed

definition test_secret :: vault_secret where
  "test_secret = \<lparr>Secret_LeaseID = ''lease'', Secret_LeaseDuration = 3600,
     Secret_Data = Some [(''username'', JString ''v-user''), (''password'', JString ''pw'')]\<rparr>"

definition test_world :: "'w \<Rightarrow> (go_error + vault_secret option) list \<Rightarrow> 'w pooled" where
  "test_world i secrets = \<lparr>pw_inner = i, pw_next = 0, pw_open = [], pw_down = False,
     pw_secrets = secrets, pw_clock = 0, pw_log = []\<rparr>"

lemma refresher_wait_witness:
  "fst (refresher_round pd_vault \<lparr>VaultClient_client = 0\<rparr> Background ''user-service'' None None
     (test_world () [Inr (Some test_secret)])) = 30 * time_Minute"
  using refresher_wait [of pd_vault "\<lparr>VaultClient_client = 0\<rparr>" Background "''user-service''"
      "test_world () [Inr (Some test_secret)]" test_secret "test_world () []" _ None None "[]"]
  by (simp add: GetDBCreds_def creds_data_def as_string_def pd_vault_def pd_vRead_def test_world_def
      test_secret_def)

section \<open>Runs of the executable platform\<close>

text \<open>
  Start-up of both services with Vault, on a database for the migrations: the user service with a CA
  file that holds no certificate, the order service with a good one; then one round of the
  credential refresher, which starts with a fetch.
\<close>

definition test_x509 :: x509 where
  "test_x509 = \<lparr>x509_KeyPair = \<lambda>c k. Inr 1, x509_Append = \<lambda>ca. if ca = ''PEM'' then Some [7] else None\<rparr>"

definition boot_os :: "string \<Rightarrow> os_env" where
  "boot_os ca = test_os [(''VAULT_ADDR'', ''http://vault:8200''), (''VAULT_TOKEN'', ''t'')] [(''certs/ca/ca.pem'', ca)]"

definition boot_world :: "mem_mig pooled" where
  "boot_world = test_world \<lparr>mm_log = [], mm_txs = [], mm_next = 0, mm_faults = []\<rparr>
     [Inr (Some test_secret), Inr (Some test_secret)]"

abbreviation boot_platform :: "string \<Rightarrow> mem_mig pooled platform" where
  "boot_platform ca \<equiv> mem_platform (boot_os ca) test_x509 mem_mig_drv"

definition boot_env :: "mem_mig order_env" where
  "boot_env = \<lparr>env_drv = mem_mig_drv,
     env_red = \<lparr>redis_Get = \<lambda>p c k w. (RNil, w), redis_Set = \<lambda>p c k d t w. (None, w), redis_Del = \<lambda>p c k w. (None, w)\<rparr>,
     env_js = mem_json, env_uuid = \<lambda>w. (''00000000-0000-0000-0000-000000000001'', w)\<rparr>"

definition boot_conn :: "mem_mig user_conn" where
  "boot_conn = \<lparr>rpc_GetUser = \<lambda>c r w. (Inl (OtherErr ''unavailable''), w), code_String = \<lambda>c. '''',
     rpc_error_text = \<lambda>e. ''unavailable''\<rparr>"

definition user_boot_check :: bool where
  "user_boot_check = (case user_main (boot_platform ''garbage'') boot_world of
      (Inr run, w1) \<Rightarrow>
        let s = user_started run w1;
            t = server_refresh (user_fetch (boot_platform ''garbage'') run) (rotate_pool (boot_platform ''garbage'') (ur_cfg run)) s
        in gs_creds (ur_server run) = None \<and> ur_pool run = Some 0 \<and> UserRepository_pool (st_repo t) = Some 1
    | (Inl _, _) \<Rightarrow> False)"

definition order_boot_check :: bool where
  "order_boot_check = (case order_main (boot_platform ''PEM'') boot_world of
      (Inr run, w1) \<Rightarrow>
        let s = order_started run w1;
            t = server_refresh (order_fetch (boot_platform ''PEM'') run) (order_rotate_pool (boot_platform ''PEM'') (or_cfg run)) s
        in or_pool run = Some 0 \<and> OrderRepository_pool (st_repo t) = Some 1
    | (Inl _, _) \<Rightarrow> False)"

lemma user_boot: user_boot_check by code_simp
lemma order_boot: order_boot_check by code_simp

lemma user_bootE:
  obtains run w1 where "user_main (boot_platform ''garbage'') boot_world = (Inr run, w1)"
    "gs_creds (ur_server run) = None" "ur_pool run = Some 0"
    "UserRepository_pool (st_repo (server_refresh (user_fetch (boot_platform ''garbage'') run)
       (rotate_pool (boot_platform ''garbage'') (ur_cfg run)) (user_started run w1))) = Some 1"
  using user_boot unfolding user_boot_check_def Let_def
  by (cases "user_main (boot_platform ''garbage'') boot_world"; cases "fst (user_main (boot_platform ''garbage'') boot_world)")
    simp_all

lemma order_bootE:
  obtains run w1 where "order_main (mem_platform (boot_os ''PEM'') test_x509 (env_drv boot_env)) boot_world = (Inr run, w1)"
    "or_pool run = Some 0"
    "OrderRepository_pool (st_repo (server_refresh (order_fetch (mem_platform (boot_os ''PEM'') test_x509 (env_drv boot_env)) run)
       (order_rotate_pool (mem_platform (boot_os ''PEM'') test_x509 (env_drv boot_env)) (or_cfg run)) (order_started run w1))) = Some 1"
proof -
  have drv: "env_drv boot_env = mem_mig_drv" by (simp add: boot_env_def)
  show thesis
    using order_boot that unfolding order_boot_check_def Let_def drv
    by (cases "order_main (boot_platform ''PEM'') boot_world"; cases "fst (order_main (boot_platform ''PEM'') boot_world)")
      simp_all
qed

lemma boot_world_opened [simp]: "pd_opened boot_world = {}"
  by (simp add: boot_world_def test_world_def pd_opened_def)

section \<open>Schema migrations\<close>

lemma pending_after:
  assumes "prefix ds (pending_migrations fs lg)" "distinct (map fst fs)"
  shows "ds @ pending_migrations fs (lg @ concat (map (mig_block fs) ds)) = pending_migrations fs lg"
proof -
  obtain rest where rest: "pending_migrations fs lg = ds @ rest" using assms(1) by (auto simp: prefix_def)
  have dist: "distinct (ds @ rest)"
    using assms(2) rest [symmetric]
    by (simp add: pending_migrations_def up_migrations_def sort_Strings_def glob_up_def)
  have "pending_migrations fs (lg @ concat (map (mig_block fs) ds)) =
      filter (\<lambda>e. e \<notin> set ds) (pending_migrations fs lg)"
    by (simp add: pending_migrations_def conj_commute)
  also have "\<dots> = rest" using dist unfolding rest by (auto simp: filter_id_conv filter_empty_conv)
  finally show ?thesis using rest by simp
qed

text \<open> (C29) Migrations are all or nothing, in order and resumable: over every database with
  transactions, whatever calls fail, a run of \<open>Up\<close> commits the transactions (script and record
  together) of the first pending migrations and of no others; a later run on a database that works
  and has the same log returns without error, and the two runs together have committed every pending
  migration exactly once, in the order of the file names.\<close>

theorem migrations_resume:
  assumes "working_migrations drv lg tx pool ok"
    and "ok v" "lg v = lg (snd (migrations_Up drv migrationsFS c p w))"
  shows "\<exists>ds v'. prefix ds (pending_migrations migrationsFS (lg w)) \<and>
      lg (snd (migrations_Up drv migrationsFS c p w)) = lg w @ concat (map (mig_block migrationsFS) ds) \<and>
      migrations_Up drv migrationsFS c pool v = (None, v') \<and>
      lg v' = lg w @ concat (map (mig_block migrationsFS) (pending_migrations migrationsFS (lg w)))"
proof -
  note pg = working_migrations.axioms(1) [OF assms(1)]
  obtain ds where ds: "prefix ds (pending_migrations migrationsFS (lg w))"
    "lg (snd (migrations_Up drv migrationsFS c p w)) = lg w @ concat (map (mig_block migrationsFS) ds)"
    using pg_migrations.migrations_Up_effect [OF pg distinct_migrationsFS, of w c p]
    by (auto simp: pending_migrations_def)
  obtain v' where v': "migrations_Up drv migrationsFS c pool v = (None, v')"
    using working_migrations.migrations_Up_works [OF assms(1,2)] by blast
  then have "lg v' = lg v @ concat (map (mig_block migrationsFS) (pending_migrations migrationsFS (lg v)))"
    using pg_migrations.migrations_Up_effect [OF pg distinct_migrationsFS, of v c pool]
    by (auto simp: pending_migrations_def)
  then have "lg v' = lg w @ concat (map (mig_block migrationsFS)
      (ds @ pending_migrations migrationsFS (lg w @ concat (map (mig_block migrationsFS) ds))))"
    using assms(3) ds(2) by simp
  with ds v' pending_after [OF ds(1) distinct_migrationsFS] show ?thesis by auto
qed

text \<open>The second migration's commit fails although it took effect; the next run does the other two.\<close>

definition half_migrated :: mem_mig where
  "half_migrated = snd (migrations_Up mem_mig_drv migrationsFS Background (Some 0)
     \<lparr>mm_log = [], mm_txs = [], mm_next = 0,
      mm_faults = [Works, Works, Works, Works, Works, Works, Works, Works, Works, Works, FailsLate]\<rparr>)"

lemma migrations_resume_witness:
  "length (mm_log half_migrated) = 4 \<and> (\<exists>v'. migrations_Up mem_mig_drv migrationsFS Background (Some 0) half_migrated = (None, v') \<and>
     mm_log v' = concat (map (mig_block migrationsFS) (up_migrations migrationsFS)))"
proof -
  have l: "length (mm_log half_migrated) = 4" and f: "mm_faults half_migrated = []" by code_simp+
  let ?w = "\<lparr>mm_log = [], mm_txs = [], mm_next = 0,
      mm_faults = [Works, Works, Works, Works, Works, Works, Works, Works, Works, Works, FailsLate]\<rparr>"
  from migrations_resume [OF migw.working_migrations_axioms, of half_migrated Background "Some 0" ?w] l f show ?thesis
    by (auto simp: half_migrated_def pending_migrations_def recorded_def)
qed

text \<open> (C31) A service that serves has its schema: when \<open>main\<close> of either service gets as far as serving,
  every migration is recorded as applied in its database, whichever calls of the database may have
  failed. The libraries beside the driver must leave the log of the migrations alone.\<close>

theorem serving_implies_migrated:
  assumes "pg_migrations (pf_drv pf) lg tx" "quiet_platform pf lg"
    and "(\<exists>run. user_main pf w = (Inr run, w')) \<or> (\<exists>run. order_main pf w = (Inr run, w'))"
    and "e \<in> set (up_migrations migrationsFS)"
  shows "recorded (lg w') e"
proof -
  obtain p v u where u: "migrations_Up (pf_drv pf) migrationsFS Background p v = (None, u)" "lg w' = lg u"
    using assms(3) by (meson quiet_platform.user_main_migrates [OF assms(2)] quiet_platform.order_main_migrates [OF assms(2)])
  with pg_migrations.migrations_Up_effect [OF assms(1) distinct_migrationsFS, of v Background p] assms(4)
  show ?thesis by auto
qed

lemma quiet_platform_inner: "quiet_platform (mem_platform os x drv) (\<lambda>w. f (pw_inner w))"
  by unfold_locales
    (simp_all add: pd_zap_def pd_otel_def pd_vault_def pd_vRead_def pd_net_def pd_redis_def pd_dialer_def
      pd_Dial_def split: list.split)

lemma serving_implies_migrated_witness:
  "\<exists>run w'. user_main (boot_platform ''garbage'') boot_world = (Inr run, w') \<and>
     recorded (mm_log (pw_inner w')) ''000004_drop_order_user_fk.up.sql''"
proof -
  obtain run w' where "user_main (boot_platform ''garbage'') boot_world = (Inr run, w')"
    by (rule user_bootE)
  then show ?thesis
    using serving_implies_migrated [OF _ quiet_platform_inner, of "boot_os ''garbage''" test_x509 mem_mig_drv mm_log _
        boot_world w' "''000004_drop_order_user_fk.up.sql''"] pm.pg_migrations_axioms by (auto simp: up_migrationsFS)
qed

section \<open>Start-up and transport security\<close>

lemma order_connect_bad_ca:
  assumes "ReadFile (pf_os pf) (OrderConfig_CAFile cfg) = Inr ca" "x509_Append (pf_x509 pf) ca = None"
    and "\<And>a v. isl (fst (grpc_Dial (pf_dialer pf) a [WithTLS None] v))"
    and "OrderConfig_CAFile cfg \<noteq> []" "OrderConfig_CertFile cfg \<noteq> []" "OrderConfig_KeyFile cfg \<noteq> []"
  shows "order_connect pf cfg w \<noteq> (Inr r, w')"
proof -
  have "NewUserClient (pf_os pf) (pf_x509 pf) (pf_dialer pf) a (OrderConfig_CAFile cfg) (OrderConfig_CertFile cfg)
      (OrderConfig_KeyFile cfg) v \<noteq> (Inr client, v')" for a v client v'
    using assms(1,2,4-6) assms(3) [of a v]
    by (auto simp: NewUserClient_def LoadClientConfig_def split: sum.splits prod.splits)
  then show ?thesis by (auto simp: order_connect_def split: sum.splits prod.splits)
qed

lemma order_main_bad_ca:
  assumes "ReadFile (pf_os pf) (OrderConfig_CAFile (order_LoadConfig (pf_os pf))) = Inr ca"
    and "x509_Append (pf_x509 pf) ca = None"
    and "\<And>a v. isl (fst (grpc_Dial (pf_dialer pf) a [WithTLS None] v))"
  shows "isl (fst (order_main pf v))"
proof (cases "order_main pf v")
  case (Pair res v')
  have "res \<noteq> Inr run" for run
  proof
    assume "res = Inr run"
    with Pair have "order_main pf v = (Inr run, v')" by simp
    then obtain w5 w6 where
      "order_connect pf (order_LoadConfig (pf_os pf)) w5 = (Inr (or_rdb run, or_userClient run), w6)"
      by (rule order_main_Inr) simp
    with order_connect_bad_ca [OF assms] show False
      by (simp add: order_LoadConfig_def getEnv_def Let_def)
  qed
  then show ?thesis using Pair by (cases res) auto
qed

text \<open> (C32) Transport security of the services: the server that the user service starts demands client
  certificates of the configured CA over TLS 1.3, except when the CA file can be read but holds no
  certificate: then \<open>LoadServerConfig\<close> returns nil credentials without an error, and the service
  serves on a plain connection. The order service, whose CA file also decides about its connection to
  the user service, does not start in that case, since \<open>grpc.Dial\<close> refuses nil credentials.\<close>

theorem bad_ca_serves_plaintext:
  assumes "user_main pf w = (Inr run, w')"
    and "\<And>a v. isl (fst (grpc_Dial (pf_dialer pfo) a [WithTLS None] v))"
  shows "(gs_creds (ur_server run) = None \<longleftrightarrow>
       (\<exists>ca. ReadFile (pf_os pf) (UserConfig_CAFile (LoadConfig (pf_os pf))) = Inr ca \<and>
             x509_Append (pf_x509 pf) ca = None)) \<and>
    (\<forall>tls. gs_creds (ur_server run) = Some tls \<longrightarrow>
       (\<exists>ca pool. ReadFile (pf_os pf) (UserConfig_CAFile (LoadConfig (pf_os pf))) = Inr ca \<and>
          x509_Append (pf_x509 pf) ca = Some pool \<and> mutual_tls pool tls)) \<and>
    (\<forall>ca. ReadFile (pf_os pfo) (OrderConfig_CAFile (order_LoadConfig (pf_os pfo))) = Inr ca \<longrightarrow>
       x509_Append (pf_x509 pfo) ca = None \<longrightarrow> isl (fst (order_main pfo v)))"
proof -
  let ?cfg = "LoadConfig (pf_os pf)"
  have tls: "LoadServerConfig (pf_os pf) (pf_x509 pf) (UserConfig_CertFile ?cfg) (UserConfig_KeyFile ?cfg)
      (UserConfig_CAFile ?cfg) = Inr (gs_creds (ur_server run))"
    using assms(1) by (rule user_main_Inr)
  have order: "isl (fst (order_main pfo v))"
    if "ReadFile (pf_os pfo) (OrderConfig_CAFile (order_LoadConfig (pf_os pfo))) = Inr ca"
      "x509_Append (pf_x509 pfo) ca = None" for ca
    using that assms(2) by (rule order_main_bad_ca)
  show ?thesis
  proof (cases "gs_creds (ur_server run)")
    case None
    then obtain ca where "ReadFile (pf_os pf) (UserConfig_CAFile ?cfg) = Inr ca" "x509_Append (pf_x509 pf) ca = None"
      using tls LoadServerConfig_None_iff by metis
    with None order show ?thesis by auto
  next
    case (Some cfg)
    with tls LoadServerConfig_mutual obtain ca pool where
      "ReadFile (pf_os pf) (UserConfig_CAFile ?cfg) = Inr ca" "x509_Append (pf_x509 pf) ca = Some pool" "mutual_tls pool cfg"
      by metis
    with Some order show ?thesis by auto
  qed
qed

lemma garbage_ca:
  "ReadFile (boot_os ''garbage'') (OrderConfig_CAFile (order_LoadConfig (boot_os ''garbage''))) = Inr ''garbage''"
  "x509_Append test_x509 ''garbage'' = None"
  by code_simp+

lemma bad_ca_serves_plaintext_witness:
  "\<exists>run w' ex v. user_main (boot_platform ''garbage'') boot_world = (Inr run, w') \<and>
     gs_creds (ur_server run) = None \<and> order_main (boot_platform ''garbage'') boot_world = (Inl ex, v)"
proof -
  obtain run w' where run: "user_main (boot_platform ''garbage'') boot_world = (Inr run, w')"
    "gs_creds (ur_server run) = None" by (rule user_bootE)
  have "isl (fst (order_main (boot_platform ''garbage'') boot_world))"
    using bad_ca_serves_plaintext [OF run(1), of "boot_platform ''garbage''" boot_world] garbage_ca
    by (simp add: pd_dialer_def pd_Dial_def)
  then obtain ex v where "order_main (boot_platform ''garbage'') boot_world = (Inl ex, v)"
    by (metis isl_def prod.collapse)
  with run show ?thesis by blast
qed

section \<open>Rotation of connection pools\<close>

text \<open> (C33) No pool is leaked or used after it was closed while the user service runs: in every state
  that calls, credential rotations and health checks can reach after start-up, on every platform that
  keeps its promises, exactly one pool of the service is open, and it is the one the repository uses.\<close>

theorem running_pool_unique:
  assumes "user_platform pf srv created opened" "user_main pf w = (Inr run, w1)"
    and "user_reach pf srv run (user_started run w1) s"
  shows "\<exists>p. UserRepository_pool (st_repo s) = Some p \<and> p \<notin> opened w \<and> opened (st_w s) = insert p (opened w)"
proof -
  obtain k where "rotating_server.pools_ok UserRepository_pool created opened k (opened w) s"
    using assms by (rule user_platform.user_reach_pools)
  then show ?thesis
    unfolding rotating_server.pools_ok_def [OF user_platform.user_rotating [OF assms(1)]] by blast
qed

lemma running_pool_unique_witness:
  "\<exists>run w1 s. user_main (boot_platform ''garbage'') boot_world = (Inr run, w1) \<and>
     user_reach (boot_platform ''garbage'') pd_srv run (user_started run w1) s \<and>
     UserRepository_pool (st_repo s) = Some 1 \<and> pd_opened (st_w s) = {1}"
proof -
  obtain run w1 where run: "user_main (boot_platform ''garbage'') boot_world = (Inr run, w1)"
    "UserRepository_pool (st_repo (server_refresh (user_fetch (boot_platform ''garbage'') run)
       (rotate_pool (boot_platform ''garbage'') (ur_cfg run)) (user_started run w1))) = Some 1" by (rule user_bootE)
  have reach: "user_reach (boot_platform ''garbage'') pd_srv run (user_started run w1)
      (server_refresh (user_fetch (boot_platform ''garbage'') run)
        (rotate_pool (boot_platform ''garbage'') (ur_cfg run)) (user_started run w1))"
    unfolding user_reach_def by (rule server_reach_step1 [OF server_step_refresh])
  show ?thesis using running_pool_unique [OF up.user_platform_axioms run(1) reach] run reach by auto
qed

text \<open> (C34) The health of the order service after a rotation: the monitor pings the pool that \<open>main\<close>
  opened, which the rotation has closed; so from its first round after a rotation on, in every
  reachable state, the service reports NOT_SERVING, although the repository's pool is open.\<close>

theorem rotation_breaks_health:
  fixes env :: "'w order_env"
  assumes "order_platform pf srv env conn created opened" "order_main pf w = (Inr run, w1)"
    and "order_reach pf srv env conn run (order_started run w1) s"
    and "OrderRepository_pool (st_repo s) \<noteq> or_pool run"
    and "order_reach pf srv env conn run
      (server_tick (order_health_tick (pf_pools pf) Background (or_pool run)) s) t"
  shows "st_health t ''order.v1.OrderService'' = Some NOT_SERVING \<and>
    (\<exists>p. OrderRepository_pool (st_repo t) = Some p \<and> p \<in> opened (st_w t))"
proof -
  note rot = order_platform.order_rotating [OF assms(1)]
  obtain k where k: "or_pool run = Some k"
    "rotating_server.pools_ok OrderRepository_pool created opened k (opened w) s"
    using assms(1-3) by (rule order_platform.order_reach_pools)
  with assms(4) have "rotating_server.rotated OrderRepository_pool created opened k (opened w) s"
    by (simp add: rotating_server.rotated_def [OF rot])
  from rotating_server.stuck_tick [OF rot this assms(5) [unfolded order_reach_def k(1)]] show ?thesis
    by (auto simp: rotating_server.rotated_def [OF rot] rotating_server.pools_ok_def [OF rot])
qed

lemma rotation_breaks_health_witness:
  "\<exists>run w1 t. order_main (mem_platform (boot_os ''PEM'') test_x509 (env_drv boot_env)) boot_world = (Inr run, w1) \<and>
     order_reach (mem_platform (boot_os ''PEM'') test_x509 (env_drv boot_env)) pd_srv (pooled_env boot_env)
       (pooled_conn boot_conn) run (order_started run w1) t \<and>
     st_health t ''order.v1.OrderService'' = Some NOT_SERVING"
proof -
  let ?pf = "mem_platform (boot_os ''PEM'') test_x509 (env_drv boot_env)"
  obtain run w1 where run: "order_main ?pf boot_world = (Inr run, w1)" "or_pool run = Some 0"
    "OrderRepository_pool (st_repo (server_refresh (order_fetch ?pf run)
       (order_rotate_pool ?pf (or_cfg run)) (order_started run w1))) = Some 1" by (rule order_bootE)
  let ?s = "server_refresh (order_fetch ?pf run) (order_rotate_pool ?pf (or_cfg run)) (order_started run w1)"
  let ?t = "server_tick (order_health_tick (pf_pools ?pf) Background (or_pool run)) ?s"
  have s: "order_reach ?pf pd_srv (pooled_env boot_env) (pooled_conn boot_conn) run (order_started run w1) ?s"
    unfolding order_reach_def by (rule server_reach_step1 [OF server_step_refresh])
  then have t: "order_reach ?pf pd_srv (pooled_env boot_env) (pooled_conn boot_conn) run (order_started run w1) ?t"
    unfolding order_reach_def by (rule reach_step) (rule server_step_tick)
  have refl: "order_reach ?pf pd_srv (pooled_env boot_env) (pooled_conn boot_conn) run ?t ?t"
    unfolding order_reach_def by (rule reach_refl)
  have "OrderRepository_pool (st_repo ?s) \<noteq> or_pool run" using run by simp
  from rotation_breaks_health [OF op.order_platform_axioms run(1) s this refl] run(1) t show ?thesis by blast
qed

text \<open>
  A request that has read the pool before a rotation and queries it afterwards fails: the rotation has
  closed that pool, and nothing retries.
\<close>

theorem rotation_fails_inflight:
  assumes "user_platform pf srv created opened"
    and closed: "\<And>p c q a w. p \<notin> opened w \<Longrightarrow>
      \<exists>err w'. pool_QueryRow (pf_drv pf) (Some p) c q a w = (Inl err, w') \<and> err \<noteq> no_rows"
    and "rotate_pool pf cfg creds repo w = (repo', w')" "repo' \<noteq> repo" "UserRepository_pool repo = Some p"
    and "p \<in> created w" "GetUserRequest_Id req \<noteq> []"
  shows "fst (GetUser (pf_drv pf) \<lparr>UserServiceServer_repo = repo\<rparr> c req w') =
    Inl (Status Internal ''failed to get user'')"
proof -
  have "p \<notin> opened w'"
    using user_platform.rotate_pool_cases [OF assms(1,3,5)] assms(4,6) by auto
  then obtain err w2 where "pool_QueryRow (pf_drv pf) (Some p) (UserRepository_queryTimeout c) sql_select_user
      [SStr (GetUserRequest_Id req)] w' = (Inl err, w2)" "err \<noteq> no_rows"
    using closed by blast
  then show ?thesis
    using assms(5,7) by (simp add: GetUser_def UserRepository_Get_def UserRepository_getPool_def Let_def)
qed

section \<open>Shutdown\<close>

text \<open> (C35) Shutdown of the user service closes the pool that \<open>main\<close> opened and no other: after a
  rotation, the pool in use is still open when \<open>main\<close> returns.\<close>

theorem shutdown_closes_first_pool:
  assumes "user_platform pf srv created opened" "user_main pf w = (Inr run, w1)"
    and "user_reach pf srv run (user_started run w1) s"
  shows "opened (snd (user_main_end pf run ev (st_w s))) =
    opened w \<union> (if UserRepository_pool (st_repo s) = ur_pool run then {}
                else {the (UserRepository_pool (st_repo s))})"
proof -
  obtain k where k: "ur_pool run = Some k"
    "rotating_server.pools_ok UserRepository_pool created opened k (opened w) s"
    using assms by (rule user_platform.user_reach_pools)
  then show ?thesis
    using user_platform.user_shutdown_pools [OF assms(1) k(1), of ev "st_w s"]
    unfolding rotating_server.pools_ok_def [OF user_platform.user_rotating [OF assms(1)]] by auto
qed

lemma shutdown_closes_first_pool_witness:
  "\<exists>run w1 s. user_main (boot_platform ''garbage'') boot_world = (Inr run, w1) \<and>
     pd_opened (snd (user_main_end (boot_platform ''garbage'') run (SignalReceived ''terminated'') s)) = {1}"
proof -
  obtain run w1 where run: "user_main (boot_platform ''garbage'') boot_world = (Inr run, w1)" "ur_pool run = Some 0"
    "UserRepository_pool (st_repo (server_refresh (user_fetch (boot_platform ''garbage'') run)
       (rotate_pool (boot_platform ''garbage'') (ur_cfg run)) (user_started run w1))) = Some 1" by (rule user_bootE)
  have reach: "user_reach (boot_platform ''garbage'') pd_srv run (user_started run w1)
      (server_refresh (user_fetch (boot_platform ''garbage'') run)
        (rotate_pool (boot_platform ''garbage'') (ur_cfg run)) (user_started run w1))"
    unfolding user_reach_def by (rule server_reach_step1 [OF server_step_refresh])
  show ?thesis
    using shutdown_closes_first_pool [OF up.user_platform_axioms run(1) reach, of "SignalReceived ''terminated''"] run by auto
qed

section \<open>Calls through the interceptors\<close>

lemma quiet_inner: "quiet_server pd_srv (\<lambda>w. f (pw_inner w))"
  by unfold_locales (simp_all add: pd_srv_def)

text \<open> (C36) A call that the user service serves meets the specification of the service: through
  the interceptors, over every database that keeps its promises and every clock and logger that leave
  it alone, the server answers (it never panics), and the answer and the change of the users table
  are those that \<open>user_spec\<close> permits. That includes a repository whose pool a rotation has closed.\<close>

theorem served_calls_meet_spec:
  assumes "pg_users drv uuid_in users" "quiet_server srv users"
  shows "\<exists>reply. fst (user_serve srv drv s c call w) = Done reply \<and>
     user_spec uuid_in (users w) call reply (users (snd (user_serve srv drv s c call w)))"
proof -
  obtain w1 where w1: "users w1 = users w"
    "fst (user_serve srv drv s c call w) = Done (fst (UserService_dispatch drv s c call w1))"
    "users (snd (user_serve srv drv s c call w)) = users (snd (UserService_dispatch drv s c call w1))"
    unfolding user_serve_def
    by (rule quiet_server.chain_transparent [OF assms(2), of w c call "user_method call"
          "\<lambda>c' call' w'. apfst Done (UserService_dispatch drv s c' call' w')"]) simp
  then show ?thesis
    using pg_users.dispatch_refines [OF assms(1), of s c call w1] by (cases "UserService_dispatch drv s c call w1") simp
qed

definition closed_pool_run :: "(status + user_reply) outcome \<times> mem_users pooled" where
  "closed_pool_run =
     user_serve pd_srv (pooled_drv mem_pgx) \<lparr>UserServiceServer_repo = NewUserRepository (Some 0)\<rparr> (Request 0)
       (CallDeleteUser \<lparr>DeleteUserRequest_Id = ''u1''\<rparr>) (test_world mem_users_empty [])"

lemma served_calls_meet_spec_witness:
  "user_spec mem_uuid_in (mem_table mem_users_empty) (CallDeleteUser \<lparr>DeleteUserRequest_Id = ''u1''\<rparr>)
     (Inl (Status Internal ''failed to delete user'')) (mem_table (pw_inner (snd closed_pool_run)))"
proof -
  have "fst closed_pool_run = Done (Inl (Status Internal ''failed to delete user''))" by code_simp
  then show ?thesis
    using served_calls_meet_spec [OF pu.pg_users_axioms quiet_inner,
        of "\<lparr>UserServiceServer_repo = NewUserRepository (Some 0)\<rparr>" "Request 0"
          "CallDeleteUser \<lparr>DeleteUserRequest_Id = ''u1''\<rparr>" "test_world mem_users_empty []", folded closed_pool_run_def]
    by (simp add: test_world_def)
qed

lemma CreateOrder_items_nil:
  "\<forall>it \<in> set its. item_error it = None \<Longrightarrow> CreateOrder_items i (map Some its @ None # rest) = Panicked"
  by (induction its arbitrary: i) (auto simp: item_error_def split: if_splits)

text \<open>A nil item in an order is a nil dereference in the handler; the recovery interceptor
  answers with the status Internal, the server goes on, and neither the database nor the cache has
  been touched.\<close>

theorem nil_item_recovered:
  fixes env :: "'w order_env"
  assumes "TrimSpace (CreateOrderRequest_UserId req) \<noteq> []"
    and "CreateOrderRequest_Items req = map Some its @ None # rest"
    and "\<forall>it \<in> set its. item_error it = None"
  shows "fst (order_serve pd_srv (pooled_env env) (pooled_conn conn) s c (CallCreateOrder req) w) =
      Done (Inl (Status Internal ''internal server error'')) \<and>
    pw_inner (snd (order_serve pd_srv (pooled_env env) (pooled_conn conn) s c (CallCreateOrder req) w)) = pw_inner w"
proof -
  have "OrderService_dispatch (pooled_env env) (pooled_conn conn) s c (CallCreateOrder req) v = (Panicked, v)" for v
    using assms CreateOrder_items_nil [OF assms(3)] by (simp add: CreateOrder_def)
  then show ?thesis
    using quiet_server.chain_transparent [OF quiet_inner [of "\<lambda>i. i"], of w c "CallCreateOrder req"
        "order_method (CallCreateOrder req)" "OrderService_dispatch (pooled_env env) (pooled_conn conn) s"]
    unfolding order_serve_def order_chain_eq by auto
qed

lemma nil_item_recovered_witness:
  "fst (order_serve pd_srv (pooled_env boot_env) (pooled_conn boot_conn)
       \<lparr>OrderServiceServer_repo = NewOrderRepository (Some 0) None\<rparr> (Request 0)
       (CallCreateOrder \<lparr>CreateOrderRequest_UserId = ''u1'', CreateOrderRequest_Items = [None]\<rparr>) boot_world) =
     Done (Inl (Status Internal ''internal server error''))"
proof -
  have "TrimSpace ''u1'' = ''u1''" by code_simp
  then show ?thesis
    using nil_item_recovered [of "\<lparr>CreateOrderRequest_UserId = ''u1'', CreateOrderRequest_Items = [None]\<rparr>" "[]" "[]"
        boot_env boot_conn "\<lparr>OrderServiceServer_repo = NewOrderRepository (Some 0) None\<rparr>" "Request 0" boot_world]
    by simp
qed

end
