(* ===== verification/Loadtest.thy ===== *)
theory Loadtest
  imports Tls Float64 Proto
begin

text \<open>
  \<open>src/scripts/loadtest/main.go\<close>: the load generator. Its statistics and their report with the
  floating-point percentile indices, the choice of operations, the connection set-up, the creation of
  test data, the loop of a virtual user, and the consumer of the results. The gRPC stubs, the clock
  and the random numbers are functions over the state \<open>'w\<close>; the numbers printed go through the
  verbs of \<open>fmt\<close>, which are modelled on exact rationals.
\<close>

section \<open>Verbs of \<open>fmt\<close>\<close>

text \<open>Widths count runes: the bytes that do not continue a UTF-8 sequence.\<close>

definition rune_count :: "string \<Rightarrow> nat" where
  "rune_count s = length (filter (\<lambda>b. \<not> (128 \<le> (of_char b :: nat) \<and> (of_char b :: nat) < 192)) s)"

definition pad_left :: "nat \<Rightarrow> string \<Rightarrow> string" where
  "pad_left k s = replicate (k - rune_count s) (CHR '' '') @ s"

definition pad_right :: "nat \<Rightarrow> string \<Rightarrow> string" where
  "pad_right k s = s @ replicate (k - rune_count s) (CHR '' '')"

text \<open>\<open>%.pf\<close>: the exact value rounded half to even to \<open>p\<close> decimals.\<close>

definition fmt_f :: "nat \<Rightarrow> float64 \<Rightarrow> string" where
  "fmt_f p x =
     (case x of
        NaN \<Rightarrow> ''NaN''
      | Inf s \<Rightarrow> if s then ''-Inf'' else ''+Inf''
      | Fin s m \<Rightarrow>
          (let k = nat (round_half_even (m * 10 ^ p));
               whole = dec_nat (k div 10 ^ p);
               frac = dec_nat (k mod 10 ^ p)
           in (if s then ''-'' else '''') @ whole @
              (if p = 0 then '''' else ''.'' @ replicate (p - length frac) (CHR ''0'') @ frac)))"

section \<open>Durations\<close>

abbreviation time_Millisecond :: duration where "time_Millisecond \<equiv> 1000000"

definition rem64 :: "int \<Rightarrow> int \<Rightarrow> int" where
  "rem64 a b = a - quot64 a b * b"

definition duration_Seconds :: "duration \<Rightarrow> float64" where
  "duration_Seconds d =
     fadd (float_of_int (quot64 d time_Second))
          (fdiv (float_of_int (rem64 d time_Second)) (Fin False 1000000000))"

definition fmtDuration :: "duration \<Rightarrow> string" where
  "fmtDuration d =
     (if d < time_Millisecond then fmt_f 0 (float_of_int (quot64 d 1000)) @ [CHR 0xC2, CHR 0xB5, CHR ''s'']
      else if d < time_Second then fmt_f 0 (float_of_int (quot64 d 1000000)) @ ''ms''
      else fmt_f 2 (duration_Seconds d) @ ''s'')"

section \<open>Statistics\<close>

record load_result =
  result_duration :: duration
  result_err :: bool
  result_op :: string

record opStats =
  os_count :: int
  os_errCount :: int
  os_durs :: "duration list"

definition opStats_new :: opStats where
  "opStats_new = \<lparr>os_count = 0, os_errCount = 0, os_durs = []\<rparr>"

text \<open>
  \<open>add\<close> is three separate atomic steps: the two counters and, under the mutex, the list. Another
  goroutine can look at the statistics in between.
\<close>

definition add_count :: "opStats \<Rightarrow> opStats" where
  "add_count s = s\<lparr>os_count := wrap64 (os_count s + 1)\<rparr>"

definition add_err :: "bool \<Rightarrow> opStats \<Rightarrow> opStats" where
  "add_err err s = (if err then s\<lparr>os_errCount := wrap64 (os_errCount s + 1)\<rparr> else s)"

definition add_dur :: "duration \<Rightarrow> opStats \<Rightarrow> opStats" where
  "add_dur d s = s\<lparr>os_durs := os_durs s @ [d]\<rparr>"

definition opStats_add :: "duration \<Rightarrow> bool \<Rightarrow> opStats \<Rightarrow> opStats" where
  "opStats_add d err s = add_dur d (add_err err (add_count s))"

section \<open>The report\<close>

text \<open>\<open>int(math.Ceil(float64(n)*q)) - 1\<close>, for a constant \<open>q\<close> rounded to a float64.\<close>

definition percentile_index :: "float64 \<Rightarrow> nat \<Rightarrow> int" where
  "percentile_index q n =
     (case fmul (float_of_int (int n)) q of Fin False m \<Rightarrow> \<lceil>m\<rceil> - 1 | _ \<Rightarrow> - 1)"

definition q95 :: float64 where "q95 = round64 False (95 / 100)"

definition q99 :: float64 where "q99 = round64 False (99 / 100)"

text \<open>An index expression panics out of range.\<close>

definition index_list :: "'a list \<Rightarrow> int \<Rightarrow> 'a outcome" where
  "index_list xs i = (if 0 \<le> i \<and> i < int (length xs) then Done (xs ! nat i) else Panicked)"

record op_report =
  rep_n :: int
  rep_avg :: duration
  rep_p50 :: duration
  rep_p95 :: duration
  rep_p99 :: duration
  rep_rps :: float64
  rep_errRate :: float64

text \<open>
  The numbers of a report, from the counters and the list as they are read; \<open>None\<close> when there is
  nothing to report. A division by zero panics.
\<close>

definition report_values :: "opStats \<Rightarrow> op_report option outcome" where
  "report_values s =
     (let n = os_count s; durs = sort (os_durs s); len = length durs in
      if n = 0 then Done None
      else
        let tot = foldl (\<lambda>t d. wrap64 (t + d)) 0 durs in
        if len = 0 then Panicked
        else case (index_list durs (int len div 2), index_list durs (percentile_index q95 len),
                   index_list durs (percentile_index q99 len)) of
          (Done p50, Done p95, Done p99) \<Rightarrow>
            Done (Some \<lparr>rep_n = n, rep_avg = quot64 tot (int len), rep_p50 = p50, rep_p95 = p95,
                        rep_p99 = p99, rep_rps = fdiv (float_of_int n) (duration_Seconds tot),
                        rep_errRate = fmul (fdiv (float_of_int (os_errCount s)) (float_of_int n))
                                        (Fin False 100)\<rparr>)
        | _ \<Rightarrow> Panicked)"

definition report_line :: "string \<Rightarrow> op_report \<Rightarrow> string" where
  "report_line label r =
     ''  '' @ pad_right 14 label @ '' | '' @ pad_left 6 (dec_int (rep_n r)) @ '' req | '' @
     pad_left 6 (fmt_f 1 (rep_rps r)) @ '' rps | avg '' @ pad_left 6 (fmtDuration (rep_avg r)) @
     '' | p50 '' @ pad_left 6 (fmtDuration (rep_p50 r)) @
     '' | p95 '' @ pad_left 6 (fmtDuration (rep_p95 r)) @
     '' | p99 '' @ pad_left 6 (fmtDuration (rep_p99 r)) @
     '' | err '' @ pad_left 4 (fmt_f 1 (rep_errRate r)) @ ''%'' @ [CHR 0x0A]"

definition opStats_report :: "string \<Rightarrow> opStats \<Rightarrow> string outcome" where
  "opStats_report label s =
     (case report_values s of
        Panicked \<Rightarrow> Panicked
      | Done None \<Rightarrow> Done ''''
      | Done (Some r) \<Rightarrow> Done (report_line label r))"

section \<open>The consumer of the results\<close>

record load_stats =
  ls_total :: opStats
  ls_createUser :: opStats
  ls_getUser :: opStats
  ls_createOrder :: opStats
  ls_getOrder :: opStats

definition load_stats_new :: load_stats where
  "load_stats_new = \<lparr>ls_total = opStats_new, ls_createUser = opStats_new, ls_getUser = opStats_new,
                     ls_createOrder = opStats_new, ls_getOrder = opStats_new\<rparr>"

definition consume_one :: "load_stats \<Rightarrow> load_result \<Rightarrow> load_stats" where
  "consume_one st r =
     (let add = opStats_add (result_duration r) (result_err r);
          st = st\<lparr>ls_total := add (ls_total st)\<rparr>
      in if result_op r = ''CreateUser'' then st\<lparr>ls_createUser := add (ls_createUser st)\<rparr>
         else if result_op r = ''GetUser'' then st\<lparr>ls_getUser := add (ls_getUser st)\<rparr>
         else if result_op r = ''CreateOrder'' then st\<lparr>ls_createOrder := add (ls_createOrder st)\<rparr>
         else if result_op r = ''GetOrder'' then st\<lparr>ls_getOrder := add (ls_getOrder st)\<rparr>
         else st)"

definition consume :: "load_stats \<Rightarrow> load_result list \<Rightarrow> load_stats" where
  "consume = foldl consume_one"

section \<open>Connections\<close>

text \<open>\<open>log.Fatalf\<close> ends the process with its message.\<close>

definition load_dial ::
  "os_env \<Rightarrow> x509 \<Rightarrow> 'w grpc_dialer \<Rightarrow> string \<Rightarrow> string \<Rightarrow> string \<Rightarrow> string \<Rightarrow> 'w \<Rightarrow>
   (string + conn_ref) \<times> 'w" where
  "load_dial os x g addr caFile certFile keyFile w =
     (case (if certFile \<noteq> '''' \<and> keyFile \<noteq> '''' \<and> caFile \<noteq> ''''
            then (case LoadClientConfig os x caFile certFile keyFile of
                    Inl err \<Rightarrow> Inl (''load TLS: '' @ err)
                  | Inr creds \<Rightarrow> Inr [WithTLS creds])
            else Inr []) of
        Inl msg \<Rightarrow> (Inl msg, w)
      | Inr opts \<Rightarrow>
          (case grpc_Dial g addr opts w of
             (Inl err, w') \<Rightarrow> (Inl (''dial '' @ addr @ '': '' @ err), w')
           | (Inr conn, w') \<Rightarrow> (Inr conn, w')))"

section \<open>The virtual users\<close>

text \<open>
  The stubs, the clock (\<open>time.Now\<close>) and a random number generator, over \<open>'w\<close>. Every call is made with
  \<open>context.Background()\<close>, which has no deadline, so a call that the server does not answer does not
  return: that is the value \<open>None\<close>.
\<close>

record 'w load_env =
  le_CreateUser :: "ctx \<Rightarrow> CreateUserRequest \<Rightarrow> 'w \<Rightarrow> ((rpc_error + CreateUserResponse) \<times> 'w) option"
  le_GetUser :: "ctx \<Rightarrow> GetUserRequest \<Rightarrow> 'w \<Rightarrow> ((rpc_error + GetUserResponse) \<times> 'w) option"
  le_CreateOrder :: "ctx \<Rightarrow> CreateOrderRequest \<Rightarrow> 'w \<Rightarrow> ((rpc_error + CreateOrderResponse) \<times> 'w) option"
  le_GetOrder :: "ctx \<Rightarrow> GetOrderRequest \<Rightarrow> 'w \<Rightarrow> ((rpc_error + GetOrderResponse) \<times> 'w) option"
  le_now :: "'w \<Rightarrow> time \<times> 'w"
  le_Float64 :: "'w \<Rightarrow> float64 \<times> 'w"
  le_Intn :: "nat \<Rightarrow> 'w \<Rightarrow> nat \<times> 'w"

definition randomOp :: "'w load_env \<Rightarrow> float64 \<Rightarrow> 'w \<Rightarrow> string \<times> 'w" where
  "randomOp env writeRatio w =
     (case le_Float64 env w of (a, w1) \<Rightarrow>
      (case le_Float64 env w1 of (b, w2) \<Rightarrow>
        if flt a writeRatio
        then (if flt b (Fin False (1 / 2)) then ''CreateUser'' else ''CreateOrder'', w2)
        else (if flt b (Fin False (1 / 2)) then ''GetUser'' else ''GetOrder'', w2)))"

definition load_item :: "int32 \<Rightarrow> OrderItem option" where
  "load_item q =
     Some \<lparr>OrderItem_ProductId = ''loadtest-prod'', OrderItem_ProductName = ''Load Test Product'',
           OrderItem_Quantity = q, OrderItem_UnitPrice = Fin False 10\<rparr>"

text \<open>The call of one round; the result is whether it gave an error.\<close>

definition worker_call ::
  "'w load_env \<Rightarrow> string list \<Rightarrow> string list \<Rightarrow> int \<Rightarrow> string \<Rightarrow> 'w \<Rightarrow> (bool \<times> 'w) option" where
  "worker_call env userIDs orderIDs vu op w =
     (if op = ''CreateUser'' then
        (case le_now env w of (t, w1) \<Rightarrow>
          map_option (apfst isl) (le_CreateUser env Background
            \<lparr>CreateUserRequest_Name = ''VU_'' @ dec_int vu,
             CreateUserRequest_Email = ''vu_'' @ dec_int vu @ ''_'' @ dec_int t @ ''@example.com''\<rparr> w1))
      else if op = ''GetUser'' then
        (case le_Intn env (length userIDs) w of (k, w1) \<Rightarrow>
          map_option (apfst isl) (le_GetUser env Background \<lparr>GetUserRequest_Id = userIDs ! k\<rparr> w1))
      else if op = ''CreateOrder'' then
        (case le_Intn env (length userIDs) w of (k, w1) \<Rightarrow>
         (case le_Intn env 5 w1 of (q, w2) \<Rightarrow>
           map_option (apfst isl) (le_CreateOrder env Background
             \<lparr>CreateOrderRequest_UserId = userIDs ! k,
              CreateOrderRequest_Items = [load_item (word_of_nat (q + 1))]\<rparr> w2)))
      else if op = ''GetOrder'' \<and> 0 < length orderIDs then
        (case le_Intn env (length orderIDs) w of (k, w1) \<Rightarrow>
          map_option (apfst isl) (le_GetOrder env Background \<lparr>GetOrderRequest_Id = orderIDs ! k\<rparr> w1))
      else Some (False, w))"

text \<open>One round: choose, call, and measure.\<close>

definition worker_round ::
  "'w load_env \<Rightarrow> float64 \<Rightarrow> string list \<Rightarrow> string list \<Rightarrow> int \<Rightarrow> 'w \<Rightarrow> (load_result \<times> 'w) option" where
  "worker_round env writeRatio userIDs orderIDs vu w =
     (case randomOp env writeRatio w of (op, w1) \<Rightarrow>
      (case le_now env w1 of (opStart, w2) \<Rightarrow>
       (case worker_call env userIDs orderIDs vu op w2 of
          None \<Rightarrow> None
        | Some (err, w3) \<Rightarrow>
            (case le_now env w3 of (t, w4) \<Rightarrow>
              Some (\<lparr>result_duration = t - opStart, result_err = err, result_op = op\<rparr>, w4)))))"

text \<open>
  The loop of a virtual user: until the test duration has passed. Whether it ever passes is for the
  clock to decide, and whether a call returns for the servers, so the loop may not end: that is the
  value \<open>None\<close>.
\<close>

partial_function (option) worker_loop ::
  "'w load_env \<Rightarrow> float64 \<Rightarrow> string list \<Rightarrow> string list \<Rightarrow> duration \<Rightarrow> time \<Rightarrow> int \<Rightarrow> 'w \<Rightarrow>
   (load_result list \<times> 'w) option" where
  "worker_loop env writeRatio userIDs orderIDs dur start vu w =
     (case le_now env w of (t, w1) \<Rightarrow>
        if dur \<le> t - start then Some ([], w1)
        else Option.bind (worker_round env writeRatio userIDs orderIDs vu w1) (\<lambda>(r, w2).
                Option.bind (worker_loop env writeRatio userIDs orderIDs dur start vu w2)
                  (\<lambda>(rs, w3). Some (r # rs, w3))))"

section \<open>Setting up and summing up\<close>

record load_flags =
  lf_vus :: int
  lf_duration :: duration
  lf_userAddr :: string
  lf_orderAddr :: string
  lf_certDir :: string
  lf_caFile :: string
  lf_writeRatio :: float64

text \<open>
  The test users: those whose creation succeeded. A reply without a user is a nil dereference, a call
  that does not return is \<open>None\<close>.
\<close>

fun create_users :: "'w load_env \<Rightarrow> nat \<Rightarrow> nat \<Rightarrow> 'w \<Rightarrow> (string list outcome \<times> 'w) option" where
  "create_users env i 0 w = Some (Done [], w)"
| "create_users env i (Suc k) w =
     (case le_now env w of (t, w1) \<Rightarrow>
      (case le_CreateUser env Background
              \<lparr>CreateUserRequest_Name = ''LoadTestUser_'' @ dec_nat i,
               CreateUserRequest_Email =
                 ''loadtest_'' @ dec_int t @ ''_'' @ dec_nat i @ ''@example.com''\<rparr> w1 of
         None \<Rightarrow> None
       | Some (Inl err, w2) \<Rightarrow> create_users env (i + 1) k w2
       | Some (Inr resp, w2) \<Rightarrow>
           (case CreateUserResponse_User resp of
              None \<Rightarrow> Some (Panicked, w2)
            | Some u \<Rightarrow>
                map_option (apfst (map_outcome (Cons (User_Id u)))) (create_users env (i + 1) k w2))))"

fun create_orders :: "'w load_env \<Rightarrow> string list \<Rightarrow> nat \<Rightarrow> nat \<Rightarrow> 'w \<Rightarrow> (string list outcome \<times> 'w) option" where
  "create_orders env userIDs i 0 w = Some (Done [], w)"
| "create_orders env userIDs i (Suc k) w =
     (case le_CreateOrder env Background
             \<lparr>CreateOrderRequest_UserId = userIDs ! (i mod length userIDs),
              CreateOrderRequest_Items = [load_item 1]\<rparr> w of
        None \<Rightarrow> None
      | Some (Inl err, w1) \<Rightarrow> create_orders env userIDs (i + 1) k w1
      | Some (Inr resp, w1) \<Rightarrow>
          (case CreateOrderResponse_Order resp of
             None \<Rightarrow> Some (Panicked, w1)
           | Some order \<Rightarrow>
               map_option (apfst (map_outcome (Cons (Order_Id order)))) (create_orders env userIDs (i + 1) k w1)))"

text \<open>Test users and orders, or the message of \<open>log.Fatal\<close>.\<close>

definition load_setup ::
  "'w load_env \<Rightarrow> load_flags \<Rightarrow> 'w \<Rightarrow> ((string + string list \<times> string list) outcome \<times> 'w) option" where
  "load_setup env flags w =
     (case create_users env 0 (nat (wrap64 (lf_vus flags * 2))) w of
        None \<Rightarrow> None
      | Some (Panicked, w1) \<Rightarrow> Some (Panicked, w1)
      | Some (Done userIDs, w1) \<Rightarrow>
          (if length userIDs = 0 then Some (Done (Inl ''failed to create any test users''), w1)
           else map_option (apfst (map_outcome (\<lambda>orderIDs. Inr (userIDs, orderIDs))))
                  (create_orders env userIDs 0 (nat (lf_vus flags)) w1)))"

text \<open>The two connections; \<open>main\<close> derives the file names from the certificate directory.\<close>

definition load_connect ::
  "os_env \<Rightarrow> x509 \<Rightarrow> 'w grpc_dialer \<Rightarrow> load_flags \<Rightarrow> 'w \<Rightarrow> (string + conn_ref \<times> conn_ref) \<times> 'w" where
  "load_connect os x g flags w =
     (let ca = lf_caFile flags; cert = lf_certDir flags @ ''/cert.pem''; key = lf_certDir flags @ ''/key.pem''
      in case load_dial os x g (lf_userAddr flags) ca cert key w of
           (Inl msg, w1) \<Rightarrow> (Inl msg, w1)
         | (Inr userConn, w1) \<Rightarrow>
             (case load_dial os x g (lf_orderAddr flags) ca cert key w1 of
                (Inl msg, w2) \<Rightarrow> (Inl msg, w2)
              | (Inr orderConn, w2) \<Rightarrow> (Inr (userConn, orderConn), w2)))"

text \<open>The five reports, in order; a panic ends the program.\<close>

definition load_reports :: "load_stats \<Rightarrow> string outcome" where
  "load_reports st =
     foldl (\<lambda>out (label, s).
        case (out, opStats_report label s) of (Done a, Done b) \<Rightarrow> Done (a @ b) | _ \<Rightarrow> Panicked)
       (Done '''')
       [(''TOTAL'', ls_total st), (''CreateUser'', ls_createUser st), (''GetUser'', ls_getUser st),
        (''CreateOrder'', ls_createOrder st), (''GetOrder'', ls_getOrder st)]"

definition load_summary :: "load_stats \<Rightarrow> string" where
  "load_summary st =
     (let writeCount = wrap64 (os_count (ls_createUser st) + os_count (ls_createOrder st));
          readCount = wrap64 (os_count (ls_getUser st) + os_count (ls_getOrder st));
          totalCount = os_count (ls_total st);
          percent = (\<lambda>k. fmt_f 0 (fmul (fdiv (float_of_int k) (float_of_int totalCount)) (Fin False 100)))
      in [CHR 0x0A] @ ''  Writes: '' @ dec_int writeCount @ '' ('' @ percent writeCount @ ''%) | Reads: '' @
         dec_int readCount @ '' ('' @ percent readCount @ ''%) | Total: '' @ dec_int totalCount @ [CHR 0x0A])"

section \<open>Facts\<close>

text \<open>What the consumer has counted.\<close>

definition stats_ok :: "opStats \<Rightarrow> bool" where
  "stats_ok s \<longleftrightarrow> os_count s = int (length (os_durs s)) \<and> 0 \<le> os_errCount s \<and> os_errCount s \<le> os_count s"

lemma stats_ok_new [simp]: "stats_ok opStats_new"
  by (simp add: stats_ok_def opStats_new_def)

lemma opStats_add_ok:
  "stats_ok s \<Longrightarrow> int (length (os_durs s)) < 2 ^ 63 - 1 \<Longrightarrow>
   stats_ok (opStats_add d err s) \<and> length (os_durs (opStats_add d err s)) = length (os_durs s) + 1"
  by (auto simp: stats_ok_def opStats_add_def add_count_def add_err_def add_dur_def)

lemma q95_val: "q95 = Fin False (8556839292003942 / 9007199254740992)"
  unfolding q95_def by code_simp

lemma q99_val: "q99 = Fin False (8917127262193582 / 9007199254740992)"
  unfolding q99_def by code_simp

text \<open>The product with the percentile constant, within its relative error.\<close>

lemma percentile_product:
  assumes "1 \<le> n" "n < 2 ^ 53" "1 / 2 \<le> q" "q \<le> 1"
  obtains y where "fmul (float_of_int (int n)) (Fin False q) = Fin False y"
    "\<bar>y - of_nat n * q\<bar> \<le> of_nat n * q / 2 ^ 53"
proof -
  have n1: "(1 :: rat) \<le> of_nat n" using assms(1) by simp
  have n53: "of_nat n < (2 :: rat) ^ 53"
    using assms(2) of_nat_less_iff [of n "2 ^ 53", where ?'a = rat] by simp
  have fl: "float_of_int (int n) = Fin False (of_nat n)"
    using float_of_int_exact [of "int n"] assms(2) by (simp add: of_nat_less_iff [symmetric] del: of_nat_less_iff)
  have half: "1 / 2 \<le> of_nat n * q" using mult_mono [of 1 "of_nat n" "1 / 2" q] n1 assms(3) by simp
  have le: "of_nat n * q \<le> of_nat n" using mult_left_mono [of q 1 "of_nat n"] assms(4) by simp
  have rel: "\<bar>round_mag (of_nat n * q) - of_nat n * q\<bar> \<le> of_nat n * q / 2 ^ 53"
    by (rule round_mag_rel [OF half])
  have "of_nat n * q / 2 ^ 53 \<le> of_nat n * q" using half by (simp add: divide_le_eq mult_le_cancel_left1)
  then have "round_mag (of_nat n * q) \<le> 2 * 2 ^ 53" using rel le n53 by linarith
  moreover have "(2 :: rat) * 2 ^ 53 < overflow64"
    unfolding overflow64_def power_Suc [symmetric] by (intro power_strict_increasing) simp_all
  ultimately have "round_mag (of_nat n * q) < overflow64" by (rule order.strict_trans1)
  then show thesis using that rel by (simp add: fl round64_def Let_def)
qed

lemma percentile_index_val:
  assumes "fmul (float_of_int (int n)) q = Fin False y"
  shows "percentile_index q n = \<lceil>y\<rceil> - 1"
  using assms by (simp add: percentile_index_def)

text \<open>The product lies between the products with slightly smaller and slightly larger factors.\<close>

lemma percentile_product_range:
  assumes "1 \<le> n" "n < 2 ^ 53" "1 / 2 \<le> q" "q \<le> 1"
  obtains y where "percentile_index (Fin False q) n = \<lceil>y\<rceil> - 1"
    "of_nat n * (q - q / 2 ^ 53) \<le> y" "y \<le> of_nat n * (q + q / 2 ^ 53)"
proof -
  obtain y where y: "fmul (float_of_int (int n)) (Fin False q) = Fin False y"
    "\<bar>y - of_nat n * q\<bar> \<le> of_nat n * q / 2 ^ 53" using assms by (rule percentile_product)
  have "of_nat n * q - of_nat n * q / 2 ^ 53 \<le> y" "y \<le> of_nat n * q + of_nat n * q / 2 ^ 53"
    using y(2) by linarith+
  then show thesis
    using percentile_index_val [OF y(1)] that [of y] by (simp only: right_diff_distrib distrib_left times_divide_eq_right)
qed

lemma percentile_index_bounds:
  assumes "1 \<le> n" "n < 2 ^ 53" "1 / 2 \<le> q" "q + q / 2 ^ 53 \<le> 1"
  shows "0 \<le> percentile_index (Fin False q) n \<and> percentile_index (Fin False q) n < int n"
proof -
  have q1: "q \<le> 1" using assms(3,4) by (simp add: field_simps)
  obtain y where y: "percentile_index (Fin False q) n = \<lceil>y\<rceil> - 1"
    "of_nat n * (q - q / 2 ^ 53) \<le> y" "y \<le> of_nat n * (q + q / 2 ^ 53)"
    using assms(1-3) q1 by (rule percentile_product_range)
  have n0: "(0 :: rat) < of_nat n" using assms(1) by simp
  have "0 < q - q / 2 ^ 53" using assms(3) by (simp add: field_simps)
  then have "0 < of_nat n * (q - q / 2 ^ 53)" using n0 by (rule mult_pos_pos [rotated])
  then have "0 < y" using y(2) by linarith
  moreover have "y \<le> of_nat n" using y(3) mult_left_mono [OF assms(4), of "of_nat n"] by simp
  ultimately have "0 < \<lceil>y\<rceil>" "\<lceil>y\<rceil> \<le> int n"
    by (simp_all add: less_ceiling_iff ceiling_le_iff)
  then show ?thesis unfolding y(1) by linarith
qed

lemma percentile_index_mono:
  assumes "1 \<le> n" "n < 2 ^ 53" "1 / 2 \<le> q" "q' \<le> 1" "q + q / 2 ^ 53 \<le> q' - q' / 2 ^ 53" "0 \<le> q'"
  shows "percentile_index (Fin False q) n \<le> percentile_index (Fin False q') n"
proof -
  have q: "q \<le> q'" "q \<le> 1" "1 / 2 \<le> q'" using assms(3-6) by (auto simp: field_simps)
  obtain y where y: "percentile_index (Fin False q) n = \<lceil>y\<rceil> - 1" "y \<le> of_nat n * (q + q / 2 ^ 53)"
    using assms(1-3) q(2) by (rule percentile_product_range)
  obtain z where z: "percentile_index (Fin False q') n = \<lceil>z\<rceil> - 1" "of_nat n * (q' - q' / 2 ^ 53) \<le> z"
    using assms(1,2) q(3) assms(4) by (rule percentile_product_range)
  have "of_nat n * (q + q / 2 ^ 53) \<le> of_nat n * (q' - q' / 2 ^ 53)" by (intro mult_left_mono assms) simp
  then have "y \<le> z" using y(2) z(2) by linarith
  then show ?thesis unfolding y(1) z(1) using ceiling_mono [of y z] by linarith
qed

lemma percentile_index_half:
  assumes "1 \<le> n" "n < 2 ^ 53" "q \<le> 1" "1 / 2 < q - q / 2 ^ 53"
  shows "int n div 2 \<le> percentile_index (Fin False q) n"
proof -
  have q: "1 / 2 \<le> q" using assms(3,4) by (simp add: field_simps)
  obtain y where y: "percentile_index (Fin False q) n = \<lceil>y\<rceil> - 1" "of_nat n * (q - q / 2 ^ 53) \<le> y"
    using assms(1,2) q assms(3) by (rule percentile_product_range)
  have "of_nat n * (1 / 2) < of_nat n * (q - q / 2 ^ 53)"
    using assms(1,4) by (intro mult_strict_left_mono) simp_all
  then have "of_nat n / 2 < y" using y(2) by simp
  moreover have "of_int (int n div 2) \<le> (of_nat n / 2 :: rat)"
    using of_int_le_iff [of "2 * (int n div 2)" "int n", where ?'a = rat] by simp
  ultimately have "of_int (int n div 2) < y" by linarith
  then have "int n div 2 < \<lceil>y\<rceil>" by (simp add: less_ceiling_iff)
  then show ?thesis unfolding y(1) by simp
qed

lemma report_values_ok:
  assumes "os_count s \<noteq> 0" "os_durs s \<noteq> []" "length (os_durs s) < 2 ^ 53"
  obtains r i j k where "report_values s = Done (Some r)"
    "rep_p50 r = sort (os_durs s) ! i" "rep_p95 r = sort (os_durs s) ! j" "rep_p99 r = sort (os_durs s) ! k"
    "i \<le> j" "j \<le> k" "k < length (os_durs s)"
    "i = length (os_durs s) div 2" "int j = percentile_index q95 (length (os_durs s))"
    "int k = percentile_index q99 (length (os_durs s))" "rep_n r = os_count s"
proof -
  let ?n = "length (os_durs s)"
  have n: "1 \<le> ?n" using assms(2) by (cases "os_durs s") simp_all
  define j where "j = nat (percentile_index q95 ?n)"
  define k where "k = nat (percentile_index q99 ?n)"
  have b95: "0 \<le> percentile_index q95 ?n \<and> percentile_index q95 ?n < int ?n"
    unfolding q95_val by (rule percentile_index_bounds [OF n assms(3)]) simp_all
  have b99: "0 \<le> percentile_index q99 ?n \<and> percentile_index q99 ?n < int ?n"
    unfolding q99_val by (rule percentile_index_bounds [OF n assms(3)]) simp_all
  have half: "int ?n div 2 \<le> percentile_index q95 ?n"
    unfolding q95_val by (rule percentile_index_half [OF n assms(3)]) simp_all
  have mono: "percentile_index q95 ?n \<le> percentile_index q99 ?n"
    unfolding q95_val q99_val by (rule percentile_index_mono [OF n assms(3)]) simp_all
  have ij: "?n div 2 \<le> j" using half b95 by (simp add: j_def zdiv_int [symmetric] nat_le_iff le_nat_iff flip: zdiv_int)
  have "index_list (sort (os_durs s)) (int ?n div 2) = Done (sort (os_durs s) ! (?n div 2))"
    using n by (simp add: index_list_def nat_div_distrib)
  moreover have "index_list (sort (os_durs s)) (percentile_index q95 ?n) = Done (sort (os_durs s) ! j)"
    "index_list (sort (os_durs s)) (percentile_index q99 ?n) = Done (sort (os_durs s) ! k)"
    using b95 b99 by (simp_all add: index_list_def j_def k_def)
  ultimately obtain r where "report_values s = Done (Some r)" "rep_n r = os_count s"
    "rep_p50 r = sort (os_durs s) ! (?n div 2)" "rep_p95 r = sort (os_durs s) ! j" "rep_p99 r = sort (os_durs s) ! k"
    using assms(1,2) by (auto simp: report_values_def Let_def)
  then show thesis
    using that [of r "?n div 2" j k] ij mono b95 b99 by (simp add: j_def k_def nat_mono nat_less_iff)
qed

text \<open>The five statistics after the consumer has taken \<open>k\<close> results.\<close>

definition load_stats_ok :: "nat \<Rightarrow> load_stats \<Rightarrow> bool" where
  "load_stats_ok k st \<longleftrightarrow>
     (\<forall>s \<in> {ls_total st, ls_createUser st, ls_getUser st, ls_createOrder st, ls_getOrder st}.
        stats_ok s \<and> length (os_durs s) \<le> k)"

lemma consume_one_ok:
  assumes "load_stats_ok k st" "int k < 2 ^ 63 - 1"
  shows "load_stats_ok (Suc k) (consume_one st r)"
proof -
  have "stats_ok (opStats_add d err s) \<and> length (os_durs (opStats_add d err s)) \<le> Suc k"
    if "stats_ok s \<and> length (os_durs s) \<le> k" for s d err
    using opStats_add_ok [of s d err] that assms(2) by simp
  then show ?thesis using assms(1) by (simp add: load_stats_ok_def consume_one_def Let_def le_SucI)
qed

lemma consume_ok:
  assumes "length rs < 2 ^ 53"
  shows "load_stats_ok (length rs) (consume load_stats_new rs) \<and>
    os_durs (ls_total (consume load_stats_new rs)) = map result_duration rs"
  using assms
proof (induction rs rule: rev_induct)
  case Nil
  show ?case by (simp add: consume_def load_stats_ok_def load_stats_new_def opStats_new_def stats_ok_def)
next
  case (snoc r rs)
  then have "load_stats_ok (Suc (length rs)) (consume_one (consume load_stats_new rs) r)"
    by (intro consume_one_ok) simp_all
  then show ?case using snoc
    by (simp add: consume_def consume_one_def Let_def opStats_add_def add_count_def add_err_def add_dur_def)
qed

lemma report_no_panic:
  assumes "stats_ok s" "length (os_durs s) < 2 ^ 53"
  shows "\<exists>line. opStats_report label s = Done line"
proof (cases "os_durs s = []")
  case True
  then show ?thesis using assms(1) by (simp add: opStats_report_def report_values_def stats_ok_def)
next
  case False
  then have "os_count s \<noteq> 0" using assms(1) by (simp add: stats_ok_def)
  then obtain r where "report_values s = Done (Some r)"
    using False assms(2) by (rule report_values_ok)
  then show ?thesis by (simp add: opStats_report_def)
qed

lemma load_reports_no_panic:
  assumes "load_stats_ok k st" "k < 2 ^ 53"
  shows "\<exists>out. load_reports st = Done out"
proof -
  have "\<exists>line. opStats_report label s = Done line"
    if "s \<in> {ls_total st, ls_createUser st, ls_getUser st, ls_createOrder st, ls_getOrder st}" for label s
    using that assms by (intro report_no_panic) (auto simp: load_stats_ok_def)
  then have "\<exists>line. opStats_report label (ls_total st) = Done line"
    "\<exists>line. opStats_report label (ls_createUser st) = Done line"
    "\<exists>line. opStats_report label (ls_getUser st) = Done line"
    "\<exists>line. opStats_report label (ls_createOrder st) = Done line"
    "\<exists>line. opStats_report label (ls_getOrder st) = Done line" for label
    by blast+
  then obtain a b c d e where "opStats_report ''TOTAL'' (ls_total st) = Done a"
    "opStats_report ''CreateUser'' (ls_createUser st) = Done b"
    "opStats_report ''GetUser'' (ls_getUser st) = Done c"
    "opStats_report ''CreateOrder'' (ls_createOrder st) = Done d"
    "opStats_report ''GetOrder'' (ls_getOrder st) = Done e"
    by metis
  then show ?thesis by (simp add: load_reports_def)
qed

section \<open>The loop of a virtual user ends\<close>

lemma call_replied: "map_option (apfst isl) x = Some (e, v) \<Longrightarrow> \<exists>r. x = Some (r, v)"
  by (cases x) auto

text \<open>
  Reading the clock takes time and nothing turns it back: then a round moves it on, and the loop
  ends once the test duration has passed, if every call is answered.
\<close>

locale load_clock =
  fixes env :: "'w load_env" and clock :: "'w \<Rightarrow> time"
  assumes now: "fst (le_now env w) = clock w" "clock w < clock (snd (le_now env w))"
    and CreateUser_clock: "le_CreateUser env c q1 w = Some (r1, w') \<Longrightarrow> clock w \<le> clock w'"
    and GetUser_clock: "le_GetUser env c q2 w = Some (r2, w') \<Longrightarrow> clock w \<le> clock w'"
    and CreateOrder_clock: "le_CreateOrder env c q3 w = Some (r3, w') \<Longrightarrow> clock w \<le> clock w'"
    and GetOrder_clock: "le_GetOrder env c q4 w = Some (r4, w') \<Longrightarrow> clock w \<le> clock w'"
    and Float64_clock: "clock w \<le> clock (snd (le_Float64 env w))"
    and Intn_clock: "clock w \<le> clock (snd (le_Intn env n w))"
begin

lemma randomOp_clock: "clock w \<le> clock (snd (randomOp env wr w))"
  using Float64_clock [of w] Float64_clock [of "snd (le_Float64 env w)"]
  by (simp add: randomOp_def case_prod_unfold)

lemma worker_call_clock:
  assumes "worker_call env us os vu op w = Some (err, w')"
  shows "clock w \<le> clock w'"
proof -
  have now': "clock v \<le> clock (snd (le_now env v))" for v using now(2) [of v] by simp
  let ?i = "\<lambda>n v. snd (le_Intn env n v)"
  consider (user) "op = ''CreateUser''" | (get) "op = ''GetUser''" | (order) "op = ''CreateOrder''"
    | (read) "op = ''GetOrder''" "os \<noteq> []" | (none) "worker_call env us os vu op w = Some (False, w)"
    by (cases "op \<in> {''CreateUser'', ''GetUser'', ''CreateOrder'', ''GetOrder''}"; cases "os = []")
      (auto simp: worker_call_def)
  then show ?thesis
  proof cases
    case user
    then obtain q r where "le_CreateUser env Background q (snd (le_now env w)) = Some (r, w')"
      using call_replied assms unfolding worker_call_def case_prod_unfold by (metis (no_types))
    from order_trans [OF now' CreateUser_clock [OF this]] show ?thesis .
  next
    case get
    then obtain q r where "le_GetUser env Background q (?i (length us) w) = Some (r, w')"
      using call_replied assms by (fastforce simp: worker_call_def case_prod_unfold)
    from order_trans [OF Intn_clock GetUser_clock [OF this]] show ?thesis .
  next
    case order
    then obtain q r where "le_CreateOrder env Background q (?i 5 (?i (length us) w)) = Some (r, w')"
      using call_replied assms by (fastforce simp: worker_call_def case_prod_unfold)
    from order_trans [OF Intn_clock order_trans [OF Intn_clock CreateOrder_clock [OF this]]] show ?thesis .
  next
    case read
    then obtain q r where "le_GetOrder env Background q (?i (length os) w) = Some (r, w')"
      using call_replied assms by (fastforce simp: worker_call_def case_prod_unfold)
    from order_trans [OF Intn_clock GetOrder_clock [OF this]] show ?thesis .
  qed (use assms in simp)
qed

lemma worker_round_clock:
  assumes "worker_round env wr us os vu w = Some (r, w')"
  shows "clock w < clock w'"
proof -
  let ?w1 = "snd (randomOp env wr w)"
  let ?w2 = "snd (le_now env ?w1)"
  obtain err w3 where call: "worker_call env us os vu (fst (randomOp env wr w)) ?w2 = Some (err, w3)"
    and w': "w' = snd (le_now env w3)"
    using assms by (auto simp: worker_round_def case_prod_unfold split: option.splits)
  have "clock w \<le> clock ?w1" by (rule randomOp_clock)
  also have "\<dots> < clock ?w2" by (rule now)
  also have "\<dots> \<le> clock w3" using call by (rule worker_call_clock)
  also have "\<dots> < clock w'" unfolding w' by (rule now)
  finally show ?thesis .
qed

end

text \<open>Servers that answer every call.\<close>

locale answered_load = load_clock env clock for env :: "'w load_env" and clock :: "'w \<Rightarrow> time" +
  assumes answered: "le_CreateUser env c q1 w \<noteq> None" "le_GetUser env c q2 w \<noteq> None"
    "le_CreateOrder env c q3 w \<noteq> None" "le_GetOrder env c q4 w \<noteq> None"
begin

lemma worker_call_answered: "\<exists>err w'. worker_call env us os vu op w = Some (err, w')"
proof -
  have "worker_call env us os vu op w \<noteq> None" by (simp add: worker_call_def case_prod_unfold answered del: not_None_eq)
  then show ?thesis by auto
qed

lemma worker_round_answered: "\<exists>r w'. worker_round env wr us os vu w = Some (r, w')"
  using worker_call_answered [of us os vu "fst (randomOp env wr w)" "snd (le_now env (snd (randomOp env wr w)))"]
  by (auto simp: worker_round_def case_prod_unfold)

lemma worker_loop_ends:
  "\<exists>rs w'. worker_loop env wr us os dur start vu w = Some (rs, w') \<and>
     int (length rs) \<le> max 0 (dur - (clock w - start))"
proof (induction "nat (dur - (clock w - start))" arbitrary: w rule: less_induct)
  case less
  obtain t w1 where t: "le_now env w = (t, w1)" by fastforce
  then have t1: "t = clock w" "clock w < clock w1" using now [of w] by simp_all
  show ?case
  proof (cases "dur \<le> t - start")
    case True
    then show ?thesis by (subst worker_loop.simps) (simp add: t)
  next
    case False
    obtain r w2 where r: "worker_round env wr us os vu w1 = Some (r, w2)" using worker_round_answered by blast
    then have t2: "clock w1 < clock w2" by (rule worker_round_clock)
    have "nat (dur - (clock w2 - start)) < nat (dur - (clock w - start))" using False t1 t2 by simp
    then obtain rs w' where "worker_loop env wr us os dur start vu w2 = Some (rs, w')"
      "int (length rs) \<le> max 0 (dur - (clock w2 - start))" using less by blast
    then have "worker_loop env wr us os dur start vu w = Some (r # rs, w') \<and>
        int (length (r # rs)) \<le> max 0 (dur - (clock w - start))"
      using False t1 t2 by (subst worker_loop.simps) (simp add: t r)
    then show ?thesis by blast
  qed
qed

end

end
