(* ===== verification/LoadRun.thy ===== *)
theory LoadRun
  imports Loadtest
begin

text \<open>
  \<open>main\<close> of \<open>src/scripts/loadtest/main.go\<close> while the test runs: one goroutine for every virtual user,
  the bounded channel of results, the goroutine that consumes it, and \<open>main\<close> itself, which waits for
  the virtual users only and then reports. A schedule says whose turn it is; a goroutine that is
  blocked cannot take it.
\<close>

section \<open>What is printed around the reports\<close>

text \<open>\<open>time.Duration.String\<close>.\<close>

definition fmtFrac :: "nat \<Rightarrow> nat \<Rightarrow> string" where
  "fmtFrac v prec =
     (let ds = dec_nat (v mod 10 ^ prec);
          frac = rev (dropWhile (\<lambda>c. c = CHR ''0'') (rev (replicate (prec - length ds) (CHR ''0'') @ ds)))
      in if prec = 0 \<or> frac = '''' then '''' else ''.'' @ frac)"

definition duration_String :: "duration \<Rightarrow> string" where
  "duration_String d =
     (let u = nat \<bar>d\<bar>; unit = (\<lambda>prec. dec_nat (u div 10 ^ prec) @ fmtFrac u prec) in
      (if d < 0 then ''-'' else '''') @
      (if u = 0 then ''0s''
       else if u < 1000 then unit 0 @ ''ns''
       else if u < 1000000 then unit 3 @ [CHR 0xC2, CHR 0xB5, CHR ''s'']
       else if u < 1000000000 then unit 6 @ ''ms''
       else
         let s = u div 10 ^ 9; m = s div 60; h = m div 60 in
         (if 0 < h then dec_nat h @ ''h'' else '''') @
         (if 0 < m then dec_nat (m mod 60) @ ''m'' else '''') @
         dec_nat (s mod 60) @ fmtFrac u 9 @ ''s''))"

abbreviation nl :: string where "nl \<equiv> [CHR 0x0A]"

definition load_setup_users_text :: "nat \<Rightarrow> string" where
  "load_setup_users_text n = ''=== Pre-creating test users ==='' @ nl @ ''Created '' @ dec_nat n @ '' test users'' @ nl"

definition load_setup_orders_text :: "nat \<Rightarrow> string" where
  "load_setup_orders_text n =
     ''=== Pre-creating test orders ==='' @ nl @ ''Created '' @ dec_nat n @ '' test orders'' @ nl @ nl"

definition load_banner :: "load_flags \<Rightarrow> duration \<Rightarrow> string" where
  "load_banner flags elapsed =
     ''=== Load Test Results ==='' @ nl @
     ''Duration:      '' @ duration_String elapsed @ nl @
     ''Concurrency:   '' @ dec_int (lf_vus flags) @ '' VUs'' @ nl @
     ''Write ratio:   '' @ fmt_f 0 (fmul (lf_writeRatio flags) (Fin False 100)) @ ''%'' @ nl @ nl @
     ''  '' @ pad_right 14 ''Operation'' @ '' | '' @ pad_left 6 ''count'' @ '' | '' @ pad_left 7 ''rps'' @
     '' | '' @ pad_left 7 ''avg'' @ '' | '' @ pad_left 7 ''p50'' @ '' | '' @ pad_left 7 ''p95'' @
     '' | '' @ pad_left 7 ''p99'' @ '' | '' @ pad_left 6 ''err%'' @ nl @
     ''  '' @ replicate 95 (CHR ''-'') @ nl"

section \<open>The consumer, one atomic step at a time\<close>

datatype stat_sel = STotal | SCreateUser | SGetUser | SCreateOrder | SGetOrder

fun stat_get :: "stat_sel \<Rightarrow> load_stats \<Rightarrow> opStats" where
  "stat_get STotal st = ls_total st"
| "stat_get SCreateUser st = ls_createUser st"
| "stat_get SGetUser st = ls_getUser st"
| "stat_get SCreateOrder st = ls_createOrder st"
| "stat_get SGetOrder st = ls_getOrder st"

fun stat_map :: "(opStats \<Rightarrow> opStats) \<Rightarrow> stat_sel \<Rightarrow> load_stats \<Rightarrow> load_stats" where
  "stat_map f STotal st = st\<lparr>ls_total := f (ls_total st)\<rparr>"
| "stat_map f SCreateUser st = st\<lparr>ls_createUser := f (ls_createUser st)\<rparr>"
| "stat_map f SGetUser st = st\<lparr>ls_getUser := f (ls_getUser st)\<rparr>"
| "stat_map f SCreateOrder st = st\<lparr>ls_createOrder := f (ls_createOrder st)\<rparr>"
| "stat_map f SGetOrder st = st\<lparr>ls_getOrder := f (ls_getOrder st)\<rparr>"

datatype add_step = AddCount stat_sel | AddErr stat_sel bool | AddDur stat_sel duration

fun add_do :: "load_stats \<Rightarrow> add_step \<Rightarrow> load_stats" where
  "add_do st (AddCount x) = stat_map add_count x st"
| "add_do st (AddErr x err) = stat_map (add_err err) x st"
| "add_do st (AddDur x d) = stat_map (add_dur d) x st"

definition add_steps :: "load_result \<Rightarrow> stat_sel \<Rightarrow> add_step list" where
  "add_steps r x = [AddCount x, AddErr x (result_err r), AddDur x (result_duration r)]"

definition consume_steps :: "load_result \<Rightarrow> add_step list" where
  "consume_steps r = add_steps r STotal @
     (if result_op r = ''CreateUser'' then add_steps r SCreateUser
      else if result_op r = ''GetUser'' then add_steps r SGetUser
      else if result_op r = ''CreateOrder'' then add_steps r SCreateOrder
      else if result_op r = ''GetOrder'' then add_steps r SGetOrder
      else [])"

lemma consume_steps: "foldl add_do st (consume_steps r) = consume_one st r"
  by (simp add: consume_steps_def add_steps_def consume_one_def opStats_add_def Let_def)

section \<open>The goroutines\<close>

datatype vu_pc = VuTop | VuOp | VuCall string time | VuSend load_result | VuDone

text \<open>\<open>main\<close> reads the count, the list and the error count of a report one after the other.\<close>

type_synonym reports = "(string \<times> stat_sel) list"

datatype main_pc = MainWait | MainReport reports string | MainDurs reports string int
  | MainErrs reports string int "duration list" | MainSummary string | MainExit string | MainPanic

record 'w load_state =
  ll_w :: 'w
  ll_vus :: "vu_pc list"
  ll_chan :: "load_result list"
  ll_closed :: bool
  ll_pend :: "add_step list"
  ll_stats :: load_stats
  ll_main :: main_pc

definition load_ended :: "'w load_state \<Rightarrow> bool" where
  "load_ended s \<longleftrightarrow> (case ll_main s of MainExit _ \<Rightarrow> True | MainPanic \<Rightarrow> True | _ \<Rightarrow> False)"

text \<open>The test data and settings that all goroutines share; \<open>ld_start\<close> is the start of the test.\<close>

record load_data =
  ld_flags :: load_flags
  ld_userIDs :: "string list"
  ld_orderIDs :: "string list"
  ld_start :: time

definition chan_cap :: "load_flags \<Rightarrow> int" where
  "chan_cap flags = wrap64 (lf_vus flags * 100)"

text \<open>
  A virtual user waits for the reply to its call for as long as the server gives none, which may be
  for ever; the reply can come when the others have moved the world on.
\<close>

fun vu_step ::
  "'w load_env \<Rightarrow> load_data \<Rightarrow> nat \<Rightarrow> vu_pc \<Rightarrow> 'w load_state \<Rightarrow> (vu_pc \<times> 'w load_state) option" where
  "vu_step env ld k VuTop s =
     (case le_now env (ll_w s) of (t, w1) \<Rightarrow>
        Some (if lf_duration (ld_flags ld) \<le> t - ld_start ld then VuDone else VuOp, s\<lparr>ll_w := w1\<rparr>))"
| "vu_step env ld k VuOp s =
     (case randomOp env (lf_writeRatio (ld_flags ld)) (ll_w s) of (op, w1) \<Rightarrow>
      (case le_now env w1 of (opStart, w2) \<Rightarrow> Some (VuCall op opStart, s\<lparr>ll_w := w2\<rparr>)))"
| "vu_step env ld k (VuCall op opStart) s =
     (case worker_call env (ld_userIDs ld) (ld_orderIDs ld) (int k) op (ll_w s) of
        None \<Rightarrow> None
      | Some (err, w1) \<Rightarrow>
          (case le_now env w1 of (t, w2) \<Rightarrow> Some (VuSend \<lparr>result_duration = t - opStart, result_err = err, result_op = op\<rparr>, s\<lparr>ll_w := w2\<rparr>)))"
| "vu_step env ld k (VuSend r) s =
     (if int (length (ll_chan s)) < chan_cap (ld_flags ld)
      then Some (VuTop, s\<lparr>ll_chan := ll_chan s @ [r]\<rparr>) else None)"
| "vu_step env ld k VuDone s = None"

fun consumer_step :: "'w load_state \<Rightarrow> 'w load_state option" where
  "consumer_step s =
     (case ll_pend s of
        a # pend \<Rightarrow> Some (s\<lparr>ll_stats := add_do (ll_stats s) a, ll_pend := pend\<rparr>)
      | [] \<Rightarrow>
          (case ll_chan s of
             r # rs \<Rightarrow> Some (s\<lparr>ll_chan := rs, ll_pend := consume_steps r\<rparr>)
           | [] \<Rightarrow> None))"

definition load_labels :: reports where
  "load_labels = [(''TOTAL'', STotal), (''CreateUser'', SCreateUser), (''GetUser'', SGetUser),
                  (''CreateOrder'', SCreateOrder), (''GetOrder'', SGetOrder)]"

fun main_step :: "'w load_env \<Rightarrow> load_data \<Rightarrow> main_pc \<Rightarrow> 'w load_state \<Rightarrow> 'w load_state option" where
  "main_step env ld MainWait s =
     (if list_all (\<lambda>pc. pc = VuDone) (ll_vus s)
      then case le_now env (ll_w s) of (t, w1) \<Rightarrow>
        Some (s\<lparr>ll_w := w1, ll_closed := True,
                ll_main := MainReport load_labels (load_banner (ld_flags ld) (t - ld_start ld))\<rparr>)
      else None)"
| "main_step env ld (MainReport [] out) s = Some (s\<lparr>ll_main := MainSummary out\<rparr>)"
| "main_step env ld (MainReport (l # ls) out) s =
     (let n = os_count (stat_get (snd l) (ll_stats s))
      in Some (s\<lparr>ll_main := if n = 0 then MainReport ls out else MainDurs (l # ls) out n\<rparr>))"
| "main_step env ld (MainDurs [] out n) s = None"
| "main_step env ld (MainDurs (l # ls) out n) s =
     Some (s\<lparr>ll_main := MainErrs (l # ls) out n (os_durs (stat_get (snd l) (ll_stats s)))\<rparr>)"
| "main_step env ld (MainErrs [] out n durs) s = None"
| "main_step env ld (MainErrs (l # ls) out n durs) s =
     Some (s\<lparr>ll_main :=
       case opStats_report (fst l)
              \<lparr>os_count = n, os_errCount = os_errCount (stat_get (snd l) (ll_stats s)), os_durs = durs\<rparr> of
         Panicked \<Rightarrow> MainPanic
       | Done line \<Rightarrow> MainReport ls (out @ line)\<rparr>)"
| "main_step env ld (MainSummary out) s = Some (s\<lparr>ll_main := MainExit (out @ load_summary (ll_stats s))\<rparr>)"
| "main_step env ld (MainExit out) s = None"
| "main_step env ld MainPanic s = None"

text \<open>Whose turn it is. When \<open>main\<close> has ended, so has the process.\<close>

datatype actor = VU nat | Consumer | Main

fun load_move :: "'w load_env \<Rightarrow> load_data \<Rightarrow> actor \<Rightarrow> 'w load_state \<Rightarrow> 'w load_state option" where
  "load_move env ld (VU k) s =
     (if load_ended s \<or> length (ll_vus s) \<le> k then None
      else map_option (\<lambda>(pc, s'). s'\<lparr>ll_vus := (ll_vus s)[k := pc]\<rparr>) (vu_step env ld k (ll_vus s ! k) s))"
| "load_move env ld Consumer s = (if load_ended s then None else consumer_step s)"
| "load_move env ld Main s = main_step env ld (ll_main s) s"

text \<open>What a move puts on the channel.\<close>

fun sends :: "actor \<Rightarrow> 'w load_state \<Rightarrow> load_result list" where
  "sends (VU k) s = (case ll_vus s ! k of VuSend r \<Rightarrow> [r] | _ \<Rightarrow> [])"
| "sends a s = []"

fun load_run ::
  "'w load_env \<Rightarrow> load_data \<Rightarrow> actor list \<Rightarrow> 'w load_state \<Rightarrow> (load_result list \<times> 'w load_state) option" where
  "load_run env ld [] s = Some ([], s)"
| "load_run env ld (a # as) s =
     (case load_move env ld a s of
        None \<Rightarrow> None
      | Some s' \<Rightarrow> map_option (apfst (append (sends a s))) (load_run env ld as s'))"

text \<open>The state when all goroutines have been started.\<close>

definition load_init :: "nat \<Rightarrow> 'w \<Rightarrow> 'w load_state" where
  "load_init n w =
     \<lparr>ll_w = w, ll_vus = replicate n VuTop, ll_chan = [], ll_closed = False, ll_pend = [],
      ll_stats = load_stats_new, ll_main = MainWait\<rparr>"

text \<open>
  \<open>main\<close> up to there: connections, test data, what it has printed, the channel and the goroutines.
  \<open>make\<close> panics for a negative size.
\<close>

definition load_begin ::
  "os_env \<Rightarrow> x509 \<Rightarrow> 'w grpc_dialer \<Rightarrow> 'w load_env \<Rightarrow> load_flags \<Rightarrow> 'w \<Rightarrow>
   ((string + string \<times> load_data \<times> 'w load_state) outcome \<times> 'w) option" where
  "load_begin os x g env flags w =
     (case load_connect os x g flags w of
        (Inl msg, w1) \<Rightarrow> Some (Done (Inl msg), w1)
      | (Inr conns, w1) \<Rightarrow>
          (case load_setup env flags w1 of
             None \<Rightarrow> None
           | Some (Panicked, w2) \<Rightarrow> Some (Panicked, w2)
           | Some (Done (Inl msg), w2) \<Rightarrow> Some (Done (Inl msg), w2)
           | Some (Done (Inr (userIDs, orderIDs)), w2) \<Rightarrow>
               (case le_now env w2 of (start, w3) \<Rightarrow>
                  if chan_cap flags < 0 then Some (Panicked, w3)
                  else Some (Done (Inr
                          (load_setup_users_text (length userIDs) @ load_setup_orders_text (length orderIDs),
                           \<lparr>ld_flags = flags, ld_userIDs = userIDs, ld_orderIDs = orderIDs, ld_start = start\<rparr>,
                           load_init (nat (lf_vus flags)) w3)), w3))))"

section \<open>A round of a virtual user\<close>

lemma vu_round:
  assumes "worker_round env (lf_writeRatio (ld_flags ld)) (ld_userIDs ld) (ld_orderIDs ld) (int k) (ll_w s) = Some (r, w')"
  shows "\<exists>pc s1. vu_step env ld k VuOp s = Some (pc, s1) \<and> vu_step env ld k pc s1 = Some (VuSend r, s\<lparr>ll_w := w'\<rparr>)"
  using assms by (auto simp: worker_round_def split: prod.splits option.splits)

section \<open>No result is lost\<close>

definition load_conserves :: "load_flags \<Rightarrow> load_result list \<Rightarrow> 'w load_state \<Rightarrow> bool" where
  "load_conserves flags sent s \<longleftrightarrow> int (length (ll_chan s)) \<le> max 0 (chan_cap flags) \<and>
     (\<exists>taken. sent = taken @ ll_chan s \<and> foldl add_do (ll_stats s) (ll_pend s) = consume load_stats_new taken)"

lemma load_conserves_init: "load_conserves flags [] (load_init n w)"
  by (simp add: load_conserves_def load_init_def consume_def)

lemma vu_step_keeps:
  assumes "vu_step env ld k pc s = Some (pc', s')"
  shows "ll_chan s' = ll_chan s @ (case pc of VuSend r \<Rightarrow> [r] | _ \<Rightarrow> []) \<and> ll_stats s' = ll_stats s \<and>
    ll_pend s' = ll_pend s \<and> ll_main s' = ll_main s \<and> ll_vus s' = ll_vus s \<and>
    ((\<exists>r. pc = VuSend r) \<longrightarrow> int (length (ll_chan s)) < chan_cap (ld_flags ld))"
  using assms by (cases pc) (auto split: prod.splits if_splits option.splits)

lemma main_step_keeps:
  assumes "main_step env ld pc s = Some s'"
  shows "ll_chan s' = ll_chan s \<and> ll_stats s' = ll_stats s \<and> ll_pend s' = ll_pend s \<and> ll_vus s' = ll_vus s"
  using assms by (cases "(env, ld, pc, s)" rule: main_step.cases) (auto simp: Let_def split: prod.splits if_splits)

lemma load_move_conserves:
  assumes "load_move env ld a s = Some s'" "load_conserves (ld_flags ld) sent s"
  shows "load_conserves (ld_flags ld) (sent @ sends a s) s'"
proof (cases a)
  case (VU k)
  then obtain pc s1 where v: "vu_step env ld k (ll_vus s ! k) s = Some (pc, s1)"
    "s' = s1\<lparr>ll_vus := (ll_vus s)[k := pc]\<rparr>"
    using assms(1) by (auto split: if_splits)
  from vu_step_keeps [OF v(1)] assms(2) show ?thesis
    by (cases "ll_vus s ! k") (auto simp: load_conserves_def VU v(2))
next
  case Consumer
  with assms show ?thesis
    by (auto simp: load_conserves_def consume_steps consume_def split: if_splits list.splits)
next
  case Main
  with assms main_step_keeps [of env ld "ll_main s" s s'] show ?thesis by (simp add: load_conserves_def)
qed

lemma load_run_conserves:
  "load_run env ld as s = Some (sent', s') \<Longrightarrow> load_conserves (ld_flags ld) sent s \<Longrightarrow>
   load_conserves (ld_flags ld) (sent @ sent') s'"
proof (induction as arbitrary: s sent sent')
  case (Cons a as)
  obtain s1 sent1 where "load_move env ld a s = Some s1" "load_run env ld as s1 = Some (sent1, s')" "sent' = sends a s @ sent1"
    using Cons.prems(1) by (auto split: option.splits)
  with Cons.IH load_move_conserves [OF _ Cons.prems(2)] show ?case by (metis append.assoc)
qed simp

section \<open>Every test ends\<close>

text \<open>
  Each round of a virtual user begins before the end of the test and moves the clock; what it can
  still cause, down to the last step of the consumer, is worth less than the nanosecond it takes.
\<close>

fun vu_weight :: "vu_pc \<Rightarrow> nat" where
  "vu_weight VuTop = 1"
| "vu_weight VuOp = 12"
| "vu_weight (VuCall op t) = 11"
| "vu_weight (VuSend r) = 10"
| "vu_weight VuDone = 0"

fun main_weight :: "main_pc \<Rightarrow> nat" where
  "main_weight MainWait = 18"
| "main_weight (MainReport ls out) = 3 * length ls + 2"
| "main_weight (MainDurs ls out n) = 3 * length ls + 1"
| "main_weight (MainErrs ls out n durs) = 3 * length ls"
| "main_weight (MainSummary out) = 1"
| "main_weight (MainExit out) = 0"
| "main_weight MainPanic = 0"

lemma consume_steps_length: "length (consume_steps r) \<le> 6"
  by (simp add: consume_steps_def add_steps_def)

lemma consumer_step_weight:
  assumes "consumer_step s = Some s'"
  shows "8 * length (ll_chan s') + length (ll_pend s') < 8 * length (ll_chan s) + length (ll_pend s) \<and>
    ll_w s' = ll_w s \<and> ll_vus s' = ll_vus s \<and> ll_main s' = ll_main s"
proof (cases "ll_pend s")
  case Nil
  then obtain r rs where c: "ll_chan s = r # rs" using assms by (auto split: list.splits)
  have "length (consume_steps r) < 8" using consume_steps_length [of r] by simp
  with assms Nil c show ?thesis by auto
qed (use assms in auto)

context load_clock
begin

definition time_left :: "load_data \<Rightarrow> 'w \<Rightarrow> nat" where
  "time_left ld w = nat (ld_start ld + lf_duration (ld_flags ld) - clock w)"

definition load_measure :: "load_data \<Rightarrow> 'w load_state \<Rightarrow> nat" where
  "load_measure ld s = 12 * time_left ld (ll_w s) + sum_list (map vu_weight (ll_vus s)) +
     8 * length (ll_chan s) + length (ll_pend s) + main_weight (ll_main s)"

lemma time_left_mono: "clock w \<le> clock w' \<Longrightarrow> time_left ld w' \<le> time_left ld w"
  by (simp add: time_left_def)

lemma now_clock: "clock w \<le> clock (snd (le_now env w))"
  using now(2) [of w] by simp

lemma vu_step_clock:
  assumes "vu_step env ld k pc s = Some (pc', s')"
  shows "clock (ll_w s) \<le> clock (ll_w s')"
proof (cases pc)
  case VuTop
  with assms now_clock [of "ll_w s"] show ?thesis by (auto split: prod.splits)
next
  case VuOp
  with assms randomOp_clock [of "ll_w s" "lf_writeRatio (ld_flags ld)"]
    now_clock [of "snd (randomOp env (lf_writeRatio (ld_flags ld)) (ll_w s))"]
  show ?thesis by (auto split: prod.splits)
next
  case (VuCall op t)
  with assms obtain err w1 where
    call: "worker_call env (ld_userIDs ld) (ld_orderIDs ld) (int k) op (ll_w s) = Some (err, w1)"
    and "ll_w s' = snd (le_now env w1)"
    by (auto split: prod.splits option.splits)
  with worker_call_clock [OF call] now_clock [of w1] show ?thesis by simp
qed (use assms in \<open>auto split: if_splits\<close>)

lemma vu_step_weight:
  assumes "vu_step env ld k pc s = Some (pc', s')"
  shows "12 * time_left ld (ll_w s') + vu_weight pc' + 8 * length (ll_chan s') <
    12 * time_left ld (ll_w s) + vu_weight pc + 8 * length (ll_chan s)"
proof -
  note le = time_left_mono [OF vu_step_clock [OF assms], of ld]
  show ?thesis
  proof (cases "pc = VuTop \<and> pc' = VuOp")
    case True
    then have "clock (ll_w s) < ld_start ld + lf_duration (ld_flags ld)" "clock (ll_w s) < clock (ll_w s')"
      using assms now [of "ll_w s"] by (auto split: prod.splits if_splits)
    then have "time_left ld (ll_w s') < time_left ld (ll_w s)" by (simp add: time_left_def)
    moreover have "ll_chan s' = ll_chan s" using vu_step_keeps [OF assms] True by simp
    ultimately show ?thesis using True by simp
  next
    case False
    then have "vu_weight pc' + 8 * length (ll_chan s') < vu_weight pc + 8 * length (ll_chan s)"
      using assms by (cases pc) (auto split: prod.splits if_splits option.splits)
    with le show ?thesis by simp
  qed
qed

lemma main_step_weight:
  assumes "main_step env ld pc s = Some s'" "ll_main s = pc"
  shows "main_weight (ll_main s') < main_weight pc \<and> clock (ll_w s) \<le> clock (ll_w s')"
proof (cases pc)
  case MainWait
  with assms(1) now_clock [of "ll_w s"] show ?thesis by (auto simp: load_labels_def split: prod.splits if_splits)
next
  case (MainReport ls out)
  with assms show ?thesis by (cases ls) (auto simp: Let_def)
next
  case (MainDurs ls out n)
  with assms show ?thesis by (cases ls) auto
next
  case (MainErrs ls out n durs)
  with assms show ?thesis by (cases ls) (auto split: outcome.splits)
qed (use assms in auto)

lemma load_move_measure:
  assumes "load_move env ld a s = Some s'"
  shows "load_measure ld s' < load_measure ld s"
proof (cases a)
  case (VU k)
  then obtain pc s1 where k: "k < length (ll_vus s)" and v: "vu_step env ld k (ll_vus s ! k) s = Some (pc, s1)"
    and s': "s' = s1\<lparr>ll_vus := (ll_vus s)[k := pc]\<rparr>"
    using assms by (auto split: if_splits)
  have "vu_weight (ll_vus s ! k) \<le> sum_list (map vu_weight (ll_vus s))"
    using k member_le_sum_list [of "vu_weight (ll_vus s ! k)" "map vu_weight (ll_vus s)"] by simp
  then have "sum_list (map vu_weight ((ll_vus s)[k := pc])) + vu_weight (ll_vus s ! k) =
      sum_list (map vu_weight (ll_vus s)) + vu_weight pc"
    using k by (simp add: map_update sum_list_update)
  with vu_step_weight [OF v] vu_step_keeps [OF v] show ?thesis by (simp add: load_measure_def s')
next
  case Consumer
  with assms consumer_step_weight [of s s'] show ?thesis by (auto simp: load_measure_def split: if_splits)
next
  case Main
  then have m: "main_step env ld (ll_main s) s = Some s'" using assms by simp
  from main_step_weight [OF m refl] main_step_keeps [OF m] time_left_mono [of "ll_w s" "ll_w s'" ld]
  show ?thesis by (simp add: load_measure_def)
qed

lemma load_run_length: "load_run env ld as s = Some (sent, s') \<Longrightarrow> length as + load_measure ld s' \<le> load_measure ld s"
proof (induction as arbitrary: s sent)
  case (Cons a as)
  obtain s1 sent1 where "load_move env ld a s = Some s1" "load_run env ld as s1 = Some (sent1, s')"
    using Cons.prems(1) by (auto split: option.splits)
  with Cons.IH load_move_measure show ?case by fastforce
qed simp

end

text \<open>
  A call that is not answered now. Nobody waits for anything else for ever: the run can only stop where
  \<open>main\<close> has ended or such a call is open.
\<close>

definition vu_unanswered :: "'w load_env \<Rightarrow> load_data \<Rightarrow> nat \<Rightarrow> 'w load_state \<Rightarrow> bool" where
  "vu_unanswered env ld k s \<longleftrightarrow> k < length (ll_vus s) \<and>
     (case ll_vus s ! k of
        VuCall op t \<Rightarrow> worker_call env (ld_userIDs ld) (ld_orderIDs ld) (int k) op (ll_w s) = None
      | _ \<Rightarrow> False)"

definition load_main_ok :: "main_pc \<Rightarrow> bool" where
  "load_main_ok pc \<longleftrightarrow> (case pc of MainDurs ls _ _ \<Rightarrow> ls \<noteq> [] | MainErrs ls _ _ _ \<Rightarrow> ls \<noteq> [] | _ \<Rightarrow> True)"

lemma load_move_main_ok:
  assumes "load_move env ld a s = Some s'" "load_main_ok (ll_main s)"
  shows "load_main_ok (ll_main s')"
proof (cases a)
  case (VU k)
  then obtain pc s1 where "vu_step env ld k (ll_vus s ! k) s = Some (pc, s1)" "s' = s1\<lparr>ll_vus := (ll_vus s)[k := pc]\<rparr>"
    using assms(1) by (auto split: if_splits)
  with assms(2) vu_step_keeps show ?thesis by fastforce
next
  case Consumer
  with assms consumer_step_weight [of s s'] show ?thesis by (auto split: if_splits)
next
  case Main
  with assms show ?thesis
    by (cases "(env, ld, ll_main s, s)" rule: main_step.cases)
      (auto simp: load_main_ok_def Let_def split: prod.splits if_splits outcome.splits)
qed

lemma load_run_main_ok: "load_run env ld as s = Some (sent, s') \<Longrightarrow> load_main_ok (ll_main s) \<Longrightarrow> load_main_ok (ll_main s')"
proof (induction as arbitrary: s sent)
  case (Cons a as)
  then show ?case using load_move_main_ok by (fastforce split: option.splits)
qed simp

lemma load_progress:
  assumes "\<not> load_ended s" "load_main_ok (ll_main s)" "0 < chan_cap (ld_flags ld)"
  shows "(\<exists>a. load_move env ld a s \<noteq> None) \<or> (\<exists>k. vu_unanswered env ld k s)"
proof (cases "ll_main s = MainWait")
  case False
  then have "load_move env ld Main s \<noteq> None"
    using assms(1,2) by (cases "(env, ld, ll_main s, s)" rule: main_step.cases) (auto simp: load_main_ok_def load_ended_def Let_def)
  then show ?thesis by blast
next
  case wait: True
  show ?thesis
  proof (cases "list_all (\<lambda>pc. pc = VuDone) (ll_vus s)")
    case True
    with wait have "load_move env ld Main s \<noteq> None" by (auto split: prod.splits)
    then show ?thesis by blast
  next
    case False
    then obtain k where k: "k < length (ll_vus s)" "ll_vus s ! k \<noteq> VuDone" by (auto simp: list_all_length)
    show ?thesis
    proof (cases "vu_step env ld k (ll_vus s ! k) s")
      case (Some x)
      with k assms(1) have "load_move env ld (VU k) s \<noteq> None" by simp
      then show ?thesis by blast
    next
      case None
      with k have "chan_cap (ld_flags ld) \<le> int (length (ll_chan s)) \<or> vu_unanswered env ld k s"
        by (cases "ll_vus s ! k") (auto simp: vu_unanswered_def split: prod.splits if_splits option.splits)
      then show ?thesis
      proof
        assume "chan_cap (ld_flags ld) \<le> int (length (ll_chan s))"
        with assms(3) have "ll_chan s \<noteq> []" by auto
        with assms(1) have "load_move env ld Consumer s \<noteq> None" by (auto split: list.splits)
        then show ?thesis by blast
      qed blast
    qed
  qed
qed

lemma answered_load_vu: "answered_load env clock \<Longrightarrow> \<not> vu_unanswered env ld k s"
  using answered_load.worker_call_answered [of env clock "ld_userIDs ld" "ld_orderIDs ld" "int k"]
  by (auto simp: vu_unanswered_def split: vu_pc.splits)

lemma load_run_ends:
  assumes "answered_load env clock" "load_main_ok (ll_main s)" "0 < chan_cap (ld_flags ld)"
  shows "\<exists>as sent s'. load_run env ld as s = Some (sent, s') \<and> load_ended s'"
  using assms(2)
proof (induction "load_clock.load_measure clock ld s" arbitrary: s rule: less_induct)
  case less
  show ?case
  proof (cases "load_ended s")
    case True
    then show ?thesis by (intro exI [of _ "[]"]) simp
  next
    case False
    then obtain a s1 where a: "load_move env ld a s = Some s1"
      using load_progress [OF _ less.prems assms(3)] answered_load_vu [OF assms(1)] by blast
    note clock = answered_load.axioms(1) [OF assms(1)]
    from less.hyps [OF load_clock.load_move_measure [OF clock a] load_move_main_ok [OF a less.prems]]
    obtain as sent s' where "load_run env ld as s1 = Some (sent, s')" "load_ended s'" by blast
    with a show ?thesis by (intro exI [of _ "a # as"]) auto
  qed
qed

section \<open>A call without a reply\<close>

text \<open>A virtual user whose call is never answered stays where it is, and \<open>main\<close> waits for it.\<close>

definition vu_hangs :: "'w load_env \<Rightarrow> load_data \<Rightarrow> nat \<Rightarrow> 'w load_state \<Rightarrow> bool" where
  "vu_hangs env ld k s \<longleftrightarrow> k < length (ll_vus s) \<and>
     (case ll_vus s ! k of
        VuCall op t \<Rightarrow> \<forall>w. worker_call env (ld_userIDs ld) (ld_orderIDs ld) (int k) op w = None
      | _ \<Rightarrow> False)"

lemma load_move_hangs:
  assumes "load_move env ld a s = Some s'" "vu_hangs env ld k s" "ll_main s = MainWait"
  shows "vu_hangs env ld k s' \<and> ll_main s' = MainWait"
proof (cases a)
  case (VU j)
  then obtain pc s1 where v: "vu_step env ld j (ll_vus s ! j) s = Some (pc, s1)" "s' = s1\<lparr>ll_vus := (ll_vus s)[j := pc]\<rparr>"
    using assms(1) by (auto split: if_splits)
  have "j \<noteq> k" using v(1) assms(2) by (auto simp: vu_hangs_def split: vu_pc.splits)
  with v(2) vu_step_keeps [OF v(1)] assms(2,3) show ?thesis by (simp add: vu_hangs_def)
next
  case Consumer
  with assms consumer_step_weight [of s s'] show ?thesis by (auto simp: vu_hangs_def split: if_splits)
next
  case Main
  have "\<not> list_all (\<lambda>pc. pc = VuDone) (ll_vus s)" using assms(2) by (auto simp: vu_hangs_def list_all_length)
  with Main assms(1,3) show ?thesis by simp
qed

lemma load_run_hangs:
  "load_run env ld as s = Some (sent, s') \<Longrightarrow> vu_hangs env ld k s \<Longrightarrow> ll_main s = MainWait \<Longrightarrow>
   vu_hangs env ld k s' \<and> ll_main s' = MainWait"
proof (induction as arbitrary: s sent)
  case (Cons a as)
  then show ?case using load_move_hangs by (fastforce split: option.splits)
qed simp

section \<open>A drained run reports safely\<close>

text \<open>When the consumer has taken everything, the statistics that \<open>main\<close> reads do not change any more.\<close>

definition report_phase :: "load_stats \<Rightarrow> main_pc \<Rightarrow> bool" where
  "report_phase st pc \<longleftrightarrow>
     (case pc of
        MainReport ls out \<Rightarrow> True
      | MainDurs ls out n \<Rightarrow> ls \<noteq> [] \<and> n = os_count (stat_get (snd (hd ls)) st)
      | MainErrs ls out n durs \<Rightarrow> ls \<noteq> [] \<and> n = os_count (stat_get (snd (hd ls)) st) \<and>
          durs = os_durs (stat_get (snd (hd ls)) st)
      | MainSummary out \<Rightarrow> True
      | MainExit out \<Rightarrow> True
      | _ \<Rightarrow> False)"

definition load_drained :: "nat \<Rightarrow> 'w load_state \<Rightarrow> bool" where
  "load_drained k s \<longleftrightarrow> list_all (\<lambda>pc. pc = VuDone) (ll_vus s) \<and> ll_chan s = [] \<and> ll_pend s = [] \<and>
     load_stats_ok k (ll_stats s) \<and> report_phase (ll_stats s) (ll_main s)"

lemma stat_get_ok: "load_stats_ok k st \<Longrightarrow> stats_ok (stat_get x st) \<and> length (os_durs (stat_get x st)) \<le> k"
  by (cases x) (auto simp: load_stats_ok_def)

lemma load_move_drained:
  assumes "load_move env ld a s = Some s'" "load_drained k s" "k < 2 ^ 53"
  shows "load_drained k s'"
proof (cases a)
  case (VU i)
  with assms(1,2) show ?thesis by (auto simp: load_drained_def list_all_length split: if_splits)
next
  case Consumer
  with assms(1,2) show ?thesis by (auto simp: load_drained_def split: if_splits)
next
  case Main
  then have m: "main_step env ld (ll_main s) s = Some s'" using assms(1) by simp
  have "report_phase (ll_stats s) (ll_main s')"
  proof (cases "ll_main s")
    case (MainReport ls out)
    with m show ?thesis by (cases ls) (auto simp: report_phase_def Let_def)
  next
    case (MainDurs ls out n)
    with m assms(2) show ?thesis by (cases ls) (auto simp: report_phase_def load_drained_def)
  next
    case (MainErrs ls out n durs)
    then obtain l ls' where l: "ls = l # ls'" using assms(2) by (cases ls) (auto simp: report_phase_def load_drained_def)
    let ?st = "stat_get (snd l) (ll_stats s)"
    have "stats_ok ?st" "length (os_durs ?st) < 2 ^ 53"
      using stat_get_ok [of k "ll_stats s" "snd l"] assms(2,3) by (auto simp: load_drained_def)
    then obtain line where "opStats_report (fst l) ?st = Done line" using report_no_panic by blast
    moreover have "\<lparr>os_count = n, os_errCount = os_errCount ?st, os_durs = durs\<rparr> = ?st"
      using assms(2) MainErrs l by (simp add: load_drained_def report_phase_def)
    ultimately show ?thesis using m MainErrs l by (auto simp: report_phase_def)
  qed (use m assms(2) in \<open>auto simp: report_phase_def load_drained_def\<close>)
  with main_step_keeps [OF m] assms(2) show ?thesis by (simp add: load_drained_def)
qed

lemma load_run_drained:
  "load_run env ld as s = Some (sent, s') \<Longrightarrow> load_drained k s \<Longrightarrow> k < 2 ^ 53 \<Longrightarrow> load_drained k s'"
proof (induction as arbitrary: s sent)
  case (Cons a as)
  then show ?case using load_move_drained by (fastforce split: option.splits)
qed simp

text \<open>\<open>main\<close> is past its wait only when all virtual users have stopped.\<close>

definition load_waited :: "'w load_state \<Rightarrow> bool" where
  "load_waited s \<longleftrightarrow> ll_main s = MainWait \<or> list_all (\<lambda>pc. pc = VuDone) (ll_vus s)"

lemma load_move_waited:
  assumes "load_move env ld a s = Some s'" "load_waited s"
  shows "load_waited s'"
proof (cases a)
  case (VU k)
  then obtain pc s1 where v: "vu_step env ld k (ll_vus s ! k) s = Some (pc, s1)" "s' = s1\<lparr>ll_vus := (ll_vus s)[k := pc]\<rparr>"
    "k < length (ll_vus s)"
    using assms(1) by (auto split: if_splits)
  then have "ll_vus s ! k \<noteq> VuDone" by auto
  with v(3) assms(2) have "ll_main s = MainWait" by (auto simp: load_waited_def list_all_length)
  with vu_step_keeps [OF v(1)] v(2) show ?thesis by (simp add: load_waited_def)
next
  case Consumer
  with assms consumer_step_weight [of s s'] show ?thesis by (auto simp: load_waited_def split: if_splits)
next
  case Main
  then have m: "main_step env ld (ll_main s) s = Some s'" using assms(1) by simp
  have "list_all (\<lambda>pc. pc = VuDone) (ll_vus s)"
    using m assms(2) by (cases "ll_main s = MainWait") (auto simp: load_waited_def split: if_splits)
  with main_step_keeps [OF m] show ?thesis by (simp add: load_waited_def)
qed

lemma load_run_waited: "load_run env ld as s = Some (sent, s') \<Longrightarrow> load_waited s \<Longrightarrow> load_waited s'"
proof (induction as arbitrary: s sent)
  case (Cons a as)
  then show ?case using load_move_waited by (fastforce split: option.splits)
qed simp

end
