(* ===== verification/ExtAuthz.thy ===== *)
theory ExtAuthz
  imports Config
begin

text \<open>
  \<open>src/envoy/ext_authz/main.go\<close> and \<open>src/envoy/ext_authz/healthcheck.go\<close>: the external authorization
  service of the Envoy gateway, which checks an API key, and its health probe. The request router is
  that of \<open>net/http\<close>, for paths without percent-escapes and methods other than CONNECT: a path that
  is not in its clean form is redirected, \<open>/healthz\<close> has its own handler, every other path the
  authorization handler.
\<close>

section \<open>Requests, responses and routing\<close>

record http_request =
  req_Path :: string
  req_Header :: "(string \<times> string) list"   \<comment> \<open>canonical names, in the order received\<close>

record http_response =
  resp_Status :: int
  resp_Body :: string

text \<open>\<open>r.Header.Get("x-api-key")\<close>: the first value under the canonical name, or the empty string.\<close>

definition header_Get :: "(string \<times> string) list \<Rightarrow> string" where
  "header_Get hs = (case map_of hs ''X-Api-Key'' of Some v \<Rightarrow> v | None \<Rightarrow> [])"

fun split_slash :: "string \<Rightarrow> string list" where
  "split_slash [] = [[]]"
| "split_slash (x # xs) =
     (if x = CHR ''/'' then [] # split_slash xs
      else (case split_slash xs of [] \<Rightarrow> [[x]] | s # ss \<Rightarrow> (x # s) # ss))"

text \<open>The elements of a rooted path after \<open>path.Clean\<close>; the accumulator is reversed.\<close>

fun clean_elems :: "string list \<Rightarrow> string list \<Rightarrow> string list" where
  "clean_elems acc [] = rev acc"
| "clean_elems acc (s # ss) =
     (if s = [] \<or> s = ''.'' then clean_elems acc ss
      else if s = ''..'' then clean_elems (tl acc) ss
      else clean_elems (s # acc) ss)"

definition cleanPath :: "string \<Rightarrow> string" where
  "cleanPath p =
     (if p = [] then ''/''
      else let p' = (if hd p = CHR ''/'' then p else CHR ''/'' # p);
               es = clean_elems [] (split_slash p');
               np = (if es = [] then ''/'' else concat (map (\<lambda>e. CHR ''/'' # e) es))
           in if last p' = CHR ''/'' \<and> np \<noteq> ''/'' then np @ ''/'' else np)"

datatype route = RouteRedirect string | RouteHealthz | RouteRoot

definition mux_route :: "string \<Rightarrow> route" where
  "mux_route p =
     (if cleanPath p \<noteq> p then RouteRedirect (cleanPath p)
      else if p = ''/healthz'' then RouteHealthz else RouteRoot)"

text \<open>\<open>http.Error\<close> and \<open>fmt.Fprintln\<close> end the body with a line break.\<close>

abbreviation body_line :: "string \<Rightarrow> string" where
  "body_line s \<equiv> s @ [CHR 0x0A]"

definition json1 :: "string \<Rightarrow> string \<Rightarrow> string" where
  "json1 k v = [CHR ''{'', CHR 0x22] @ k @ [CHR 0x22, CHR '':'', CHR 0x22] @ v @ [CHR 0x22, CHR ''}'']"

section \<open>The service\<close>

definition authz_apiKey :: "os_env \<Rightarrow> string" where
  "authz_apiKey os =
     (let apiKey = Getenv os ''API_KEY'' in if apiKey = [] then ''grpc-poc-api-key-2026'' else apiKey)"

definition authz_port :: "os_env \<Rightarrow> string" where
  "authz_port os = (let port = Getenv os ''PORT'' in if port = [] then ''50053'' else port)"

definition healthz_handler :: "http_request \<Rightarrow> http_response" where
  "healthz_handler r = \<lparr>resp_Status = 200, resp_Body = body_line (json1 ''status'' ''ok'')\<rparr>"

definition authz_handler :: "string \<Rightarrow> http_request \<Rightarrow> http_response" where
  "authz_handler apiKey r =
     (let key = header_Get (req_Header r)
      in if key = [] then \<lparr>resp_Status = 401, resp_Body = body_line (json1 ''error'' ''missing x-api-key header'')\<rparr>
         else if key \<noteq> apiKey then \<lparr>resp_Status = 401, resp_Body = body_line (json1 ''error'' ''invalid API key'')\<rparr>
         else \<lparr>resp_Status = 200, resp_Body = body_line (json1 ''status'' ''authorized'')\<rparr>)"

definition authz_serve :: "string \<Rightarrow> http_request \<Rightarrow> http_response" where
  "authz_serve apiKey r =
     (case mux_route (req_Path r) of
        RouteRedirect p \<Rightarrow> \<lparr>resp_Status = 301, resp_Body = p\<rparr>
      | RouteHealthz \<Rightarrow> healthz_handler r
      | RouteRoot \<Rightarrow> authz_handler apiKey r)"

text \<open>\<open>main\<close>: \<open>listen\<close> is \<open>http.ListenAndServe\<close>, which returns an error or not at all.\<close>

definition authz_main ::
  "os_env \<Rightarrow> (string \<Rightarrow> (http_request \<Rightarrow> http_response) \<Rightarrow> 'w \<Rightarrow> go_error option \<times> 'w) \<Rightarrow> 'w \<Rightarrow>
   string option \<times> 'w" where
  "authz_main os listen w =
     (let apiKey = authz_apiKey os; port = authz_port os
      in case listen ('':'' @ port) (authz_serve apiKey) w of
           (Some err, w') \<Rightarrow> (Some (''server failed: '' @ err), w')
         | (None, w') \<Rightarrow> (None, w'))"

text \<open>The probe: the exit code of the process, for what \<open>http.Get\<close> gives (the status code).\<close>

definition healthcheck_main :: "(string \<Rightarrow> 'w \<Rightarrow> (go_error + int) \<times> 'w) \<Rightarrow> 'w \<Rightarrow> int \<times> 'w" where
  "healthcheck_main http_Get w =
     (case http_Get ''http://localhost:50053/healthz'' w of
        (Inl err, w') \<Rightarrow> (1, w')
      | (Inr st, w') \<Rightarrow> if st \<noteq> 200 then (1, w') else (0, w'))"

section \<open>Facts\<close>

lemma authz_apiKey_nonempty: "authz_apiKey os \<noteq> []"
  by (simp add: authz_apiKey_def Let_def)

lemma authz_handler_ok: "resp_Status (authz_handler k r) = 200 \<longleftrightarrow> header_Get (req_Header r) = k \<and> k \<noteq> []"
  by (auto simp: authz_handler_def Let_def)

lemma authz_serve_ok:
  "resp_Status (authz_serve k r) = 200 \<longleftrightarrow>
     cleanPath (req_Path r) = req_Path r \<and>
     (req_Path r = ''/healthz'' \<or> header_Get (req_Header r) = k \<and> k \<noteq> [])"
  by (auto simp: authz_serve_def mux_route_def healthz_handler_def authz_handler_ok)

lemma healthz_clean: "cleanPath ''/healthz'' = ''/healthz''"
  by code_simp

end
