(* ===== verification/ToolProps.thy ===== *)
theory ToolProps
  imports LoadRun ExtAuthz
begin

text \<open>
  The properties of the two programs beside the services: the external authorization service and the
  load generator.
\<close>

section \<open>The authorization service\<close>

text \<open> (C38) Who is authorized: a request is answered with 200 exactly when its path is clean and it
  either asks for \<open>/healthz\<close>, which needs no key, or carries as its first \<open>x-api-key\<close> header the
  configured key; without \<open>API_KEY\<close> that is the key in the source. No environment lets a request
  without a key through to anything else.\<close>

theorem authorized_iff:
  "resp_Status (authz_serve (authz_apiKey os) r) = 200 \<longleftrightarrow>
     cleanPath (req_Path r) = req_Path r \<and>
     (req_Path r = ''/healthz'' \<or>
      header_Get (req_Header r) \<noteq> [] \<and>
      header_Get (req_Header r) =
        (if Getenv os ''API_KEY'' = [] then ''grpc-poc-api-key-2026'' else Getenv os ''API_KEY''))"
  using authz_apiKey_nonempty [of os] by (auto simp: authz_serve_ok authz_apiKey_def Let_def)

section \<open>The load generator\<close>

text \<open> (C39) The report of a finished load test: when the consumer has taken all results, no report
  panics (every percentile index, computed in floating point, is inside the list), and in the total
  report the median is at most the 95th percentile and that at most the 99th, all of them measured
  durations.\<close>

theorem load_report_percentiles:
  assumes "rs \<noteq> []" "length rs < 2 ^ 53"
  shows "\<exists>out r. load_reports (consume load_stats_new rs) = Done out \<and>
    report_values (ls_total (consume load_stats_new rs)) = Done (Some r) \<and>
    rep_n r = int (length rs) \<and> rep_p50 r \<le> rep_p95 r \<and> rep_p95 r \<le> rep_p99 r \<and>
    {rep_p50 r, rep_p95 r, rep_p99 r} \<subseteq> result_duration ` set rs"
proof -
  let ?st = "consume load_stats_new rs"
  let ?s = "ls_total ?st"
  have ok: "load_stats_ok (length rs) ?st" and durs: "os_durs ?s = map result_duration rs"
    using consume_ok [OF assms(2)] by simp_all
  then have cnt: "os_count ?s = int (length rs)" by (simp add: load_stats_ok_def stats_ok_def)
  obtain out where out: "load_reports ?st = Done out" using load_reports_no_panic [OF ok assms(2)] by blast
  have ne: "os_count ?s \<noteq> 0" "os_durs ?s \<noteq> []" "length (os_durs ?s) < 2 ^ 53"
    using assms by (simp_all add: durs cnt)
  obtain r i j k where r: "report_values ?s = Done (Some r)" "rep_p50 r = sort (os_durs ?s) ! i"
    "rep_p95 r = sort (os_durs ?s) ! j" "rep_p99 r = sort (os_durs ?s) ! k"
    "i \<le> j" "j \<le> k" "k < length (os_durs ?s)" "rep_n r = os_count ?s"
    using ne by (rule report_values_ok)
  have "sort (os_durs ?s) ! m \<in> result_duration ` set rs" if "m < length (os_durs ?s)" for m
    using that nth_mem [of m "sort (os_durs ?s)"] by (simp add: durs)
  then have "{rep_p50 r, rep_p95 r, rep_p99 r} \<subseteq> result_duration ` set rs" using r by simp
  moreover have "rep_p50 r \<le> rep_p95 r" "rep_p95 r \<le> rep_p99 r"
    using r by (simp_all add: sorted_nth_mono)
  ultimately show ?thesis using out r cnt by simp
qed

definition test_results :: "load_result list" where
  "test_results = map (\<lambda>d. \<lparr>result_duration = d, result_err = d = 3000000, result_op = ''GetUser''\<rparr>)
     [5000000, 3000000, 40000000]"

lemma load_report_percentiles_witness:
  "\<exists>r. report_values (ls_total (consume load_stats_new test_results)) = Done (Some r) \<and> rep_n r = 3 \<and>
     rep_p50 r \<le> rep_p99 r"
  using load_report_percentiles [of test_results] by (auto simp: test_results_def)

text \<open>
  \<open>main\<close> prints the reports without waiting for the consumer. Between the two steps of the first
  \<open>add\<close>, the count is 1 and the list still empty: the report divides by zero.
\<close>

theorem report_race_panics: "opStats_report label (add_count opStats_new) = Panicked"
  by (simp add: opStats_report_def report_values_def add_count_def opStats_new_def)

text \<open>An executable world: the state is the clock, every call takes 5 milliseconds.\<close>

definition ml_tick :: "int \<Rightarrow> int" where "ml_tick w = w + 5000000"

definition ml_err :: "ctx \<Rightarrow> 'q \<Rightarrow> int \<Rightarrow> ((rpc_error + 'r) \<times> int) option" where
  "ml_err c q w = Some (Inl (OtherErr ''unavailable''), ml_tick w)"

definition ml_now :: "int \<Rightarrow> time \<times> int" where "ml_now w = (w, w + 100)"

definition ml_Float64 :: "int \<Rightarrow> float64 \<times> int" where
  "ml_Float64 w = (Fin False (if even w then 1 / 4 else 3 / 4), w + 1)"

definition ml_Intn :: "nat \<Rightarrow> int \<Rightarrow> nat \<times> int" where "ml_Intn n w = (nat w mod n, w + 1)"

definition mem_load :: "int load_env" where
  "mem_load = \<lparr>le_CreateUser = ml_err, le_GetUser = ml_err, le_CreateOrder = ml_err, le_GetOrder = ml_err,
     le_now = ml_now, le_Float64 = ml_Float64, le_Intn = ml_Intn\<rparr>"

interpretation ml: answered_load mem_load "\<lambda>w. w"
  by unfold_locales (auto simp: mem_load_def ml_err_def ml_tick_def ml_now_def ml_Float64_def ml_Intn_def)

text \<open>The same world with an order service that accepts connections and never answers \<open>CreateOrder\<close>.\<close>

definition hung_load :: "int load_env" where
  "hung_load = mem_load\<lparr>le_CreateOrder := \<lambda>c q w. None\<rparr>"


text \<open>A virtual user stops: whatever the operations it draws and their outcomes, when its calls are
  answered, reading the clock takes time and nothing turns it back, its loop ends, with at most one
  operation for every nanosecond of the test duration.\<close>

theorem virtual_user_stops:
  assumes "answered_load env clock"
  shows "\<exists>rs w'. worker_loop env writeRatio userIDs orderIDs dur start vu w = Some (rs, w') \<and>
    int (length rs) \<le> max 0 (dur - (clock w - start))"
  using assms by (rule answered_load.worker_loop_ends)

lemma virtual_user_stops_witness:
  "\<exists>rs w'. worker_loop mem_load (Fin False (3 / 10)) [''u''] [] (30 * time_Second) 0 1 0 = Some (rs, w') \<and>
     int (length rs) \<le> 30 * time_Second"
  using virtual_user_stops [OF ml.answered_load_axioms, of "Fin False (3 / 10)" "[''u'']" "[]" "30 * time_Second" 0 1 0]
  by simp

section \<open>The load generator as a whole\<close>

text \<open>
  No result is lost, repeated or reordered: whatever the schedule, the results sent so far are those
  that the consumer has taken and those in the channel, in this order, and once the consumer has
  finished with the one it is at, the statistics are those of the results it has taken. The channel
  never holds more than its size.
\<close>

theorem load_results_kept:
  assumes "load_run env ld sched (load_init n w) = Some (sent, s)"
  shows "\<exists>taken. sent = taken @ ll_chan s \<and>
    foldl add_do (ll_stats s) (ll_pend s) = consume load_stats_new taken \<and>
    int (length (ll_chan s)) \<le> max 0 (chan_cap (ld_flags ld))"
  using load_run_conserves [OF assms load_conserves_init] by (auto simp: load_conserves_def)


definition race_data :: load_data where
  "race_data = \<lparr>ld_flags = \<lparr>lf_vus = 1, lf_duration = 1000, lf_userAddr = [], lf_orderAddr = [], lf_certDir = [],
       lf_caFile = [], lf_writeRatio = Fin False (3 / 10)\<rparr>,
     ld_userIDs = [''u''], ld_orderIDs = [], ld_start = 0\<rparr>"

lemma race_cap: "chan_cap (ld_flags race_data) = 100"
  by (simp add: chan_cap_def race_data_def)

lemma race_data_simps: "lf_duration (ld_flags race_data) = 1000" "ld_start race_data = 0"
  "lf_writeRatio (ld_flags race_data) = Fin False (3 / 10)" "ld_userIDs race_data = [''u'']" "ld_orderIDs race_data = []"
  by (simp_all add: race_data_def)

lemmas race_defs = race_data_simps hung_load_def mem_load_def ml_err_def ml_tick_def ml_now_def ml_Float64_def ml_Intn_def
  load_ended_def race_cap

lemma race_op: "randomOp mem_load (Fin False (3 / 10)) w = (if even w then ''CreateOrder'' else ''GetUser'', w + 2)"
  by (simp add: randomOp_def race_defs)

lemma race_now: "le_now mem_load w = (w, w + 100)"
  by (simp add: race_defs)

lemma race_call: "worker_call mem_load [''u''] [] 0 ''CreateOrder'' w = Some (True, w + 5000002)"
  by (simp add: worker_call_def race_defs)

lemma race_vu_rounds:
  "load_run mem_load race_data (VU 0 # VU 0 # VU 0 # VU 0 # VU 0 # sched) (load_init 1 100) =
   (let r = \<lparr>result_duration = 5000102, result_err = True, result_op = ''CreateOrder''\<rparr> in
    map_option (apfst (Cons r)) (load_run mem_load race_data sched
      (load_init 1 5000504\<lparr>ll_vus := [VuDone], ll_chan := [r]\<rparr>)))"
  by (simp add: load_ended_def load_init_def race_now race_op race_data_simps race_call race_cap Let_def comp_def
      option.map_comp apfst_def map_prod_def case_prod_unfold)

text \<open>
  One round of one virtual user; then \<open>main\<close> reports between the first two steps of the consumer, or
  after its last one.
\<close>

definition race_sched :: "actor list" where
  "race_sched = [VU 0, VU 0, VU 0, VU 0, VU 0, Consumer, Consumer, Main, Main, Main, Main]"

definition drained_sched :: "actor list" where
  "drained_sched = [VU 0, VU 0, VU 0, VU 0, VU 0, Consumer, Consumer, Consumer, Consumer, Consumer, Consumer, Consumer, Main]"

lemmas race_run_defs = load_init_def load_ended_def race_now load_labels_def consume_steps_def add_steps_def
  load_stats_new_def opStats_new_def

lemma race_sched_panics:
  "map_option (ll_main \<circ> snd) (load_run mem_load race_data race_sched (load_init 1 100)) = Some MainPanic"
  unfolding race_sched_def race_vu_rounds
  by (simp add: race_run_defs add_count_def opStats_report_def report_values_def)

lemma drained_sched_run:
  "\<exists>sent s out. load_run mem_load race_data drained_sched (load_init 1 100) = Some (sent, s) \<and> length sent = 1 \<and>
     ll_chan s = [] \<and> ll_pend s = [] \<and> ll_main s = MainReport load_labels out"
  unfolding drained_sched_def race_vu_rounds
  by (simp add: race_run_defs Let_def)



text \<open>
  The report is safe when the consumer is given the time that \<open>main\<close> does not wait for: if the
  channel is empty and the consumer idle when \<open>main\<close> begins to report, nothing that follows panics.
  The witness has such a run, and beside it a schedule without that time, on which the report panics.
\<close>

theorem drained_report_safe:
  assumes "load_run env ld sched (load_init n w) = Some (sent, s)" "length sent < 2 ^ 53"
    and "ll_main s = MainReport load_labels out" "ll_chan s = []" "ll_pend s = []"
    and "load_run env ld sched' s = Some (sent', s')"
  shows "ll_main s' \<noteq> MainPanic"
proof -
  have "list_all (\<lambda>pc. pc = VuDone) (ll_vus s)"
    using load_run_waited [OF assms(1)] assms(3) by (simp add: load_waited_def load_init_def)
  moreover have "ll_stats s = consume load_stats_new sent"
    using load_run_conserves [OF assms(1) load_conserves_init] assms(4,5) by (simp add: load_conserves_def)
  ultimately have "load_drained (length sent) s"
    using consume_ok [OF assms(2)] assms(3-5) by (simp add: load_drained_def report_phase_def)
  from load_run_drained [OF assms(6) this assms(2)] show ?thesis by (auto simp: load_drained_def report_phase_def)
qed

theorem drained_report_safe_witness:
  "map_option (ll_main \<circ> snd) (load_run mem_load race_data race_sched (load_init 1 100)) = Some MainPanic \<and>
   (\<exists>sent s. load_run mem_load race_data drained_sched (load_init 1 100) = Some (sent, s) \<and>
      (\<forall>sched' sent' s'. load_run mem_load race_data sched' s = Some (sent', s') \<longrightarrow> ll_main s' \<noteq> MainPanic))"
proof -
  obtain sent s out where s: "load_run mem_load race_data drained_sched (load_init 1 100) = Some (sent, s)" "length sent = 1"
    "ll_chan s = []" "ll_pend s = []" "ll_main s = MainReport load_labels out"
    using drained_sched_run by blast
  then show ?thesis using drained_report_safe [OF s(1) _ s(5,3,4)] race_sched_panics by simp
qed

end
