(* ===== verification/TwoServices.thy ===== *)
theory TwoServices
  imports Rotation
begin

text \<open>
  The two services together. The order service asks the user service for a user before it writes an
  order; each has its own database, and no foreign key spans them (migration
  \<open>src/db/migrations/000004_drop_order_user_fk.up.sql\<close>). The locale says what connects the two: a
  reply that the client receives was given by \<open>GetUser\<close> of the user service over the users as they
  are then. Its lemmas show what the order service may therefore rely on.
\<close>

section \<open>Orders and their users\<close>

text \<open>Every order belongs to a registered user.\<close>

definition orders_owned :: "users_table \<Rightarrow> orders_db \<Rightarrow> bool" where
  "orders_owned m d \<longleftrightarrow> (\<forall>i r. od_orders d i = Some r \<longrightarrow> m (or_user r) \<noteq> None)"

lemma orders_owned_created:
  assumes "orders_owned m d" "order_created uuid_in numeric i a its t d d'" "uuid_in a = Some v" "m v \<noteq> None"
  shows "orders_owned m d'"
  using assms by (auto simp: orders_owned_def order_created_def split: if_splits)

lemma orders_owned_cancelled: "orders_owned m d \<Longrightarrow> orders_owned m (order_cancelled u d)"
  by (auto simp: orders_owned_def order_cancelled_def map_option_case split: option.splits if_splits)

lemma orders_owned_more: "orders_owned m d \<Longrightarrow> dom m \<subseteq> dom m' \<Longrightarrow> orders_owned m' d"
  unfolding orders_owned_def dom_def by blast

section \<open>The connected services\<close>

text \<open>\<open>uview\<close> is the user service's part of the world, \<open>us\<close> its server.\<close>

locale linked_services =
  ord: order_world env uuid_in numeric db pend lossy kv conn +
  usr: pg_users drv uuid_in users +
  quiet: quiet_order env "\<lambda>w. users (uview w)" conn
  for env :: "'w order_env" and uuid_in numeric db pend lossy kv and conn :: "'w user_conn"
    and drv :: "'u pgx" and users and uview :: "'w \<Rightarrow> 'u" +
  fixes us :: UserServiceServer
  assumes reply_served: "rpc_GetUser conn c req w = (Inr resp, w') \<Longrightarrow>
      \<exists>c' v v'. GetUser drv us c' req v = (Inr resp, v') \<and> users v = users (uview w)"
begin

lemma lookup_registered:
  assumes "UserClient_GetUser conn c i w = (Inr (Some user), w')"
  shows "\<exists>v r. uuid_in i = Some v \<and> users (uview w) v = Some r"
proof -
  obtain resp where resp: "rpc_GetUser conn c \<lparr>GetUserRequest_Id = i\<rparr> w = (Inr resp, w')"
    using assms by (auto simp: UserClient_GetUser_def split: prod.splits sum.splits option.splits if_splits)
  from reply_served [OF resp] obtain c' v v' where
    g: "GetUser drv us c' \<lparr>GetUserRequest_Id = i\<rparr> v = (Inr resp, v')" "users v = users (uview w)"
    by blast
  from usr.GetUser_refines [OF g(1)] g(2) show ?thesis
    by simp (erule user_spec_getE; auto)
qed

text \<open>Whatever \<open>CreateOrder\<close> answers: an order that it has written belongs to a registered user.\<close>

lemma CreateOrder_owned:
  assumes run: "CreateOrder env conn s c req w = (res, w')"
    and owned: "orders_owned (users (uview w)) (db w)"
  shows "orders_owned (users (uview w')) (db w')"
proof -
  have keep: "users (uview w') = users (uview w)"
    using quiet.OrderService_dispatch_view [of s c "CallCreateOrder req" w] run
    by (simp add: apfst_def map_prod_def)
  have "orders_owned (users (uview w)) (db w')"
  proof (cases "valid_order req")
    case False
    from CreateOrder_invalid [OF False, of env conn s c w] run have "w' = w" by auto
    with owned show ?thesis by simp
  next
    case True
    let ?u = "TrimSpace (CreateOrderRequest_UserId req)"
    obtain q w1 where q: "UserClient_GetUser conn c ?u w = (q, w1)" by fastforce
    note k = ord.UserClient_world [OF q]
    note run = run [unfolded CreateOrder_valid [OF True] q prod.case]
    show ?thesis
    proof (cases q rule: sum_option_cases)
      case (some user)
      from lookup_registered [of c ?u w user w1] q some obtain v where
        v: "uuid_in ?u = Some v" "users (uview w) v \<noteq> None" by auto
      obtain x w2 where
        x: "OrderRepository_Create env (OrderServiceServer_repo s) c ?u (CreateOrderRequest_Items req) w1 = (x, w2)"
        by fastforce
      have w2: "w' = w2" using run some x by (auto split: outcome.splits sum.splits)
      from ord.Create_effect [OF x] k consider "db w2 = db w"
        | i its t where "order_created uuid_in numeric i ?u its t (db w) (db w2)" by auto
      then show ?thesis
      proof cases
        case (2 i its t)
        from orders_owned_created [OF owned this v] w2 show ?thesis by simp
      qed (use owned w2 in simp)
    qed (use run k owned in auto)
  qed
  with keep show ?thesis by simp
qed

lemma dispatch_users:
  "OrderService_dispatch env conn s c call w = (res, w') \<Longrightarrow> users (uview w') = users (uview w)"
  using quiet.OrderService_dispatch_view [of s c call w] by simp

lemma dispatch_owned:
  assumes run: "OrderService_dispatch env conn s c call w = (res, w')"
    and owned: "orders_owned (users (uview w)) (db w)"
  shows "orders_owned (users (uview w')) (db w')"
proof (cases call)
  case (CallCreateOrder req)
  with run CreateOrder_owned [OF _ owned, of s c req] show ?thesis
    by (cases "CreateOrder env conn s c req w") simp
next
  case (CallCancelOrder req)
  obtain r where r: "CancelOrder env s c req w = (r, w')"
    using run CallCancelOrder by (cases "CancelOrder env s c req w") simp
  have "db w' = db w \<or> (\<exists>u. db w' = order_cancelled u (db w))"
    using ord.CancelOrder_refines [OF r] by (auto elim: order_spec_cancelE)
  with dispatch_users [OF run] owned orders_owned_cancelled show ?thesis by auto
next
  case (CallGetOrder req)
  obtain r where r: "GetOrder env s c req w = (r, w')"
    using run CallGetOrder by (cases "GetOrder env s c req w") simp
  then have "db w' = db w"
    using ord.Get_keeps by (auto simp: GetOrder_def split: prod.splits sum.splits option.splits if_splits)
  with dispatch_users [OF run] owned show ?thesis by simp
next
  case (CallListOrders req)
  obtain r where r: "ListOrders env s c req w = (r, w')"
    using run CallListOrders by (cases "ListOrders env s c req w") simp
  have "db w' = db w" using ord.ListOrders_refines [OF r] by (auto elim: order_spec_listE)
  with dispatch_users [OF run] owned show ?thesis by simp
qed

end

section \<open>Runs of the system\<close>

text \<open>
  A step is a call of the order service, or a call of the user service, which leaves the orders
  alone. \<open>keep\<close> says which calls of the user service are made.
\<close>

inductive system_step ::
  "'w order_env \<Rightarrow> 'w user_conn \<Rightarrow> OrderServiceServer \<Rightarrow> ('w \<Rightarrow> orders_db) \<Rightarrow>
   'u pgx \<Rightarrow> UserServiceServer \<Rightarrow> ('w \<Rightarrow> 'u) \<Rightarrow> (user_call \<Rightarrow> bool) \<Rightarrow> 'w \<Rightarrow> 'w \<Rightarrow> bool"
  for env conn s db drv us uview keep where
  order_call: "OrderService_dispatch env conn s c call w = (res, w') \<Longrightarrow>
    system_step env conn s db drv us uview keep w w'"
| user_call: "keep ucall \<Longrightarrow> UserService_dispatch drv us c ucall (uview w) = (reply, uview w') \<Longrightarrow>
    db w' = db w \<Longrightarrow> system_step env conn s db drv us uview keep w w'"

abbreviation system_reach ::
  "'w order_env \<Rightarrow> 'w user_conn \<Rightarrow> OrderServiceServer \<Rightarrow> ('w \<Rightarrow> orders_db) \<Rightarrow>
   'u pgx \<Rightarrow> UserServiceServer \<Rightarrow> ('w \<Rightarrow> 'u) \<Rightarrow> (user_call \<Rightarrow> bool) \<Rightarrow> 'w \<Rightarrow> 'w \<Rightarrow> bool" where
  "system_reach env conn s db drv us uview keep \<equiv> (system_step env conn s db drv us uview keep)\<^sup>*\<^sup>*"

definition not_delete :: "user_call \<Rightarrow> bool" where
  "not_delete ucall \<longleftrightarrow> (\<forall>req. ucall \<noteq> CallDeleteUser req)"

lemma user_spec_dom:
  assumes "user_spec uuid_in m ucall reply m'" "not_delete ucall"
  shows "dom m \<subseteq> dom m'"
  using assms
  by (cases rule: user_spec.cases)
     (auto simp: not_delete_def user_inserted_def user_updated_def req_updated_def)

context linked_services
begin

lemma system_step_owned:
  assumes "system_step env conn s db drv us uview not_delete w w'"
    and owned: "orders_owned (users (uview w)) (db w)"
  shows "orders_owned (users (uview w')) (db w')"
  using assms(1)
proof cases
  case (order_call c call res)
  then show ?thesis using dispatch_owned owned by blast
next
  case (user_call ucall c reply)
  from usr.dispatch_refines [OF user_call(2)] user_call(1)
  have "dom (users (uview w)) \<subseteq> dom (users (uview w'))" by (rule user_spec_dom)
  with owned orders_owned_more user_call(3) show ?thesis by metis
qed

lemma system_reach_owned:
  assumes "system_reach env conn s db drv us uview not_delete w w'"
    and "orders_owned (users (uview w)) (db w)"
  shows "orders_owned (users (uview w')) (db w')"
  using assms by (induction rule: rtranclp_induct) (auto intro: system_step_owned)

end

end
