(* ===== verification/SystemProps.thy ===== *)
theory SystemProps
  imports TwoServices OrderProps
begin

text \<open>
  What the two services guarantee together: the reference from an order to its user, which no foreign
  key keeps. The executable system is the in-memory order backend with the user service behind its
  connection.
\<close>

section \<open>The executable system\<close>

abbreviation mem_user_server :: UserServiceServer where
  "mem_user_server \<equiv> NewUserServiceServer (NewUserRepository (Some 1))"

lemma mo_GetUser_users: "mem_table (mo_users (snd (mo_GetUser c req w))) = mem_table (mo_users w)"
proof (cases "GetUser mem_pgx mem_user_server c req (mo_users w)")
  case (Pair res u)
  from mem.GetUser_refines [OF Pair] have "mem_table u = mem_table (mo_users w)"
    by (auto elim: user_spec_getE)
  with Pair show ?thesis by (simp add: mo_GetUser_def split: sum.split)
qed

lemma mem_write_users [simp]: "mo_users (fold mem_write ws w) = mo_users w"
proof (induction ws arbitrary: w)
  case (Cons x ws)
  then show ?case by (cases x) simp_all
qed simp

lemma mo_QueryRow_users [simp]: "mo_users (snd (mo_QueryRow p c q args w)) = mo_users w"
  by (induction p c q args w rule: mo_QueryRow.induct)
     (auto simp: mem_select_order_def mem_cancel_order_def mem_count_def Let_def split: option.split)

lemma mo_tx_QueryRow_users [simp]: "mo_users (snd (mo_tx_QueryRow t c q args w)) = mo_users w"
  by (induction t c q args w rule: mo_tx_QueryRow.induct)
     (auto simp: mem_insert_order_def mem_push_def split: option.split)

lemma mo_tx_Exec_users [simp]: "mo_users (snd (mo_tx_Exec t c q args w)) = mo_users w"
  by (induction t c q args w rule: mo_tx_Exec.induct)
     (auto simp: mem_insert_item_def mem_push_def split: option.split)

interpretation ql: quiet_order "mem_env readonly lossy" "\<lambda>w. mem_table (mo_users w)" mem_conn
proof
  show "mem_table (mo_users (snd (rpc_GetUser mem_conn c req w))) = mem_table (mo_users w)" for c req w
    using mo_GetUser_users by (simp add: mem_conn_def)
qed (simp_all add: mem_env_defs mem_orders_pgx_defs mem_redis_defs mem_commit_def mo_Query_keeps)

interpretation ls: linked_services "mem_env False False" mem_uuid_in mem_numeric mem_db mem_pend False mem_kv
  mem_conn mem_pgx mem_table mo_users mem_user_server
proof unfold_locales
  show "\<exists>c' v v'. GetUser mem_pgx mem_user_server c' req v = (Inr resp, v') \<and> mem_table v = mem_table (mo_users w)"
    if "rpc_GetUser mem_conn c req w = (Inr resp, w')" for c req w resp w'
    using that by (auto simp: mem_conn_def mo_GetUser_def split: prod.splits sum.splits)
qed

section \<open>Orders and users\<close>

text \<open> (C10) No order without its user: the calls of both services other than \<open>DeleteUser\<close>, in any
  order and with any outcome, failed commits and lost acknowledgements included, keep every order
  with a registered user, although the two tables are in different databases.\<close>

theorem orders_belong_to_users:
  fixes env :: "'w order_env" and drv :: "'u pgx"
  assumes "linked_services env uuid_in numeric db pend lossy kv conn drv users uview us"
    and "system_reach env conn s db drv us uview not_delete w w'"
    and "orders_owned (users (uview w)) (db w)"
  shows "orders_owned (users (uview w')) (db w')"
  using assms by (rule linked_services.system_reach_owned)

text \<open>The order of the shop, after which another user registers.\<close>

definition grace_call :: user_call where
  "grace_call = CallCreateUser \<lparr>CreateUserRequest_Name = ''Grace'', CreateUserRequest_Email = ''grace@example.com''\<rparr>"

definition shop_after :: "user_call \<Rightarrow> mem_orders" where
  "shop_after ucall = shop1\<lparr>mo_users :=
     snd (UserService_dispatch mem_pgx mem_user_server Background ucall (mo_users shop1))\<rparr>"

lemma shop_after_step:
  "keep ucall \<Longrightarrow> system_step (mem_env False False) mem_conn mem_order_server mem_db mem_pgx mem_user_server mo_users
     keep shop1 (shop_after ucall)"
  by (rule system_step.user_call [where ucall = ucall and c = Background and
        reply = "fst (UserService_dispatch mem_pgx mem_user_server Background ucall (mo_users shop1))"])
     (simp_all add: shop_after_def)

lemma shop1_step:
  "system_step (mem_env False False) mem_conn mem_order_server mem_db mem_pgx mem_user_server mo_users keep shop shop1"
  by (rule system_step.order_call [where c = Background and call = "CallCreateOrder an_order"])
    (simp add: shop1_def apfst_def map_prod_def case_prod_unfold)

lemma orders_belong_to_users_witness:
  "orders_owned (mem_table (mo_users (shop_after grace_call))) (mem_db (shop_after grace_call)) \<and>
   od_orders (mem_db (shop_after grace_call)) (mem_uuid 7) \<noteq> None"
proof -
  have "system_reach (mem_env False False) mem_conn mem_order_server mem_db mem_pgx mem_user_server mo_users
      not_delete shop (shop_after grace_call)"
    using shop1_step [of not_delete] shop_after_step [of not_delete grace_call]
    by (simp add: not_delete_def grace_call_def)
  moreover have "orders_owned (mem_table (mo_users shop)) (mem_db shop)"
    by (simp add: orders_owned_def mem_db_orders shop_def)
  moreover have "od_orders (mem_db (shop_after grace_call)) (mem_uuid 7) \<noteq> None"
    unfolding mem_db_orders by code_simp
  ultimately show ?thesis using orders_belong_to_users [OF ls.linked_services_axioms] by blast
qed

text \<open>
  Deleting a user has to be left out: the user service knows nothing of orders, and an order outlives
  its user.
\<close>

theorem deletion_orphans_order:
  "let w = shop_after (CallDeleteUser \<lparr>DeleteUserRequest_Id = mem_uuid 1\<rparr>) in
   system_step (mem_env False False) mem_conn mem_order_server mem_db mem_pgx mem_user_server mo_users
     (\<lambda>_. True) shop1 w \<and> \<not> orders_owned (mem_table (mo_users w)) (mem_db w)"
proof -
  let ?w = "shop_after (CallDeleteUser \<lparr>DeleteUserRequest_Id = mem_uuid 1\<rparr>)"
  have "map_of (mo_orders ?w) (mem_uuid 7) =
      Some \<lparr>or_user = mem_uuid 1, or_status = ''PENDING'', or_total = Fin False 11, or_created = 1\<rparr>"
    by code_simp
  moreover have "mem_table (mo_users ?w) (mem_uuid 1) = None" by code_simp
  ultimately have "\<not> orders_owned (mem_table (mo_users ?w)) (mem_db ?w)"
    unfolding orders_owned_def mem_db_orders by fastforce
  with shop_after_step show ?thesis by (simp add: Let_def)
qed

section \<open>Calls through the interceptors\<close>






end
