(* ===== verification/Staleness.thy ===== *)
theory Staleness
  imports OrderService
begin

text \<open>
  How old an answer from the cache can be. Redis keeps its own clock and drops an entry when its time
  to live has passed; \<open>redis_ttl\<close> says so. Every entry then goes back to a read of the database at
  most \<open>orderCacheTTL\<close> ago, whether or not an invalidation in between failed or missed it.
\<close>

section \<open>What an operation preserves\<close>

text \<open>
  A predicate on the world that every call of the driver, of Redis other than \<open>SET\<close>, and of the user
  service preserves, is preserved by every operation that does not write to the cache.
\<close>

locale preserved_by_calls =
  fixes env :: "'w order_env" and conn :: "'w user_conn" and P :: "'w \<Rightarrow> bool"
  assumes P_QueryRow [simp]: "P w \<Longrightarrow> P (snd (pool_QueryRow (env_drv env) p c q a w))"
    and P_Query [simp]: "P w \<Longrightarrow> P (snd (pool_Query (env_drv env) p c q a w))"
    and P_Begin [simp]: "P w \<Longrightarrow> P (snd (pool_Begin (env_drv env) p c w))"
    and P_tx_QueryRow [simp]: "P w \<Longrightarrow> P (snd (tx_QueryRow (env_drv env) t c q a w))"
    and P_tx_Exec [simp]: "P w \<Longrightarrow> P (snd (tx_Exec (env_drv env) t c q a w))"
    and P_Commit [simp]: "P w \<Longrightarrow> P (snd (tx_Commit (env_drv env) t c w))"
    and P_Rollback [simp]: "P w \<Longrightarrow> P (tx_Rollback (env_drv env) t c w)"
    and P_uuid [simp]: "P w \<Longrightarrow> P (snd (env_uuid env w))"
    and P_Get [simp]: "P w \<Longrightarrow> P (snd (redis_Get (env_red env) p c k w))"
    and P_Del [simp]: "P w \<Longrightarrow> P (snd (redis_Del (env_red env) p c k w))"
    and P_rpc [simp]: "P w \<Longrightarrow> P (snd (rpc_GetUser conn c req w))"
begin

lemma P_cache_Get [simp]: "P w \<Longrightarrow> P (snd (OrderCache_Get (env_red env) js oc c i w))"
  by (simp add: OrderCache_Get_def case_prod_unfold split: redis_reply.split sum.split)

lemma P_cache_Invalidate [simp]: "P w \<Longrightarrow> P (OrderCache_Invalidate (env_red env) oc c i w)"
  by (simp add: OrderCache_Invalidate_def)

lemma P_Create_items [simp]: "P w \<Longrightarrow> P (snd (Create_items env tx c i items w))"
  by (induction items arbitrary: w) (simp_all add: case_prod_unfold split: option.split sum.split)

lemma P_Create_body [simp]: "P w \<Longrightarrow> P (snd (Create_body env tx c u items w))"
  by (simp add: Create_body_def case_prod_unfold split: option.split sum.split outcome.split)

lemma P_Create [simp]: "P w \<Longrightarrow> P (snd (OrderRepository_Create env r c u items w))"
  by (simp add: OrderRepository_Create_def Let_def case_prod_unfold split: sum.split)

lemma P_getItems [simp]: "P w \<Longrightarrow> P (snd (OrderRepository_getItems env r c i w))"
  by (simp add: OrderRepository_getItems_def Let_def case_prod_unfold split: sum.split)

lemma P_getFromDB [simp]: "P w \<Longrightarrow> P (snd (OrderRepository_getFromDB env r c i w))"
  by (simp add: OrderRepository_getFromDB_def Let_def case_prod_unfold split: option.split sum.split)

lemma P_List [simp]: "P w \<Longrightarrow> P (snd (OrderRepository_List env r c u pg ps w))"
  by (simp add: OrderRepository_List_def Let_def case_prod_unfold split: option.split sum.split)

lemma P_Cancel [simp]: "P w \<Longrightarrow> P (snd (OrderRepository_Cancel env r c i w))"
  by (simp add: OrderRepository_Cancel_def Let_def case_prod_unfold split: option.split sum.split)

lemma P_GetUser [simp]: "P w \<Longrightarrow> P (snd (UserClient_GetUser conn c i w))"
  by (simp add: UserClient_GetUser_def case_prod_unfold split: sum.split option.split)

lemma P_CreateOrder: "P w \<Longrightarrow> P (snd (CreateOrder env conn s c req w))"
  by (simp add: CreateOrder_def Let_def case_prod_unfold split: outcome.split option.split sum.split)

lemma P_ListOrders: "P w \<Longrightarrow> P (snd (ListOrders env s c req w))"
  by (simp add: ListOrders_def Let_def case_prod_unfold split: sum.split)

lemma P_CancelOrder: "P w \<Longrightarrow> P (snd (CancelOrder env s c req w))"
  by (simp add: CancelOrder_def case_prod_unfold split: option.split sum.split)

text \<open>A call other than \<open>GetOrder\<close>; and \<open>GetOrder\<close> up to its write to the cache, if it makes one.\<close>

lemma P_dispatch:
  "P w \<Longrightarrow> \<forall>req. call \<noteq> CallGetOrder req \<Longrightarrow> P (snd (OrderService_dispatch env conn s c call w))"
  using P_CreateOrder P_ListOrders P_CancelOrder by (cases call) auto

lemma P_Get_cases:
  assumes "P w" "OrderRepository_Get env r c i w = (res, w')"
  obtains (hit) order where "res = Inr (Some order)" "P w'"
      "OrderCache_Get (env_red env) (env_js env) (OrderRepository_cache r) c i w = (Inr (Some order), w')"
  | (read) w1 w2 where "P w2" "OrderRepository_getFromDB env r c i w1 = (res, w2)"
      "w1 = w \<or> w1 = snd (OrderCache_Get (env_red env) (env_js env) (OrderRepository_cache r) c i w)"
      "w' = w2 \<or> (\<exists>order. res = Inr (Some order) \<and>
         w' = snd (OrderCache_Set (env_red env) (env_js env) (OrderRepository_cache r) c order w2))"
proof -
  obtain g w1 where g: "OrderCache_Get (env_red env) (env_js env) (OrderRepository_cache r) c i w = (g, w1)" by fastforce
  have w1: "P w1" using P_cache_Get [OF assms(1), of "env_js env" "OrderRepository_cache r" c i] g by simp
  show ?thesis
  proof (cases "OrderRepository_rdb r \<noteq> None \<and> (\<exists>order. g = Inr (Some order))")
    case True
    with assms(2) g w1 hit show ?thesis by (auto simp: OrderRepository_Get_def)
  next
    case False
    define w0 where "w0 = (if OrderRepository_rdb r \<noteq> None then w1 else w)"
    have w0: "P w0" using assms(1) w1 by (simp add: w0_def)
    obtain q w2 where q: "OrderRepository_getFromDB env r c i w0 = (q, w2)" by fastforce
    have w2: "P w2" using P_getFromDB [OF w0, of r c i] q by simp
    have "(if OrderRepository_rdb r \<noteq> None
            then (case OrderCache_Get (env_red env) (env_js env) (OrderRepository_cache r) c i w of
                    (Inr (Some order), w') \<Rightarrow> (Some order, w')
                  | (_, w') \<Rightarrow> (None, w'))
            else (None, w)) = (None, w0)"
      using False g by (auto simp: w0_def split: sum.splits option.splits)
    with assms(2) q have "res = q" "w' = w2 \<or> (\<exists>order. res = Inr (Some order) \<and>
         w' = snd (OrderCache_Set (env_red env) (env_js env) (OrderRepository_cache r) c order w2))"
      by (cases q; auto simp: OrderRepository_Get_def split: option.splits if_splits)+
    with read [OF w2, of w0] q g show ?thesis by (simp add: w0_def)
  qed
qed

end

section \<open>Redis with its clock\<close>

text \<open>
  \<open>tkv w\<close> is the content of Redis with the time at which each entry ends, on the clock \<open>now\<close> of Redis.
  No operation turns the clock back; entries only go away, but for a \<open>SET\<close>, whose entry ends at the
  latest its time to live after it. A reply comes from an entry that has not ended.
\<close>

definition aged :: "('w \<Rightarrow> time) \<Rightarrow> ('w \<Rightarrow> string \<rightharpoonup> string \<times> time) \<Rightarrow> 'w \<Rightarrow> 'w \<Rightarrow> bool" where
  "aged now tkv w w' \<longleftrightarrow> now w \<le> now w' \<and> tkv w' \<subseteq>\<^sub>m tkv w"

locale redis_ttl =
  ord: order_world env uuid_in numeric db pend lossy kv conn
  for env :: "'w order_env" and uuid_in numeric db pend lossy kv and conn :: "'w user_conn" +
  fixes now :: "'w \<Rightarrow> time" and tkv :: "'w \<Rightarrow> string \<rightharpoonup> string \<times> time"
  assumes get_live: "redis_Get (env_red env) p c k w = (RData data, w') \<Longrightarrow>
      \<exists>e. tkv w k = Some (data, e) \<and> now w < e"
    and set_ttl: "redis_Set (env_red env) p c k data ttl w = (err, w') \<Longrightarrow> 0 < ttl \<Longrightarrow>
      now w \<le> now w' \<and> (tkv w' \<subseteq>\<^sub>m tkv w \<or> (\<exists>e \<le> now w' + ttl. tkv w' \<subseteq>\<^sub>m (tkv w)(k \<mapsto> (data, e))))"
    and calls_aged: "preserved_by_calls env conn (aged now tkv w0)"
begin

abbreviation run :: "OrderServiceServer \<Rightarrow> (ctx \<times> order_call) list \<Rightarrow> 'w \<Rightarrow> 'w" where
  "run s \<equiv> OrderService_run env conn s"

text \<open>
  The entry \<open>(data, e)\<close> under the key \<open>k\<close> goes back to the state \<open>v\<close>: it shows orders as they were then,
  and ends at most the time to live later.
\<close>

definition dates_from :: "'w \<Rightarrow> string \<Rightarrow> string \<times> time \<Rightarrow> bool" where
  "dates_from v k x \<longleftrightarrow> snd x \<le> now v + orderCacheTTL \<and>
     (\<forall>i order. k = OrderCache_key i \<longrightarrow> protojson_Unmarshal (env_js env) (fst x) = Inr order \<longrightarrow>
        shows_order lossy uuid_in (db v) i order)"

lemma aged_refl [simp]: "aged now tkv w w"
  by (simp add: aged_def)

end

sublocale redis_ttl \<subseteq> kept: preserved_by_calls env conn "aged now tkv w0" for w0
  by (rule calls_aged)

lemma OrderService_run_snoc:
  "OrderService_run env conn s (calls @ [call]) w =
     snd (OrderService_dispatch env conn s (fst call) (snd call) (OrderService_run env conn s calls w))"
  by (induction calls arbitrary: w; cases call) (auto split: prod.splits)

context redis_ttl
begin

text \<open>One call: the entries that are there afterwards were there before, or date from the new state.\<close>

lemma aged_entry: "aged now tkv w w' \<Longrightarrow> tkv w' k = Some x \<Longrightarrow> tkv w k = Some x"
  by (auto simp: aged_def dest: map_le_SomeD)

lemma orderCacheTTL_positive: "0 < orderCacheTTL"
  by (simp add: orderCacheTTL_def)

lemma Set_entries:
  assumes "OrderCache_Set (env_red env) (env_js env) oc c order w = (err, w')" "tkv w' k = Some x"
    and order: "shows_order lossy uuid_in (db w) i order"
  shows "tkv w k = Some x \<or> dates_from w' k x"
proof (cases "protojson_Marshal (env_js env) order")
  case (Inl e)
  with assms show ?thesis by (simp add: OrderCache_Set_def)
next
  case (Inr data)
  note dec = ord.ch.decode_encode [OF Inr shows_order_no_nil [OF order]]
  have db: "db w' = db w" using ord.cache_Set_db [of oc c order w] assms(1) by simp
  have "redis_Set (env_red env) (OrderCache_rdb oc) c (OrderCache_key (Order_Id order)) data orderCacheTTL w = (err, w')"
    using assms(1) Inr by (simp add: OrderCache_Set_def)
  from set_ttl [OF this] orderCacheTTL_positive consider "tkv w' \<subseteq>\<^sub>m tkv w"
    | e where "e \<le> now w' + orderCacheTTL" "tkv w' \<subseteq>\<^sub>m (tkv w)(OrderCache_key (Order_Id order) \<mapsto> (data, e))"
    by blast
  then show ?thesis
  proof cases
    case 1
    with assms(2) show ?thesis by (auto dest: map_le_SomeD)
  next
    case (2 e)
    from map_le_SomeD [OF 2(2) assms(2)] 2(1) dec db order shows_order_id [OF order] show ?thesis
      by (auto simp: dates_from_def split: if_splits)
  qed
qed

lemma Get_entries:
  assumes run: "OrderRepository_Get env r c i w = (res, w')" and x: "tkv w' k = Some x"
  shows "tkv w k = Some x \<or> dates_from w' k x"
proof (rule kept.P_Get_cases [OF aged_refl run])
  fix w1 w2
  assume w2: "aged now tkv w w2" and q: "OrderRepository_getFromDB env r c i w1 = (res, w2)"
    and w': "w' = w2 \<or> (\<exists>order. res = Inr (Some order) \<and>
       w' = snd (OrderCache_Set (env_red env) (env_js env) (OrderRepository_cache r) c order w2))"
  from w' show ?thesis
  proof (elim disjE exE conjE)
    fix order
    assume res: "res = Inr (Some order)"
      and set: "w' = snd (OrderCache_Set (env_red env) (env_js env) (OrderRepository_cache r) c order w2)"
    have "shows_order lossy uuid_in (db w2) i order"
      using ord.getFromDB_Some [OF q [unfolded res]] ord.getFromDB_keeps [OF q] by simp
    with Set_entries [OF _ x] set aged_entry [OF w2] show ?thesis by (metis prod.collapse)
  qed (use w2 x aged_entry in blast)
qed (use x aged_entry in blast)

lemma dispatch_entries:
  assumes "OrderService_dispatch env conn s c call w = (reply, w')" "tkv w' k = Some x"
  shows "tkv w k = Some x \<or> dates_from w' k x"
proof (cases "\<exists>req. call = CallGetOrder req")
  case True
  then obtain req where call: "call = CallGetOrder req" by blast
  with assms(1) have "w' = snd (GetOrder env s c req w)"
    by (auto simp: apfst_def map_prod_def split: prod.splits)
  then have "w' = w \<or> w' = snd (OrderRepository_Get env (OrderServiceServer_repo s) c (GetOrderRequest_Id req) w)"
    by (auto simp: GetOrder_def case_prod_unfold split: sum.splits option.splits if_splits)
  with Get_entries [OF _ assms(2)] assms(2) show ?thesis by (metis prod.collapse)
next
  case False
  then have "aged now tkv w w'"
    using kept.P_dispatch [OF aged_refl, of call w s c] assms(1) by simp
  with assms(2) aged_entry show ?thesis by blast
qed

text \<open>A run of calls from an empty cache: every entry dates from a state of the run.\<close>

lemma run_entries:
  assumes "tkv w0 = Map.empty" "tkv (run s calls w0) k = Some x"
  shows "\<exists>j \<le> length calls. dates_from (run s (take j calls) w0) k x"
  using assms(2)
proof (induction calls rule: rev_induct)
  case Nil
  with assms(1) show ?case by simp
next
  case (snoc call calls)
  let ?w = "run s calls w0"
  obtain reply where "OrderService_dispatch env conn s (fst call) (snd call) ?w = (reply, run s (calls @ [call]) w0)"
    unfolding OrderService_run_snoc by (metis prod.collapse)
  from dispatch_entries [OF this snoc.prems] show ?case
  proof
    assume "tkv ?w k = Some x"
    with snoc.IH obtain j where "j \<le> length calls" "dates_from (run s (take j calls) w0) k x" by blast
    then show ?thesis by (intro exI [of _ j]) simp
  next
    assume "dates_from (run s (calls @ [call]) w0) k x"
    then show ?thesis by (intro exI [of _ "length (calls @ [call])"]) simp
  qed
qed

lemma served_not_older:
  assumes empty: "tkv w0 = Map.empty"
    and get: "GetOrder env s c req (run s calls w0) = (Inr resp, w')" "GetOrderResponse_Order resp = Some order"
  shows "\<exists>j \<le> length calls.
    shows_order lossy uuid_in (db (run s (take j calls) w0)) (GetOrderRequest_Id req) order \<and>
    now (run s calls w0) < now (run s (take j calls) w0) + orderCacheTTL"
proof -
  let ?w = "run s calls w0" and ?r = "OrderServiceServer_repo s" and ?i = "GetOrderRequest_Id req"
  have "OrderRepository_Get env ?r c ?i ?w = (Inr (Some order), w')"
    using get by (auto simp: GetOrder_def split: if_splits prod.splits sum.splits option.splits)
  then show ?thesis
  proof (rule kept.P_Get_cases [OF aged_refl])
    fix order'
    assume "Inr (Some order) = (Inr (Some order') :: go_error + Order option)"
      and "OrderCache_Get (env_red env) (env_js env) (OrderRepository_cache ?r) c ?i ?w = (Inr (Some order'), w')"
    then obtain data p w2 where "redis_Get (env_red env) p c (OrderCache_key ?i) ?w = (RData data, w2)"
      and dec: "protojson_Unmarshal (env_js env) data = Inr order"
      by (auto simp: OrderCache_Get_def split: prod.splits redis_reply.splits sum.splits)
    from get_live [OF this(1)] obtain e where e: "tkv ?w (OrderCache_key ?i) = Some (data, e)" "now ?w < e" by blast
    from run_entries [OF empty e(1)] e(2) dec show ?thesis by (force simp: dates_from_def)
  next
    fix w1 w2
    assume q: "OrderRepository_getFromDB env ?r c ?i w1 = (Inr (Some order), w2)"
      and "w1 = ?w \<or> w1 = snd (OrderCache_Get (env_red env) (env_js env) (OrderRepository_cache ?r) c ?i ?w)"
    then have "db w1 = db ?w" using ord.cache_Get_db by (metis prod.collapse)
    with ord.getFromDB_Some [OF q] show ?thesis
      by (intro exI [of _ "length calls"]) (simp add: orderCacheTTL_def)
  qed
qed

end

end
