(* ===== verification/CacheProps.thy ===== *)
theory CacheProps
  imports Staleness OrderProps
begin

text \<open>
  The bound on the age of what the cache answers, with an executable Redis that has a clock: the
  in-memory backend, on which every call takes a millisecond, around which entries end in time and
  every \<open>DEL\<close> is refused.
\<close>

section \<open>The backend with a clock\<close>

record ttl_world =
  tw_base :: mem_orders
  tw_now :: time
  tw_ends :: "(string \<times> time) list"

definition tw_tick :: "ttl_world \<Rightarrow> ttl_world" where
  "tw_tick w = w\<lparr>tw_now := tw_now w + 1000000\<rparr>"

definition tw_tkv :: "ttl_world \<Rightarrow> string \<rightharpoonup> string \<times> time" where
  "tw_tkv w k =
     (case (mem_kv (tw_base w) k, map_of (tw_ends w) k) of
        (Some d, Some e) \<Rightarrow> if tw_now w < e then Some (d, e) else None
      | _ \<Rightarrow> None)"

definition tw_kv :: "ttl_world \<Rightarrow> string \<rightharpoonup> string" where
  "tw_kv w k = map_option fst (tw_tkv w k)"

definition tw_lift :: "(mem_orders \<Rightarrow> 'a \<times> mem_orders) \<Rightarrow> ttl_world \<Rightarrow> 'a \<times> ttl_world" where
  "tw_lift f w = (case f (tw_base w) of (r, b) \<Rightarrow> (r, tw_tick (w\<lparr>tw_base := b\<rparr>)))"

abbreviation base_env :: "mem_orders order_env" where
  "base_env \<equiv> mem_env False False"

abbreviation base_drv :: "mem_orders pgx" where
  "base_drv \<equiv> env_drv base_env"

definition tw_drv :: "ttl_world pgx" where
  "tw_drv =
    \<lparr>pool_QueryRow = \<lambda>p c q a. tw_lift (pool_QueryRow base_drv p c q a),
     pool_Query = \<lambda>p c q a. tw_lift (pool_Query base_drv p c q a),
     pool_Exec = \<lambda>p c q a. tw_lift (pool_Exec base_drv p c q a),
     pool_Begin = \<lambda>p c. tw_lift (pool_Begin base_drv p c),
     pool_Close = \<lambda>p w. w,
     tx_QueryRow = \<lambda>t c q a. tw_lift (tx_QueryRow base_drv t c q a),
     tx_Exec = \<lambda>t c q a. tw_lift (tx_Exec base_drv t c q a),
     tx_Commit = \<lambda>t c. tw_lift (tx_Commit base_drv t c),
     tx_Rollback = \<lambda>t c w. w\<lparr>tw_base := tx_Rollback base_drv t c (tw_base w)\<rparr>,
     scan_error = scan_error base_drv\<rparr>"

definition tw_Get :: "rdbref \<Rightarrow> ctx \<Rightarrow> string \<Rightarrow> ttl_world \<Rightarrow> redis_reply \<times> ttl_world" where
  "tw_Get p c k w = (case tw_tkv w k of None \<Rightarrow> RNil | Some (d, e) \<Rightarrow> RData d, tw_tick w)"

definition tw_Set ::
  "rdbref \<Rightarrow> ctx \<Rightarrow> string \<Rightarrow> string \<Rightarrow> duration \<Rightarrow> ttl_world \<Rightarrow> go_error option \<times> ttl_world" where
  "tw_Set p c k d ttl w =
     (None, w\<lparr>tw_base := snd (mo_redis_Set False p c k d ttl (tw_base w)),
              tw_ends := AList.update k (tw_now w + ttl) (tw_ends w)\<rparr>)"

definition tw_red :: "ttl_world redis" where
  "tw_red = \<lparr>redis_Get = tw_Get, redis_Set = tw_Set, redis_Del = \<lambda>p c k w. (Some ''NOPERM'', tw_tick w)\<rparr>"

definition tw_env :: "ttl_world order_env" where
  "tw_env = \<lparr>env_drv = tw_drv, env_red = tw_red, env_js = mem_json, env_uuid = tw_lift (env_uuid base_env)\<rparr>"

definition tw_conn :: "ttl_world user_conn" where
  "tw_conn = \<lparr>rpc_GetUser = \<lambda>c req. tw_lift (rpc_GetUser mem_conn c req),
              code_String = code_String mem_conn, rpc_error_text = rpc_error_text mem_conn\<rparr>"

lemma tw_simps [simp]:
  "env_drv tw_env = tw_drv" "env_red tw_env = tw_red" "env_js tw_env = mem_json"
  "env_uuid tw_env = tw_lift (env_uuid base_env)" "redis_Get tw_red = tw_Get" "redis_Set tw_red = tw_Set"
  "pool_QueryRow tw_drv p c q a = tw_lift (pool_QueryRow base_drv p c q a)"
  "pool_Query tw_drv p c q a = tw_lift (pool_Query base_drv p c q a)"
  "pool_Begin tw_drv p c = tw_lift (pool_Begin base_drv p c)"
  "tx_QueryRow tw_drv t c q a = tw_lift (tx_QueryRow base_drv t c q a)"
  "tx_Exec tw_drv t c q a = tw_lift (tx_Exec base_drv t c q a)"
  "tx_Commit tw_drv t c = tw_lift (tx_Commit base_drv t c)"
  "tx_Rollback tw_drv t c w = w\<lparr>tw_base := tx_Rollback base_drv t c (tw_base w)\<rparr>"
  "rpc_GetUser tw_conn c req = tw_lift (rpc_GetUser mem_conn c req)"
  by (simp_all add: tw_env_def tw_red_def tw_drv_def tw_conn_def)

lemma tw_tick_simps [simp]:
  "tw_base (tw_tick w) = tw_base w" "tw_now w \<le> tw_now (tw_tick w)" "tw_ends (tw_tick w) = tw_ends w"
  by (simp_all add: tw_tick_def)

section \<open>It keeps the promises\<close>

lemma tw_lift_cases: "tw_lift f w = (r, w') \<Longrightarrow> f (tw_base w) = (r, tw_base w')"
  by (auto simp: tw_lift_def split: prod.splits)

lemma tw_tkv_mono:
  assumes "mem_kv (tw_base w') \<subseteq>\<^sub>m mem_kv (tw_base w)" "tw_now w \<le> tw_now w'" "tw_ends w' = tw_ends w"
  shows "tw_tkv w' \<subseteq>\<^sub>m tw_tkv w"
  unfolding map_le_def
proof
  fix k assume "k \<in> dom (tw_tkv w')"
  then obtain d e where de: "mem_kv (tw_base w') k = Some d" "map_of (tw_ends w') k = Some e" "tw_now w' < e"
    by (auto simp: tw_tkv_def split: option.splits if_splits)
  with assms map_le_SomeD [OF assms(1) de(1)] show "tw_tkv w' k = tw_tkv w k" by (simp add: tw_tkv_def)
qed

lemma tw_kv_mono: "tw_tkv w' \<subseteq>\<^sub>m tw_tkv w \<Longrightarrow> tw_kv w' \<subseteq>\<^sub>m tw_kv w"
  by (auto simp: tw_kv_def map_le_def dom_def)

lemma tw_tick_aged: "aged tw_now tw_tkv w (tw_tick w)"
  by (simp add: aged_def tw_tkv_mono)

lemma tw_lift_aged:
  assumes "\<And>b. mem_kv (snd (f b)) \<subseteq>\<^sub>m mem_kv b"
  shows "aged tw_now tw_tkv w (snd (tw_lift f w))"
proof (cases "f (tw_base w)")
  case (Pair r b)
  with assms [of "tw_base w"] show ?thesis
    by (auto simp: aged_def tw_lift_def tw_tick_def intro: tw_tkv_mono)
qed

lemma aged_trans: "aged now tkv u v \<Longrightarrow> aged now tkv v w \<Longrightarrow> aged now tkv u w"
  by (auto simp: aged_def intro: map_le_trans)

lemma tw_pg_orders:
  "pg_orders tw_drv mem_uuid_in mem_numeric (\<lambda>w. mem_db (tw_base w)) (\<lambda>w. mem_pend (tw_base w)) False"
proof (unfold_locales; unfold tw_simps)
  show "mem_db (tw_base (w\<lparr>tw_base := tx_Rollback base_drv t c (tw_base w)\<rparr>)) = mem_db (tw_base w)" for w t c
    using mo.pg.rollback_keeps by simp
qed (drule tw_lift_cases, (rule mo.pg.begin_ok mo.pg.begin_error mo.pg.tx_order_ok mo.pg.tx_order_error mo.pg.tx_item_ok
       mo.pg.tx_item_error mo.pg.commit_ok mo.pg.commit_error mo.pg.order_keeps mo.pg.order_row mo.pg.order_none
       mo.pg.items_keeps mo.pg.items_rows mo.pg.cancel_row mo.pg.cancel_none mo.pg.cancel_error mo.pg.count_keeps
       mo.pg.count_row mo.pg.list_keeps mo.pg.list_rows; assumption))+

text \<open>Every call but \<open>SET\<close> lets entries only end.\<close>

lemma tw_calls_aged:
  "aged tw_now tw_tkv w (snd (tw_lift (pool_QueryRow base_drv p c q a) w))"
  "aged tw_now tw_tkv w (snd (tw_lift (pool_Query base_drv p c q a) w))"
  "aged tw_now tw_tkv w (snd (tw_lift (pool_Begin base_drv p c) w))"
  "aged tw_now tw_tkv w (snd (tw_lift (tx_QueryRow base_drv t c q a) w))"
  "aged tw_now tw_tkv w (snd (tw_lift (tx_Exec base_drv t c q a) w))"
  "aged tw_now tw_tkv w (snd (tw_lift (tx_Commit base_drv t c) w))"
  "aged tw_now tw_tkv w (snd (tw_lift (env_uuid base_env) w))"
  "aged tw_now tw_tkv w (snd (tw_lift (rpc_GetUser mem_conn c req) w))"
  by (rule tw_lift_aged, rule mo.query_row_kv mo.query_kv mo.begin_kv mo.tx_query_row_kv mo.tx_exec_kv
      mo.commit_kv mo.uuid_kv mo.rpc_kv)+

lemma tw_other_calls_aged:
  "aged tw_now tw_tkv w (w\<lparr>tw_base := tx_Rollback base_drv t c (tw_base w)\<rparr>)"
  "aged tw_now tw_tkv w (snd (tw_Get p c k w))"
  "aged tw_now tw_tkv w (snd (redis_Del tw_red p c k w))"
  using mo.rollback_kv by (simp_all add: tw_Get_def tw_red_def tw_tick_aged aged_def tw_tkv_mono)

lemma aged_kv: "aged tw_now tw_tkv w w' \<Longrightarrow> tw_kv w' \<subseteq>\<^sub>m tw_kv w"
  by (simp add: aged_def tw_kv_mono)

lemma tw_Set_tkv:
  "tw_tkv (snd (tw_Set p c k d ttl w)) \<subseteq>\<^sub>m (tw_tkv w)(k \<mapsto> (d, tw_now w + ttl))"
  by (auto simp: map_le_def tw_Set_def tw_tkv_def mo_redis_Set_def mem_kv_def update_conv' dom_def
      split: option.splits if_splits)

lemma tw_kv_upd:
  assumes "tw_tkv w' \<subseteq>\<^sub>m (tw_tkv w)(k \<mapsto> (d, e))"
  shows "tw_kv w' \<subseteq>\<^sub>m (tw_kv w)(k \<mapsto> d)"
  unfolding map_le_def
proof
  fix x assume "x \<in> dom (tw_kv w')"
  then obtain y where y: "tw_tkv w' x = Some y" by (auto simp: tw_kv_def)
  from map_le_SomeD [OF assms y] y show "tw_kv w' x = ((tw_kv w)(k \<mapsto> d)) x"
    by (auto simp: tw_kv_def split: if_splits)
qed

lemma tw_order_cache: "order_cache tw_red tw_kv mem_json"
proof unfold_locales
  show "tw_kv w k = Some data" if "redis_Get tw_red p c k w = (RData data, w')" for p c k w data w'
    using that by (auto simp: tw_Get_def tw_kv_def split: option.splits)
  show "tw_kv w' \<subseteq>\<^sub>m tw_kv w" if "redis_Get tw_red p c k w = (rep, w')" for p c k w rep w'
    using that tw_other_calls_aged(2) [of w p c k] aged_kv by simp
  show "tw_kv w' \<subseteq>\<^sub>m (tw_kv w)(k \<mapsto> data) \<or> (err \<noteq> None \<and> tw_kv w' \<subseteq>\<^sub>m tw_kv w)"
    if "redis_Set tw_red p c k data ttl w = (err, w')" for p c k data ttl w err w'
    using that tw_kv_upd [OF tw_Set_tkv [of p c k data ttl w]] by simp
  show "tw_kv w' \<subseteq>\<^sub>m tw_kv w" if "redis_Del tw_red p c k w = (Some e, w')" for p c k w e w'
    using that tw_other_calls_aged(3) [of w p c k] aged_kv by simp
qed (simp_all add: tw_red_def)

lemma tw_keeps_db: "(\<And>b. mem_db (snd (f b)) = mem_db b) \<Longrightarrow> mem_db (tw_base (snd (tw_lift f w))) = mem_db (tw_base w)"
  by (simp add: tw_lift_def case_prod_unfold)

interpretation tw: order_world tw_env mem_uuid_in mem_numeric "\<lambda>w. mem_db (tw_base w)" "\<lambda>w. mem_pend (tw_base w)"
  False tw_kv tw_conn
proof (intro order_world.intro order_backend.intro order_backend_axioms.intro order_world_axioms.intro; unfold tw_simps)
  show "pg_orders tw_drv mem_uuid_in mem_numeric (\<lambda>w. mem_db (tw_base w)) (\<lambda>w. mem_pend (tw_base w)) False"
    by (rule tw_pg_orders)
  show "order_cache tw_red tw_kv mem_json" by (rule tw_order_cache)
  show "mem_db (tw_base w') = mem_db (tw_base w) \<and> mem_pend (tw_base w') = mem_pend (tw_base w) \<and> mem_uuid_in i = Some i"
    if "tw_lift (env_uuid base_env) w = (i, w')" for w i w'
    using mo.uuid_keeps [OF tw_lift_cases [OF that]] .
  show "mem_db (tw_base (snd (tw_lift (rpc_GetUser mem_conn c req) w))) = mem_db (tw_base w)" for c req w
    using mo.rpc_db by (rule tw_keeps_db)
qed (use aged_kv tw_calls_aged tw_other_calls_aged in \<open>auto simp: tw_Get_def tw_Set_def tw_red_def mo_redis_Set_def\<close>)

interpretation twt: redis_ttl tw_env mem_uuid_in mem_numeric "\<lambda>w. mem_db (tw_base w)" "\<lambda>w. mem_pend (tw_base w)"
  False tw_kv tw_conn tw_now tw_tkv
proof (rule redis_ttl.intro [OF tw.order_world_axioms], rule redis_ttl_axioms.intro; (unfold tw_simps)?)
  show "\<exists>e. tw_tkv w k = Some (data, e) \<and> tw_now w < e" if "tw_Get p c k w = (RData data, w')" for p c k w data w'
    using that by (auto simp: tw_Get_def tw_tkv_def split: option.splits if_splits)
  show "tw_now w \<le> tw_now w' \<and> (tw_tkv w' \<subseteq>\<^sub>m tw_tkv w \<or>
      (\<exists>e \<le> tw_now w' + ttl. tw_tkv w' \<subseteq>\<^sub>m (tw_tkv w)(k \<mapsto> (data, e))))"
    if "tw_Set p c k data ttl w = (err, w')" "0 < ttl" for p c k data ttl w err w'
  proof -
    have "tw_now w' = tw_now w" using that by (auto simp: tw_Set_def)
    with tw_Set_tkv [of p c k data ttl w] that show ?thesis by auto
  qed
  show "preserved_by_calls tw_env tw_conn (aged tw_now tw_tkv w0)" for w0
    by unfold_locales (simp_all, (erule aged_trans, rule tw_calls_aged tw_other_calls_aged)+)
qed

section \<open>The bound\<close>

text \<open> (C11) Bounded staleness: from an empty cache, after any sequence of calls, an order that \<open>GetOrder\<close>
  answers with shows the store as it was after some earlier call less than five minutes of Redis's
  clock ago (with items missing only where a row stream broke). That holds whatever fails, so also where a cancellation could not invalidate the entry
  or invalidated another spelling of the identifier.\<close>

theorem staleness_bounded:
  fixes env :: "'w order_env"
  assumes "redis_ttl env uuid_in numeric db pend lossy kv conn now tkv"
    and "tkv w0 = Map.empty" "w = OrderService_run env conn s calls w0"
    and "GetOrder env s c req w = (Inr resp, w')" "GetOrderResponse_Order resp = Some order"
  shows "\<exists>j \<le> length calls. let v = OrderService_run env conn s (take j calls) w0 in
    shows_order lossy uuid_in (db v) (GetOrderRequest_Id req) order \<and> now w < now v + 5 * time_Minute"
  using redis_ttl.served_not_older [OF assms(1,2), of s c req calls resp w' order] assms(3-5)
  by (simp add: Let_def orderCacheTTL_def)

text \<open>The cancelled order is still answered as pending, since the \<open>DEL\<close> was refused.\<close>

definition stale_calls :: "(ctx \<times> order_call) list" where
  "stale_calls = [(Background, CallCreateOrder an_order), (Background, CallGetOrder (get_req (mem_uuid 7))),
     (Background, CallCancelOrder (cancel_req (mem_uuid 7)))]"

definition stale_run :: "(ctx \<times> order_call) list \<Rightarrow> ttl_world" where
  "stale_run calls =
     OrderService_run tw_env tw_conn mem_order_server calls \<lparr>tw_base = shop, tw_now = 0, tw_ends = []\<rparr>"

lemma stale_get:
  "fst (GetOrder tw_env mem_order_server Background (get_req (mem_uuid 7)) (stale_run stale_calls)) =
     Inr \<lparr>GetOrderResponse_Order = Some (shown_order ORDER_STATUS_PENDING)\<rparr>"
  by code_simp

lemma staleness_bounded_witness:
  "\<exists>j \<le> 3. shows_order False mem_uuid_in (mem_db (tw_base (stale_run (take j stale_calls)))) (mem_uuid 7)
       (shown_order ORDER_STATUS_PENDING) \<and>
     tw_now (stale_run stale_calls) < tw_now (stale_run (take j stale_calls)) + 5 * time_Minute"
proof -
  have l: "length stale_calls = 3" by (simp add: stale_calls_def)
  have e: "tw_tkv \<lparr>tw_base = shop, tw_now = 0, tw_ends = []\<rparr> = Map.empty"
    by (simp add: fun_eq_iff tw_tkv_def split: option.split)
  have "GetOrder tw_env mem_order_server Background (get_req (mem_uuid 7)) (stale_run stale_calls) =
      (Inr \<lparr>GetOrderResponse_Order = Some (shown_order ORDER_STATUS_PENDING)\<rparr>,
       snd (GetOrder tw_env mem_order_server Background (get_req (mem_uuid 7)) (stale_run stale_calls)))"
    using stale_get by (metis prod.collapse)
  from staleness_bounded [OF twt.redis_ttl_axioms e stale_run_def this] show ?thesis
    unfolding Let_def stale_run_def [symmetric] l by simp
qed

end
