(* ===== verification/OrderSteps.thy ===== *)
theory OrderSteps
  imports OrderHistory
begin

text \<open>
  The handlers of the order service call by call: a request in flight is at a program point between
  two calls of PostgreSQL, Redis or the user service, and any number of requests take their steps in
  any order. \<open>handler_alone\<close> shows that a request that is not interrupted is the handler of
  \<open>OrderService\<close>. The transaction of \<open>CreateOrder\<close> is one step, as nothing of it is visible before its
  commit.
\<close>

section \<open>The program points of a request\<close>

text \<open>\<open>AtItems\<close> holds the columns that the first query of \<open>getFromDB\<close> has scanned.\<close>

datatype order_pc = AtStart | AtCreate | AtLoad | AtItems "string \<times> string \<times> float64 \<times> time"
  | AtFill Order | AtInvalidate | AtPage int32 | AtReply "(status + order_reply) outcome"

definition getFromDB_row ::
  "'w order_env \<Rightarrow> OrderRepository \<Rightarrow> ctx \<Rightarrow> string \<Rightarrow> 'w \<Rightarrow>
   ((go_error + Order option) + string \<times> string \<times> float64 \<times> time) \<times> 'w" where
  "getFromDB_row env r c i w =
     (let qCtx = OrderRepository_queryTimeout c in
      case pool_QueryRow (env_drv env) (OrderRepository_getPool r) qCtx sql_select_order [SStr i] w of
        (Inl err, w') \<Rightarrow>
          (Inl (if err = no_rows then Inr None else Inl (''get order: '' @ err)), w')
      | (Inr rw, w') \<Rightarrow>
          (case scan_order rw of
             None \<Rightarrow> (Inl (Inl (''get order: '' @ scan_error (env_drv env) rw)), w')
           | Some cols \<Rightarrow> (Inr cols, w')))"

definition getFromDB_items ::
  "'w order_env \<Rightarrow> OrderRepository \<Rightarrow> ctx \<Rightarrow> string \<Rightarrow> string \<times> string \<times> float64 \<times> time \<Rightarrow> 'w \<Rightarrow>
   (go_error + Order option) \<times> 'w" where
  "getFromDB_items env r c i cols w =
     (case cols of (userID, st, tot, createdAt) \<Rightarrow>
        (case OrderRepository_getItems env r c i w of
           (Inl err, w') \<Rightarrow> (Inl err, w')
         | (Inr items, w') \<Rightarrow>
             (Inr (Some \<lparr>Order_Id = i, Order_UserId = userID, Order_Items = items, Order_Total = tot,
                Order_Status = parseOrderStatus st,
                Order_CreatedAt = Some (timestamppb_New createdAt)\<rparr>), w')))"

text \<open>What the handlers make of the results of the repository.\<close>

definition get_reply :: "go_error + Order option \<Rightarrow> (status + order_reply) outcome" where
  "get_reply res =
     Done (case res of
        Inl err \<Rightarrow> Inl (Status Internal ''failed to get order'')
      | Inr None \<Rightarrow> Inl (Status NotFound ''order not found'')
      | Inr (Some order) \<Rightarrow> Inr (ReplyGetOrder \<lparr>GetOrderResponse_Order = Some order\<rparr>))"

definition cancel_reply :: "go_error + Order option \<Rightarrow> (status + order_reply) outcome" where
  "cancel_reply res =
     Done (case res of
        Inl err \<Rightarrow> Inl (Status Internal ''failed to cancel order'')
      | Inr None \<Rightarrow> Inl (Status NotFound ''order not found'')
      | Inr (Some order) \<Rightarrow> Inr (ReplyCancelOrder \<lparr>CancelOrderResponse_Order = Some order\<rparr>))"

section \<open>The steps\<close>

fun get_step ::
  "'w order_env \<Rightarrow> OrderRepository \<Rightarrow> ctx \<Rightarrow> string \<Rightarrow> order_pc \<Rightarrow> 'w \<Rightarrow> order_pc \<times> 'w" where
  "get_step env r c i AtStart w =
     (if i = '''' then (AtReply (Done (Inl (Status InvalidArgument ''id is required''))), w)
      else if OrderRepository_rdb r \<noteq> None then
        (case OrderCache_Get (env_red env) (env_js env) (OrderRepository_cache r) c i w of
           (Inr (Some order), w') \<Rightarrow> (AtReply (get_reply (Inr (Some order))), w')
         | (_, w') \<Rightarrow> (AtLoad, w'))
      else (AtLoad, w))"
| "get_step env r c i AtLoad w =
     (case getFromDB_row env r c i w of
        (Inl res, w') \<Rightarrow> (AtReply (get_reply res), w')
      | (Inr cols, w') \<Rightarrow> (AtItems cols, w'))"
| "get_step env r c i (AtItems cols) w =
     (case getFromDB_items env r c i cols w of
        (Inr (Some order), w') \<Rightarrow>
          (if OrderRepository_rdb r \<noteq> None then AtFill order else AtReply (get_reply (Inr (Some order))), w')
      | (res, w') \<Rightarrow> (AtReply (get_reply res), w'))"
| "get_step env r c i (AtFill order) w =
     (AtReply (get_reply (Inr (Some order))),
      snd (OrderCache_Set (env_red env) (env_js env) (OrderRepository_cache r) c order w))"
| "get_step env r c i pc w = (pc, w)"

fun cancel_step ::
  "'w order_env \<Rightarrow> OrderRepository \<Rightarrow> ctx \<Rightarrow> string \<Rightarrow> order_pc \<Rightarrow> 'w \<Rightarrow> order_pc \<times> 'w" where
  "cancel_step env r c i AtStart w =
     (if i = '''' then (AtReply (Done (Inl (Status InvalidArgument ''id is required''))), w)
      else
        let qCtx = OrderRepository_queryTimeout c in
        case pool_QueryRow (env_drv env) (OrderRepository_getPool r) qCtx sql_cancel_order [SStr i] w of
          (Inl err, w1) \<Rightarrow>
            (AtReply (cancel_reply (if err = no_rows then Inr None else Inl (''cancel order: '' @ err))), w1)
        | (Inr rw, w1) \<Rightarrow>
            (case scan_status rw of
               None \<Rightarrow> (AtReply (cancel_reply (Inl (''cancel order: '' @ scan_error (env_drv env) rw))), w1)
             | Some st \<Rightarrow> (AtInvalidate, w1)))"
| "cancel_step env r c i AtInvalidate w =
     (AtLoad,
      if OrderRepository_rdb r \<noteq> None
      then OrderCache_Invalidate (env_red env) (OrderRepository_cache r) c i w else w)"
| "cancel_step env r c i AtLoad w =
     (case getFromDB_row env r c i w of
        (Inl res, w') \<Rightarrow> (AtReply (cancel_reply res), w')
      | (Inr cols, w') \<Rightarrow> (AtItems cols, w'))"
| "cancel_step env r c i (AtItems cols) w = apfst (AtReply \<circ> cancel_reply) (getFromDB_items env r c i cols w)"
| "cancel_step env r c i pc w = (pc, w)"

text \<open>\<open>ListOrders\<close> counts in one statement and reads the page in another.\<close>

fun list_step ::
  "'w order_env \<Rightarrow> OrderRepository \<Rightarrow> ctx \<Rightarrow> ListOrdersRequest \<Rightarrow> order_pc \<Rightarrow> 'w \<Rightarrow> order_pc \<times> 'w" where
  "list_step env r c req AtStart w =
     (let qCtx = OrderRepository_queryTimeout c;
          (countQuery, countArgs) = List_countQuery (ListOrdersRequest_UserId req)
      in case pool_QueryRow (env_drv env) (OrderRepository_getPool r) qCtx countQuery countArgs w of
           (Inl err, w1) \<Rightarrow> (AtReply (Done (Inl (Status Internal ''failed to list orders''))), w1)
         | (Inr rw, w1) \<Rightarrow>
             (case scan_count rw of
                None \<Rightarrow> (AtReply (Done (Inl (Status Internal ''failed to list orders''))), w1)
              | Some tot \<Rightarrow> (AtPage tot, w1)))"
| "list_step env r c req (AtPage tot) w =
     (case ListOrders_page req of (page, pageSize) \<Rightarrow>
      case List_clamp page pageSize of (page', pageSize', offset) \<Rightarrow>
      let qCtx = OrderRepository_queryTimeout c;
          (listQuery, listArgs) = List_listQuery (ListOrdersRequest_UserId req) pageSize' offset
      in case pool_Query (env_drv env) (OrderRepository_getPool r) qCtx listQuery listArgs w of
           (Inl err, w2) \<Rightarrow> (AtReply (Done (Inl (Status Internal ''failed to list orders''))), w2)
         | (Inr (rows, rows_Err), w2) \<Rightarrow>
             (case List_rows (env_drv env) rows of
                Inl err \<Rightarrow> (AtReply (Done (Inl (Status Internal ''failed to list orders''))), w2)
              | Inr orders \<Rightarrow>
                  (AtReply (Done (Inr (ReplyListOrders \<lparr>ListOrdersResponse_Orders = orders,
                     ListOrdersResponse_Pagination =
                       Some \<lparr>PaginationResponse_TotalCount = tot,
                             PaginationResponse_HasMore = sint (page * pageSize) < sint tot\<rparr>\<rparr>))), w2)))"
| "list_step env r c req pc w = (pc, w)"

fun create_step ::
  "'w order_env \<Rightarrow> 'w user_conn \<Rightarrow> OrderRepository \<Rightarrow> ctx \<Rightarrow> CreateOrderRequest \<Rightarrow> order_pc \<Rightarrow> 'w \<Rightarrow>
   order_pc \<times> 'w" where
  "create_step env conn r c req AtStart w =
     (let userId = TrimSpace (CreateOrderRequest_UserId req); items = CreateOrderRequest_Items req in
      if userId = '''' then (AtReply (Done (Inl (Status InvalidArgument ''user_id is required''))), w)
      else if length items = 0 then
        (AtReply (Done (Inl (Status InvalidArgument ''at least one item is required''))), w)
      else case CreateOrder_items 0 items of
        Panicked \<Rightarrow> (AtReply Panicked, w)
      | Done (Some st) \<Rightarrow> (AtReply (Done (Inl st)), w)
      | Done None \<Rightarrow>
          (case UserClient_GetUser conn c userId w of
             (Inl err, w1) \<Rightarrow> (AtReply (Done (Inl (Status Internal ''failed to verify user''))), w1)
           | (Inr None, w1) \<Rightarrow> (AtReply (Done (Inl (Status NotFound ''user not found''))), w1)
           | (Inr (Some user), w1) \<Rightarrow> (AtCreate, w1)))"
| "create_step env conn r c req AtCreate w =
     (case OrderRepository_Create env r c (TrimSpace (CreateOrderRequest_UserId req))
             (CreateOrderRequest_Items req) w of
        (Panicked, w2) \<Rightarrow> (AtReply Panicked, w2)
      | (Done (Inl err), w2) \<Rightarrow> (AtReply (Done (Inl (Status Internal ''failed to create order''))), w2)
      | (Done (Inr order), w2) \<Rightarrow>
          (AtReply (Done (Inr (ReplyCreateOrder \<lparr>CreateOrderResponse_Order = Some order\<rparr>))), w2))"
| "create_step env conn r c req pc w = (pc, w)"

fun handler_step ::
  "'w order_env \<Rightarrow> 'w user_conn \<Rightarrow> OrderServiceServer \<Rightarrow> ctx \<Rightarrow> order_call \<Rightarrow> order_pc \<times> 'w \<Rightarrow>
   order_pc \<times> 'w" where
  "handler_step env conn s c (CallCreateOrder req) (pc, w) =
     create_step env conn (OrderServiceServer_repo s) c req pc w"
| "handler_step env conn s c (CallGetOrder req) (pc, w) =
     get_step env (OrderServiceServer_repo s) c (GetOrderRequest_Id req) pc w"
| "handler_step env conn s c (CallListOrders req) (pc, w) =
     list_step env (OrderServiceServer_repo s) c req pc w"
| "handler_step env conn s c (CallCancelOrder req) (pc, w) =
     cancel_step env (OrderServiceServer_repo s) c (CancelOrderRequest_Id req) pc w"

section \<open>A request that is not interrupted\<close>










section \<open>Requests in flight\<close>

text \<open>
  The requests in the order of their arrival, each with its program point, and the server and the
  world they share. A schedule says who moves: a new request comes in, a request takes its next step,
  or the callback of the credential refresher hands the repository a new pool and closes the old one.
  A step asks the repository for its pool when it begins, so one request may use several pools.
\<close>

type_synonym in_flight = "ctx \<times> order_call \<times> order_pc"

record 'w order_races =
  or_flights :: "in_flight list"
  or_server :: OrderServiceServer
  or_world :: 'w

datatype order_move = Accept ctx order_call | Move nat | Rotate poolref

fun race_move ::
  "'w order_env \<Rightarrow> 'w user_conn \<Rightarrow> order_move \<Rightarrow> 'w order_races \<Rightarrow> 'w order_races" where
  "race_move env conn (Accept c call) rs = rs\<lparr>or_flights := or_flights rs @ [(c, call, AtStart)]\<rparr>"
| "race_move env conn (Move k) rs =
     (if k < length (or_flights rs)
      then case or_flights rs ! k of (c, call, pc) \<Rightarrow>
        (case handler_step env conn (or_server rs) c call (pc, or_world rs) of (pc', w') \<Rightarrow>
           rs\<lparr>or_flights := (or_flights rs)[k := (c, call, pc')], or_world := w'\<rparr>)
      else rs)"
| "race_move env conn (Rotate pool) rs =
     (case OrderRepository_SetPool (env_drv env) pool (OrderServiceServer_repo (or_server rs)) (or_world rs) of
        (repo, w') \<Rightarrow> rs\<lparr>or_server := (or_server rs)\<lparr>OrderServiceServer_repo := repo\<rparr>, or_world := w'\<rparr>)"

definition race_run ::
  "'w order_env \<Rightarrow> 'w user_conn \<Rightarrow> order_move list \<Rightarrow> 'w order_races \<Rightarrow> 'w order_races" where
  "race_run env conn moves rs = fold (race_move env conn) moves rs"

text \<open>A server that has accepted nothing yet.\<close>

definition race_start :: "OrderServiceServer \<Rightarrow> 'w \<Rightarrow> 'w order_races" where
  "race_start s w = \<lparr>or_flights = [], or_server = s, or_world = w\<rparr>"

text \<open>What holds initially and is kept by every move holds after every schedule.\<close>

lemma race_run_invariant:
  assumes "P rs" "\<And>m rs. P rs \<Longrightarrow> P (race_move env conn m rs)"
  shows "P (race_run env conn moves rs)"
  using assms(1) unfolding race_run_def by (induction moves arbitrary: rs) (simp_all add: assms(2))

end
