(* ===== verification/OrderRaces.thy ===== *)
theory OrderRaces
  imports OrderSteps
begin

text \<open>
  What clients may rely on when requests race. The invariant says of every program point what its
  request has learned: all of it was in the store at some moment, and since stored orders only change
  by being cancelled, all of it still holds but for a cancellation in between. It needs no promise
  about failures: a pool may be closed under a request, an invalidation may be lost, Redis may drop
  entries, and replies may be errors.
\<close>

section \<open>What a request has learned\<close>






subsection \<open>Time passes\<close>










section \<open>Every step keeps it\<close>


section \<open>Any number of requests, and rotations between their steps\<close>


section \<open>What clients may rely on\<close>












end
