(* ===== verification/OrderTyping.thy ===== *)
theory OrderTyping
  imports OrderHistory
begin

text \<open>
  A typing of the order store and of the messages, in the manner of a type system: every stored order
  has what the handlers have checked, no item is stored without its order, the handlers keep this, and
  over a well-typed store every reply is a well-typed message.
\<close>

section \<open>Well-typed stores and messages\<close>

text \<open>What \<open>NUMERIC(10,2)\<close> does to a number does not turn its sign; magnitudes stay magnitudes.\<close>

locale numeric_column =
  fixes numeric :: "float64 \<Rightarrow> float64 option"
  assumes numeric_wf: "numeric x = Some y \<Longrightarrow> wf64 x \<Longrightarrow> wf64 y"
    and numeric_sign: "numeric x = Some y \<Longrightarrow> wf64 x \<Longrightarrow> not_negative x \<Longrightarrow> not_negative y"

definition item_ok :: "OrderItem \<Rightarrow> bool" where
  "item_ok it \<longleftrightarrow> item_error it = None \<and> wf64 (OrderItem_UnitPrice it)"

definition row_ok :: "(string \<Rightarrow> string option) \<Rightarrow> order_row \<Rightarrow> bool" where
  "row_ok uuid_in r \<longleftrightarrow> or_user r \<in> ran uuid_in \<and>
     parseOrderStatus (or_status r) \<noteq> ORDER_STATUS_UNSPECIFIED \<and> not_negative (or_total r)"

fun slot_ok :: "(string \<Rightarrow> string option) \<Rightarrow> string \<Rightarrow> order_row option \<Rightarrow> OrderItem multiset \<Rightarrow> bool" where
  "slot_ok uuid_in u None its \<longleftrightarrow> its = {#}"
| "slot_ok uuid_in u (Some r) its \<longleftrightarrow>
     uuid_in u = Some u \<and> row_ok uuid_in r \<and> its \<noteq> {#} \<and> (\<forall>it \<in># its. item_ok it)"

definition store_ok :: "(string \<Rightarrow> string option) \<Rightarrow> orders_db \<Rightarrow> bool" where
  "store_ok uuid_in d \<longleftrightarrow> (\<forall>u. slot_ok uuid_in u (od_orders d u) (od_items d u))"

lemma store_ok_slot: "store_ok uuid_in d \<Longrightarrow> od_orders d u = x \<Longrightarrow> slot_ok uuid_in u x (od_items d u)"
  by (auto simp: store_ok_def)

lemma parse_written_status [simp]:
  "parseOrderStatus ''PENDING'' = ORDER_STATUS_PENDING" "parseOrderStatus ''CANCELLED'' = ORDER_STATUS_CANCELLED"
  by (simp_all add: parseOrderStatus_def)

text \<open>A message: no nil item, only items that would pass validation, a known status, a time.\<close>

definition order_ok :: "Order \<Rightarrow> bool" where
  "order_ok order \<longleftrightarrow> (\<forall>x \<in> set (Order_Items order). \<exists>it. x = Some it \<and> item_ok it) \<and>
     Order_Status order \<noteq> ORDER_STATUS_UNSPECIFIED \<and> Order_CreatedAt order \<noteq> None \<and>
     not_negative (Order_Total order)"

fun reply_ok :: "bool \<Rightarrow> order_reply \<Rightarrow> bool" where
  "reply_ok lossy (ReplyCreateOrder resp) \<longleftrightarrow>
     (\<exists>order. CreateOrderResponse_Order resp = Some order \<and> order_ok order \<and> Order_Items order \<noteq> [])"
| "reply_ok lossy (ReplyGetOrder resp) \<longleftrightarrow>
     (\<exists>order. GetOrderResponse_Order resp = Some order \<and> order_ok order \<and> (Order_Items order = [] \<longrightarrow> lossy))"
| "reply_ok lossy (ReplyListOrders resp) \<longleftrightarrow>
     (\<forall>order \<in> set (ListOrdersResponse_Orders resp). order_ok order) \<and> ListOrdersResponse_Pagination resp \<noteq> None"
| "reply_ok lossy (ReplyCancelOrder resp) \<longleftrightarrow>
     (\<exists>order. CancelOrderResponse_Order resp = Some order \<and> order_ok order \<and> (Order_Items order = [] \<longrightarrow> lossy))"

text \<open>A request that a client can build without a nil item; its prices are float64 values.\<close>

fun request_ok :: "order_call \<Rightarrow> bool" where
  "request_ok (CallCreateOrder req) \<longleftrightarrow>
     (\<forall>x \<in> set (CreateOrderRequest_Items req). \<exists>it. x = Some it \<and> wf64 (OrderItem_UnitPrice it))"
| "request_ok _ \<longleftrightarrow> True"

section \<open>Preservation\<close>

lemma item_ok_total:
  assumes "\<forall>it \<in> set its. item_ok it"
  shows "not_negative (order_total its) \<and> wf64 (order_total its)"
proof
  show "not_negative (order_total its)"
    using assms order_total_not_negative [of its fzero] by (simp add: order_total_def item_ok_def)
  have "wf64 t \<Longrightarrow> wf64 (foldl (\<lambda>t it. fadd t
      (fmul (float_of_int (sint (OrderItem_Quantity it))) (OrderItem_UnitPrice it))) t its)" for t
    using assms
  proof (induction its arbitrary: t)
    case (Cons it its)
    have "wf64 (float_of_int (sint (OrderItem_Quantity it)))" by (simp add: float_of_int_def)
    with Cons show ?case by (simp add: item_ok_def)
  qed simp
  then show "wf64 (order_total its)" by (simp add: order_total_def)
qed

context numeric_column
begin

lemma stored_item_ok: "stored_item numeric it it' \<Longrightarrow> item_ok it \<Longrightarrow> item_ok it'"
  using numeric_wf numeric_sign
  by (auto simp: stored_item_def item_ok_def item_error_def not_flt_zero split: if_splits)

lemma order_created_store_ok:
  assumes "order_created uuid_in numeric i a its t d d'" "store_ok uuid_in d" "its \<noteq> []" "\<forall>it \<in> set its. item_ok it"
  shows "store_ok uuid_in d'"
proof -
  obtain v y its' where c: "uuid_in i = Some i" "uuid_in a = Some v" "od_orders d i = None"
    "numeric (order_total its) = Some y" "list_all2 (stored_item numeric) its its'"
    "d' = d\<lparr>od_orders := (od_orders d)(i \<mapsto> \<lparr>or_user = v, or_status = ''PENDING'', or_total = y, or_created = t\<rparr>),
            od_items := (od_items d)(i := od_items d i + mset its')\<rparr>"
    using assms(1) by (auto simp: order_created_def)
  have "not_negative y" using numeric_sign [OF c(4)] item_ok_total [OF assms(4)] by blast
  moreover have "\<forall>it' \<in> set its'. item_ok it'"
    using c(5) assms(4) stored_item_ok by (fastforce simp: list_all2_conv_all_nth in_set_conv_nth)
  moreover have "its' \<noteq> []" using c(5) assms(3) by auto
  moreover have "od_items d i = {#}" using store_ok_slot [OF assms(2) c(3)] by simp
  ultimately show ?thesis using assms(2) c(1,2)
    by (auto simp: store_ok_def c(6) row_ok_def ran_def)
qed

end

lemma order_cancelled_store_ok: "store_ok uuid_in d \<Longrightarrow> store_ok uuid_in (order_cancelled u d)"
  unfolding store_ok_def
proof (intro allI)
  fix v assume "\<forall>u. slot_ok uuid_in u (od_orders d u) (od_items d u)"
  then have "slot_ok uuid_in v (od_orders d v) (od_items d v)" ..
  then show "slot_ok uuid_in v (od_orders (order_cancelled u d) v) (od_items (order_cancelled u d) v)"
    by (cases "v = u"; cases "od_orders d v") (auto simp: row_ok_def)
qed

section \<open>Messages over a well-typed store\<close>

lemma shows_order_ok:
  assumes "shows_order lossy uuid_in d i order" "store_ok uuid_in d"
  shows "order_ok order \<and> (Order_Items order = [] \<longrightarrow> lossy)"
proof -
  obtain u r its where s: "uuid_in i = Some u" "od_orders d u = Some r" "items_shown lossy its (od_items d u)"
    "order = \<lparr>Order_Id = i, Order_UserId = or_user r, Order_Items = map Some its, Order_Total = or_total r,
      Order_Status = parseOrderStatus (or_status r), Order_CreatedAt = Some (timestamppb_New (or_created r))\<rparr>"
    using assms(1) by (auto simp: shows_order_def)
  have t: "row_ok uuid_in r" "od_items d u \<noteq> {#}" "\<forall>it \<in># od_items d u. item_ok it"
    using store_ok_slot [OF assms(2) s(2)] by simp_all
  have "set its \<subseteq> set_mset (od_items d u)" using s(3) set_mset_mono [of "mset its"] by (simp add: items_shown_def)
  with t s show ?thesis by (auto simp: order_ok_def row_ok_def items_shown_def)
qed

lemma order_summary_ok:
  "store_ok uuid_in d \<Longrightarrow> od_orders d (fst x) = Some (snd x) \<Longrightarrow> order_ok (order_summary x)"
  using store_ok_slot [of uuid_in d "fst x"] by (auto simp: order_ok_def order_summary_def row_ok_def)

lemma created_order_ok:
  "\<forall>it \<in> set its. item_ok it \<Longrightarrow> order_ok (created_order i a its t)"
  using item_ok_total by (auto simp: order_ok_def created_order_def)

lemma valid_items_ok:
  assumes "valid_order req" "request_ok (CallCreateOrder req)" "CreateOrderRequest_Items req = map Some its"
  shows "its \<noteq> [] \<and> (\<forall>it \<in> set its. item_ok it)"
  using assms by (auto simp: valid_order_def item_ok_def inj_map_eq_map)

lemma page_of_subset: "set (page_of req xs) \<subseteq> set xs"
  by (auto simp: page_of_def split: prod.split dest: in_set_takeD in_set_dropD)

lemma listed_orders_ok:
  assumes "store_ok uuid_in d" "newest_first (listed uuid_in a d) xs"
    and "prefix orders (map order_summary (page_of req xs)) \<or> orders = map order_summary (page_of req xs)"
    and "order \<in> set orders"
  shows "order_ok order"
proof -
  have "order \<in> order_summary ` set xs"
    using assms(3,4) page_of_subset [of req xs] set_mono_prefix by fastforce
  then obtain x where x: "order = order_summary x" "x \<in> set xs" by blast
  with assms(2) have "od_orders d (fst x) = Some (snd x)" by (auto simp: newest_first_def listed_def)
  with assms(1) x(1) order_summary_ok show ?thesis by simp
qed

text \<open>Whatever the specification allows for a request keeps the types.\<close>

context numeric_column
begin

lemma created_store_ok:
  assumes "valid_order req" "request_ok (CallCreateOrder req)" "CreateOrderRequest_Items req = map Some its"
    and "order_created uuid_in numeric i a its t d d'" "store_ok uuid_in d"
  shows "store_ok uuid_in d'"
  using order_created_store_ok [OF assms(4,5)] valid_items_ok [OF assms(1-3)] by blast

lemma order_spec_typed:
  assumes "order_spec lossy uuid_in numeric d call reply d'" "store_ok uuid_in d" "request_ok call"
  shows "store_ok uuid_in d' \<and> (\<forall>rep. reply = Done (Inr rep) \<longrightarrow> reply_ok lossy rep) \<and> reply \<noteq> Panicked"
  using assms
proof (cases rule: order_spec.cases)
  case (create_failed req)
  then show ?thesis using assms(2,3) created_store_ok by blast
next
  case (create_ok req its i t)
  note its = valid_items_ok [OF create_ok(3) assms(3) [unfolded create_ok(1)] create_ok(4)]
  have "store_ok uuid_in d'" using assms(2,3) create_ok created_store_ok by blast
  then show ?thesis using its create_ok(2) created_order_ok by (auto simp: created_order_def)
next
  case (list_ok req xs orders n)
  have "prefix orders (map order_summary (page_of req xs)) \<or> orders = map order_summary (page_of req xs)"
    using list_ok(6) by blast
  with list_ok(5) have "\<forall>order \<in> set orders. order_ok order" using listed_orders_ok [OF assms(2)] by blast
  with list_ok(1-3) assms(2) show ?thesis by simp
next
  case (get_ok req order)
  then show ?thesis using assms(2) shows_order_ok by fastforce
next
  case (cancel_ok req u order)
  then show ?thesis using assms(2) shows_order_ok [OF cancel_ok(7)] order_cancelled_store_ok by fastforce
qed (auto intro: order_cancelled_store_ok)

end

interpretation mem_column: numeric_column mem_numeric
proof
  fix x y
  assume y: "mem_numeric x = Some y" and x: "wf64 x"
  then show "wf64 y" by (cases x) (auto simp: mem_numeric_def Let_def split: if_splits)
  have "\<lfloor>1 / 2 :: rat\<rfloor> = 0" by (simp add: floor_eq_iff)
  moreover assume "not_negative x"
  ultimately show "not_negative y" using y x
    by (cases x) (auto simp: mem_numeric_def Let_def split: if_splits intro!: not_negative_round64)
qed

section \<open>Type soundness\<close>

text \<open>
  (C14) Well-typed requests do not go wrong: over a store in which every order has a known status, a
  total that is not negative, a user's identifier and at least one item, and every item passes
  validation, and over a coherent cache, a call without nil items does not panic, leaves such a store,
  and answers, when it succeeds, with a complete message: no nil order, no nil item, no invalid item,
  no unspecified status, no missing time. An order without items is shown only where a broken row
  stream can lose them.
\<close>

theorem replies_well_typed:
  assumes "order_world env uuid_in numeric db pend lossy kv conn"
    and "numeric_column numeric"
    and "coherent lossy (env_js env) uuid_in (db w) (kv w)"
    and "store_ok uuid_in (db w)" "request_ok call"
    and "OrderService_dispatch env conn s c call w = (reply, w')"
  shows "store_ok uuid_in (db w') \<and> (\<forall>rep. reply = Done (Inr rep) \<longrightarrow> reply_ok lossy rep) \<and> reply \<noteq> Panicked"
  using numeric_column.order_spec_typed [OF assms(2) order_world.order_dispatch_refines [OF assms(1,6,3)] assms(4,5)] .

theorem replies_well_typed_witness:
  "\<exists>resp. fst (OrderService_dispatch (mem_env False False) mem_conn mem_order_server Background (CallCreateOrder an_order) shop) =
       Done (Inr (ReplyCreateOrder resp)) \<and>
     reply_ok False (ReplyCreateOrder resp) \<and>
     store_ok mem_uuid_in (mem_db (snd (OrderService_dispatch (mem_env False False) mem_conn mem_order_server
       Background (CallCreateOrder an_order) shop)))"
proof -
  let ?d = "OrderService_dispatch (mem_env False False) mem_conn mem_order_server Background (CallCreateOrder an_order) shop"
  have "case fst ?d of Done (Inr (ReplyCreateOrder _)) \<Rightarrow> True | _ \<Rightarrow> False" by code_simp
  then obtain resp where resp: "fst ?d = Done (Inr (ReplyCreateOrder resp))"
    by (auto split: outcome.splits sum.splits order_reply.splits)
  then have run: "?d = (Done (Inr (ReplyCreateOrder resp)), snd ?d)" by (metis prod.collapse)
  have "coherent False (env_js (mem_env False False)) mem_uuid_in (mem_db shop) (mem_kv shop)"
    using order_inv_empty by (simp add: order_inv_def shop_def mem_kv_def)
  moreover have "store_ok mem_uuid_in (mem_db shop)"
    by (simp add: store_ok_def mem_db_def shop_def)
  moreover have "request_ok (CallCreateOrder an_order)" by (simp add: an_order_def an_item_def)
  ultimately show ?thesis
    using replies_well_typed [OF mo.order_world_axioms mem_column.numeric_column_axioms _ _ _ run] resp by blast
qed

end
