(* ===== verification/MigrateReplicas.thy ===== *)
theory MigrateReplicas
  imports MemMigrations
begin

text \<open>
  Several replicas of a service start at the same time, and each runs the migrations of
  \<open>src/db/migrations/embed.go\<close> against the one database. \<open>Up\<close> is taken apart into the calls it makes;
  a schedule says whose next call is carried out. Between the look at \<open>schema_migrations\<close> and the
  commit another replica may have applied the same migration: what keeps it from being applied
  twice is the primary key of that table, and nothing in the code.
\<close>

section \<open>\<open>Up\<close>, call by call\<close>

datatype mig_pc = MigCreate | MigCheck "string list" | MigBegin string string "string list"
  | MigScript txref string string "string list" | MigRecord txref string "string list"
  | MigCommit txref string "string list" | MigDone "go_error option"

fun mig_step :: "'w pgx \<Rightarrow> embed_fs \<Rightarrow> ctx \<Rightarrow> poolref \<Rightarrow> mig_pc \<times> 'w \<Rightarrow> mig_pc \<times> 'w" where
  "mig_step drv fs c pool (MigCreate, w) =
     (case pool_Exec drv pool c sql_create_migrations [] w of
        (Inl err, w') \<Rightarrow> (MigDone (Some (''create schema_migrations table: '' @ err)), w')
      | (Inr _, w') \<Rightarrow> (MigCheck (up_migrations fs), w'))"
| "mig_step drv fs c pool (MigCheck [], w) = (MigDone None, w)"
| "mig_step drv fs c pool (MigCheck (e # es), w) =
     (case pool_QueryRow drv pool c sql_count_migration [SStr e] w of
        (Inl err, w1) \<Rightarrow> (MigDone (Some (''check migration '' @ e @ '': '' @ err)), w1)
      | (Inr rw, w1) \<Rightarrow>
          (case scan_int rw of
             None \<Rightarrow> (MigDone (Some (''check migration '' @ e @ '': '' @ scan_error drv rw)), w1)
           | Some count \<Rightarrow>
               (if 0 < sint count then (MigCheck es, w1)
                else case map_of fs e of
                  None \<Rightarrow> (MigDone (Some (''read migration '' @ e @ '': open '' @ e @ '': file does not exist'')), w1)
                | Some sql \<Rightarrow> (MigBegin e sql es, w1))))"
| "mig_step drv fs c pool (MigBegin e sql es, w) =
     (case pool_Begin drv pool c w of
        (Inl err, w1) \<Rightarrow> (MigDone (Some (''begin tx for '' @ e @ '': '' @ err)), w1)
      | (Inr tx, w1) \<Rightarrow> (MigScript tx e sql es, w1))"
| "mig_step drv fs c pool (MigScript tx e sql es, w) =
     (case tx_Exec drv tx c sql [] w of
        (Inl err, w1) \<Rightarrow> (MigDone (Some (''apply migration '' @ e @ '': '' @ err)), tx_Rollback drv tx c w1)
      | (Inr _, w1) \<Rightarrow> (MigRecord tx e es, w1))"
| "mig_step drv fs c pool (MigRecord tx e es, w) =
     (case tx_Exec drv tx c sql_record_migration [SStr e] w of
        (Inl err, w1) \<Rightarrow> (MigDone (Some (''record migration '' @ e @ '': '' @ err)), tx_Rollback drv tx c w1)
      | (Inr _, w1) \<Rightarrow> (MigCommit tx e es, w1))"
| "mig_step drv fs c pool (MigCommit tx e es, w) =
     (case tx_Commit drv tx c w of
        (Some err, w1) \<Rightarrow> (MigDone (Some (''commit migration '' @ e @ '': '' @ err)), w1)
      | (None, w1) \<Rightarrow> (MigCheck es, w1))"
| "mig_step drv fs c pool (MigDone res, w) = (MigDone res, w)"

text \<open>A replica that is alone does what \<open>Up\<close> does.\<close>

lemma mig_step_tx:
  "(mig_step drv fs c pool ^^ 3) (MigScript tx e sql es, w) =
     (case migrate_tx drv c e sql tx w of (Some err, w') \<Rightarrow> (MigDone (Some err), w') | (None, w') \<Rightarrow> (MigCheck es, w'))"
  by (auto simp: migrate_tx_def eval_nat_numeral split: prod.split sum.split option.split)

lemma mig_step_round:
  "\<exists>n. (mig_step drv fs c pool ^^ n) (MigCheck (e # es), w) =
     (case migrate_one drv fs c pool e w of (Some err, w') \<Rightarrow> (MigDone (Some err), w') | (None, w') \<Rightarrow> (MigCheck es, w'))"
proof -
  let ?f = "mig_step drv fs c pool"
  obtain q w1 where q: "pool_QueryRow drv pool c sql_count_migration [SStr e] w = (q, w1)" by fastforce
  obtain b w2 where b: "pool_Begin drv pool c w1 = (b, w2)" by fastforce
  show ?thesis
  proof (cases "\<exists>rw n sql tx. q = Inr rw \<and> scan_int rw = Some n \<and> \<not> 0 < sint n \<and> map_of fs e = Some sql \<and> b = Inr tx")
    case True
    then obtain rw n sql tx where t: "q = Inr rw" "scan_int rw = Some n" "\<not> 0 < sint n" "map_of fs e = Some sql" "b = Inr tx"
      by blast
    have "(?f ^^ (3 + 2)) (MigCheck (e # es), w) = (?f ^^ 3) ((?f ^^ 2) (MigCheck (e # es), w))"
      by (simp only: funpow_add comp_apply)
    also have "(?f ^^ 2) (MigCheck (e # es), w) = (MigScript tx e sql es, w2)"
      using q b t by (simp add: eval_nat_numeral)
    finally show ?thesis unfolding mig_step_tx using q b t
      by (intro exI [of _ "3 + 2"]) (simp add: migrate_one_def)
  next
    case False
    with q b have "(?f ^^ (if \<exists>rw n sql. q = Inr rw \<and> scan_int rw = Some n \<and> \<not> 0 < sint n \<and> map_of fs e = Some sql then 2 else 1))
        (MigCheck (e # es), w) =
      (case migrate_one drv fs c pool e w of (Some err, w') \<Rightarrow> (MigDone (Some err), w') | (None, w') \<Rightarrow> (MigCheck es, w'))"
      by (auto simp: migrate_one_def eval_nat_numeral split: sum.splits option.splits)
    then show ?thesis by blast
  qed
qed

lemma mig_step_all: "\<exists>n. (mig_step drv fs c pool ^^ n) (MigCheck es, w) = apfst MigDone (migrate_all drv fs c pool es w)"
proof (induction es arbitrary: w)
  case Nil
  show ?case by (intro exI [of _ 1]) simp
next
  case (Cons e es)
  obtain n where n: "(mig_step drv fs c pool ^^ n) (MigCheck (e # es), w) =
     (case migrate_one drv fs c pool e w of (Some err, w') \<Rightarrow> (MigDone (Some err), w') | (None, w') \<Rightarrow> (MigCheck es, w'))"
    using mig_step_round [of drv fs c pool e es w] by blast
  obtain q w1 where q: "migrate_one drv fs c pool e w = (q, w1)" by fastforce
  show ?case
  proof (cases q)
    case None
    obtain m where "(mig_step drv fs c pool ^^ m) (MigCheck es, w1) = apfst MigDone (migrate_all drv fs c pool es w1)"
      using Cons.IH [of w1] by blast
    with n q None show ?thesis by (intro exI [of _ "m + n"]) (simp add: funpow_add)
  next
    case (Some err)
    with n q show ?thesis by (intro exI [of _ n]) simp
  qed
qed

lemma mig_alone: "\<exists>n. (mig_step drv fs c pool ^^ n) (MigCreate, w) = apfst MigDone (migrations_Up drv fs c pool w)"
proof (cases "pool_Exec drv pool c sql_create_migrations [] w")
  case (Pair q w1)
  show ?thesis
  proof (cases q)
    case (Inl err)
    with Pair show ?thesis by (intro exI [of _ 1]) (simp add: migrations_Up_def)
  next
    case (Inr k)
    obtain n where "(mig_step drv fs c pool ^^ n) (MigCheck (up_migrations fs), w1) =
        apfst MigDone (migrate_all drv fs c pool (up_migrations fs) w1)"
      using mig_step_all [of drv fs c pool "up_migrations fs" w1] by blast
    with Pair Inr show ?thesis
      by (intro exI [of _ "Suc n"]) (simp add: migrations_Up_def funpow_Suc_right del: funpow.simps)
  qed
qed

section \<open>Replicas\<close>

text \<open>One program point for each replica, each with its own pool, over one database.\<close>

definition replica_move ::
  "'w pgx \<Rightarrow> embed_fs \<Rightarrow> ctx \<Rightarrow> (nat \<Rightarrow> poolref) \<Rightarrow> nat \<Rightarrow> mig_pc list \<times> 'w \<Rightarrow> mig_pc list \<times> 'w" where
  "replica_move drv fs c pools k x =
     (case x of (pcs, w) \<Rightarrow>
        if k < length pcs
        then (case mig_step drv fs c (pools k) (pcs ! k, w) of (pc', w') \<Rightarrow> (pcs[k := pc'], w'))
        else (pcs, w))"

definition replica_run ::
  "'w pgx \<Rightarrow> embed_fs \<Rightarrow> ctx \<Rightarrow> (nat \<Rightarrow> poolref) \<Rightarrow> nat list \<Rightarrow> mig_pc list \<times> 'w \<Rightarrow> mig_pc list \<times> 'w" where
  "replica_run drv fs c pools sched = fold (replica_move drv fs c pools) sched"

text \<open>
  What replicas rely on besides: a new transaction is nobody else's, no call touches the transaction
  of another connection, and the primary key of \<open>schema_migrations\<close> refuses a second row for a file.
\<close>

locale shared_migrations = pg_migrations drv mig_log mig_tx
  for drv :: "'w pgx" and mig_log and mig_tx +
  assumes create_tx: "mig_tx (snd (pool_Exec drv p c sql_create_migrations [] w)) t = mig_tx w t"
    and count_tx: "mig_tx (snd (pool_QueryRow drv p c sql_count_migration [SStr f] w)) t = mig_tx w t"
    and begin_fresh: "pool_Begin drv p c w = (Inr t, w') \<Longrightarrow> mig_tx w t = None"
    and begin_other: "mig_tx w t = Some l \<Longrightarrow> mig_tx (snd (pool_Begin drv p c w)) t = Some l"
    and exec_other: "t \<noteq> t' \<Longrightarrow> mig_tx (snd (tx_Exec drv t' c s a w)) t = mig_tx w t"
    and rollback_other: "t \<noteq> t' \<Longrightarrow> mig_tx (tx_Rollback drv t' c w) t = mig_tx w t"
    and commit_other: "t \<noteq> t' \<Longrightarrow> mig_tx (snd (tx_Commit drv t' c w)) t = mig_tx w t"
    and primary_key: "mig_tx w t = Some l \<Longrightarrow> mig_log (snd (tx_Commit drv t c w)) = mig_log w @ l \<Longrightarrow>
      (sql_record_migration, a) \<in> set l \<Longrightarrow> (sql_record_migration, a) \<notin> set (mig_log w)"

text \<open>The transaction that a program point has open, and what it holds.\<close>

fun tx_of :: "mig_pc \<Rightarrow> txref option" where
  "tx_of (MigScript tx e sql es) = Some tx"
| "tx_of (MigRecord tx e es) = Some tx"
| "tx_of (MigCommit tx e es) = Some tx"
| "tx_of _ = None"

text \<open>The next pending migration: what precedes it in a prefix of the pending ones is all of the prefix.\<close>

lemma prefix_up_to:
  assumes "prefix ds (as @ e # bs)" "set as \<subseteq> set ds" "e \<notin> set ds" "distinct (as @ e # bs)"
  shows "ds = as"
proof -
  have "prefix ds as"
  proof (rule ccontr)
    assume n: "\<not> prefix ds as"
    with assms(1) obtain cs where "ds = as @ cs" "prefix cs (e # bs)" by (auto simp: prefix_append)
    with n assms(3) show False by (cases cs) auto
  qed
  then obtain xs where "as = ds @ xs" by (auto simp: prefix_def)
  with assms(2,4) show ?thesis by (cases xs) auto
qed

context shared_migrations
begin

fun mig_pc_ok :: "embed_fs \<Rightarrow> 'w \<Rightarrow> mig_pc \<Rightarrow> bool" where
  "mig_pc_ok fs w MigCreate \<longleftrightarrow> True"
| "mig_pc_ok fs w (MigCheck es) \<longleftrightarrow>
     (\<exists>pre. up_migrations fs = pre @ es \<and> (\<forall>e \<in> set pre. recorded (mig_log w) e))"
| "mig_pc_ok fs w (MigBegin e sql es) \<longleftrightarrow> map_of fs e = Some sql \<and>
     (\<exists>pre. up_migrations fs = pre @ e # es \<and> (\<forall>e \<in> set pre. recorded (mig_log w) e))"
| "mig_pc_ok fs w (MigScript tx e sql es) \<longleftrightarrow> map_of fs e = Some sql \<and> mig_tx w tx = Some [] \<and>
     (\<exists>pre. up_migrations fs = pre @ e # es \<and> (\<forall>e \<in> set pre. recorded (mig_log w) e))"
| "mig_pc_ok fs w (MigRecord tx e es) \<longleftrightarrow> mig_tx w tx = Some [(the (map_of fs e), [])] \<and>
     (\<exists>pre. up_migrations fs = pre @ e # es \<and> (\<forall>e \<in> set pre. recorded (mig_log w) e))"
| "mig_pc_ok fs w (MigCommit tx e es) \<longleftrightarrow> mig_tx w tx = Some (mig_block fs e) \<and>
     (\<exists>pre. up_migrations fs = pre @ e # es \<and> (\<forall>e \<in> set pre. recorded (mig_log w) e))"
| "mig_pc_ok fs w (MigDone res) \<longleftrightarrow> (res = None \<longrightarrow> (\<forall>e \<in> set (up_migrations fs). recorded (mig_log w) e))"

text \<open>A replica is not disturbed by another one that leaves its transaction alone and only adds to the log.\<close>

lemma mig_pc_ok_other:
  assumes "mig_pc_ok fs w pc" "\<And>e. recorded (mig_log w) e \<Longrightarrow> recorded (mig_log w') e"
    and "\<And>t. tx_of pc = Some t \<Longrightarrow> mig_tx w' t = mig_tx w t"
  shows "mig_pc_ok fs w' pc"
  using assms by (cases pc) fastforce+

text \<open>What one call of one replica may do.\<close>

definition mig_good :: "embed_fs \<Rightarrow> (string \<times> sqlval list) list \<Rightarrow> mig_pc \<Rightarrow> 'w \<Rightarrow> mig_pc \<Rightarrow> 'w \<Rightarrow> bool" where
  "mig_good fs lg0 pc w pc' w' \<longleftrightarrow> mig_pc_ok fs w' pc' \<and>
     (\<exists>ds. prefix ds (pending_migrations fs lg0) \<and> mig_log w' = lg0 @ concat (map (mig_block fs) ds)) \<and>
     (\<forall>e. recorded (mig_log w) e \<longrightarrow> recorded (mig_log w') e) \<and>
     (\<forall>t l. mig_tx w t = Some l \<longrightarrow> tx_of pc \<noteq> Some t \<longrightarrow> mig_tx w' t = Some l \<and> tx_of pc' \<noteq> Some t)"

lemma mig_good_same_log:
  assumes "\<exists>ds. prefix ds (pending_migrations fs lg0) \<and> mig_log w = lg0 @ concat (map (mig_block fs) ds)"
    and "mig_log w' = mig_log w" "mig_pc_ok fs w' pc'"
    and "\<And>t l. mig_tx w t = Some l \<Longrightarrow> tx_of pc \<noteq> Some t \<Longrightarrow> mig_tx w' t = Some l \<and> tx_of pc' \<noteq> Some t"
  shows "mig_good fs lg0 pc w pc' w'"
  using assms by (auto simp: mig_good_def)

lemma mig_commit_good:
  assumes "tx_Commit drv tx c w = (q, w')" "mig_pc_ok fs w (MigCommit tx e es)"
    and log: "\<exists>ds. prefix ds (pending_migrations fs lg0) \<and> mig_log w = lg0 @ concat (map (mig_block fs) ds)"
    and "distinct (map fst fs)"
  shows "(\<exists>ds. prefix ds (pending_migrations fs lg0) \<and> mig_log w' = lg0 @ concat (map (mig_block fs) ds)) \<and>
    (\<forall>x. recorded (mig_log w) x \<longrightarrow> recorded (mig_log w') x) \<and> (q = None \<longrightarrow> recorded (mig_log w') e)"
proof -
  obtain pre where tx: "mig_tx w tx = Some (mig_block fs e)" and pre: "up_migrations fs = pre @ e # es"
    "\<forall>e \<in> set pre. recorded (mig_log w) e" using assms(2) by auto
  obtain ds where ds: "prefix ds (pending_migrations fs lg0)" "mig_log w = lg0 @ concat (map (mig_block fs) ds)" using log by blast
  have eff: "mig_log w' = mig_log w \<and> q \<noteq> None \<or> mig_log w' = mig_log w @ mig_block fs e"
    using commit_log [OF tx, of c w'] commit_error [OF tx, of c _ w'] assms(1) by (cases q) auto
  then show ?thesis
  proof
    assume l: "mig_log w' = mig_log w @ mig_block fs e"
    have "\<not> recorded (mig_log w) e"
      using primary_key [OF tx, of c "[SStr e]"] assms(1) l by (simp add: recorded_def mig_block_def)
    then have new: "\<not> recorded lg0 e" "e \<notin> set ds" using ds(2) by simp_all
    let ?as = "filter (\<lambda>e. \<not> recorded lg0 e) pre" and ?bs = "filter (\<lambda>e. \<not> recorded lg0 e) es"
    have pend: "pending_migrations fs lg0 = ?as @ e # ?bs" using pre(1) new(1) by (simp add: pending_migrations_def)
    have "distinct (pending_migrations fs lg0)"
      using assms(4) by (simp add: pending_migrations_def up_migrations_def sort_Strings_def glob_up_def)
    then have "ds = ?as" using prefix_up_to [of ds ?as e ?bs] ds pre(2) new(2) pend by auto
    then have "prefix (ds @ [e]) (pending_migrations fs lg0)" using pend by simp
    with ds(2) l show ?thesis by (intro conjI exI [of _ "ds @ [e]"]) simp_all
  qed (use log in auto)
qed

lemma mig_step_good:
  assumes run: "mig_step drv fs c p (pc, w) = (pc', w')" and ok: "mig_pc_ok fs w pc"
    and log: "\<exists>ds. prefix ds (pending_migrations fs lg0) \<and> mig_log w = lg0 @ concat (map (mig_block fs) ds)"
    and fs: "distinct (map fst fs)"
  shows "mig_good fs lg0 pc w pc' w'"
proof (cases pc)
  case MigCreate
  have "mig_log w' = mig_log w" "mig_tx w' t = mig_tx w t" "mig_pc_ok fs w' pc'" "tx_of pc' = None" for t
    using run MigCreate create_keeps [of p c w] create_tx [of p c w]
    by (auto split: prod.splits sum.splits)
  then show ?thesis by (intro mig_good_same_log [OF log]) simp_all
next
  case (MigCheck es)
  show ?thesis
  proof (cases es)
    case Nil
    with run MigCheck ok log show ?thesis by (auto simp: mig_good_def)
  next
    case (Cons e es')
    obtain q w1 where q: "pool_QueryRow drv p c sql_count_migration [SStr e] w = (q, w1)" by fastforce
    have w1: "w' = w1" using run MigCheck Cons q by (auto split: sum.splits option.splits if_splits)
    have keeps: "mig_log w' = mig_log w" "\<And>t. mig_tx w' t = mig_tx w t" "tx_of pc' = None"
      using count_keeps [of p c e w] count_tx [of p c e w] run MigCheck Cons q w1
      by (auto split: sum.splits option.splits if_splits)
    obtain pre where pre: "up_migrations fs = pre @ e # es'" "\<forall>e \<in> set pre. recorded (mig_log w) e"
      using ok MigCheck Cons by auto
    have rest: "up_migrations fs = (pre @ [e]) @ es'" using pre(1) by simp
    have "mig_pc_ok fs w' pc'"
      using run MigCheck Cons q pre keeps(1) count_row [of p c e w] rest
      by (auto simp: recorded_def split: sum.splits option.splits if_splits intro!: exI [of _ "pre @ [e]"])
    with keeps show ?thesis by (intro mig_good_same_log [OF log]) simp_all
  qed
next
  case (MigBegin e sql es)
  obtain q w1 where q: "pool_Begin drv p c w = (q, w1)" by fastforce
  have w1: "w' = w1" using run MigBegin q by (auto split: sum.splits)
  have l: "mig_log w' = mig_log w" using begin_keeps [of p c w] q w1 by simp
  have "mig_pc_ok fs w' pc'" using run MigBegin q ok l begin_tx [of p c w] w1 by (auto split: sum.splits)
  moreover have "mig_tx w' t = Some k \<and> tx_of pc' \<noteq> Some t" if "mig_tx w t = Some k" for t k
    using begin_other [OF that, of p c] begin_fresh [of p c w _ w1] q w1 run MigBegin that
    by (auto split: sum.splits)
  ultimately show ?thesis using l by (intro mig_good_same_log [OF log]) simp_all
next
  case (MigScript tx e sql es)
  obtain q w1 where q: "tx_Exec drv tx c sql [] w = (q, w1)" by fastforce
  have l: "mig_log w1 = mig_log w" using exec_keeps [of tx c sql "[]" w] q by simp
  have l': "mig_log w' = mig_log w" using run MigScript q l rollback_keeps by (auto split: sum.splits)
  have "mig_pc_ok fs w' pc'" using run MigScript q ok l exec_tx [of w tx "[]" c sql "[]"] by (auto split: sum.splits)
  moreover have "mig_tx w' t = Some k \<and> tx_of pc' \<noteq> Some t" if "mig_tx w t = Some k" "tx_of pc \<noteq> Some t" for t k
    using exec_other [of t tx c sql "[]" w] rollback_other [of t tx c w1] run MigScript q that by (auto split: sum.splits)
  ultimately show ?thesis using l' by (intro mig_good_same_log [OF log]) simp_all
next
  case (MigRecord tx e es)
  obtain q w1 where q: "tx_Exec drv tx c sql_record_migration [SStr e] w = (q, w1)" by fastforce
  have l: "mig_log w1 = mig_log w" using exec_keeps [of tx c sql_record_migration "[SStr e]" w] q by simp
  have l': "mig_log w' = mig_log w" using run MigRecord q l rollback_keeps by (auto split: sum.splits)
  have "mig_pc_ok fs w' pc'"
    using run MigRecord q ok l exec_tx [of w tx "[(the (map_of fs e), [])]" c sql_record_migration "[SStr e]"]
    by (auto simp: mig_block_def split: sum.splits)
  moreover have "mig_tx w' t = Some k \<and> tx_of pc' \<noteq> Some t" if "mig_tx w t = Some k" "tx_of pc \<noteq> Some t" for t k
    using exec_other [of t tx c sql_record_migration "[SStr e]" w] rollback_other [of t tx c w1] run MigRecord q that
    by (auto split: sum.splits)
  ultimately show ?thesis using l' by (intro mig_good_same_log [OF log]) simp_all
next
  case (MigCommit tx e es)
  obtain q w1 where q: "tx_Commit drv tx c w = (q, w1)" by fastforce
  have w1: "w' = w1" using run MigCommit q by (auto split: option.splits)
  note good = mig_commit_good [OF q [folded w1] ok [unfolded MigCommit] log fs]
  obtain pre where pre: "up_migrations fs = pre @ e # es" "\<forall>e \<in> set pre. recorded (mig_log w) e"
    using ok MigCommit by auto
  have "up_migrations fs = (pre @ [e]) @ es" using pre(1) by simp
  then have "mig_pc_ok fs w' pc'" using run MigCommit q good pre(2)
    by (auto split: option.splits intro!: exI [of _ "pre @ [e]"])
  moreover have "mig_tx w' t = Some k \<and> tx_of pc' \<noteq> Some t" if "mig_tx w t = Some k" "tx_of pc \<noteq> Some t" for t k
    using commit_other [of t tx c w] run MigCommit q that by (auto split: option.splits)
  ultimately show ?thesis using good by (auto simp: mig_good_def)
next
  case (MigDone res)
  with run ok log show ?thesis by (auto simp: mig_good_def)
qed

definition replicas_ok :: "embed_fs \<Rightarrow> (string \<times> sqlval list) list \<Rightarrow> mig_pc list \<times> 'w \<Rightarrow> bool" where
  "replicas_ok fs lg0 x \<longleftrightarrow>
     (\<exists>ds. prefix ds (pending_migrations fs lg0) \<and> mig_log (snd x) = lg0 @ concat (map (mig_block fs) ds)) \<and>
     (\<forall>i < length (fst x). mig_pc_ok fs (snd x) (fst x ! i)) \<and>
     (\<forall>i < length (fst x). \<forall>j < length (fst x). \<forall>t. i \<noteq> j \<longrightarrow> tx_of (fst x ! i) = Some t \<longrightarrow> tx_of (fst x ! j) \<noteq> Some t)"

lemma mig_pc_ok_open: "mig_pc_ok fs w pc \<Longrightarrow> tx_of pc = Some t \<Longrightarrow> \<exists>l. mig_tx w t = Some l"
  by (cases pc) auto

lemma replica_move_ok:
  assumes "replicas_ok fs lg0 x" "distinct (map fst fs)"
  shows "replicas_ok fs lg0 (replica_move drv fs c pools k x)"
proof -
  obtain pcs w where x: "x = (pcs, w)" by (cases x)
  show ?thesis
  proof (cases "k < length pcs")
    case True
    obtain pc' w' where st: "mig_step drv fs c (pools k) (pcs ! k, w) = (pc', w')" by fastforce
    have inv: "\<exists>ds. prefix ds (pending_migrations fs lg0) \<and> mig_log w = lg0 @ concat (map (mig_block fs) ds)"
      "\<And>i. i < length pcs \<Longrightarrow> mig_pc_ok fs w (pcs ! i)"
      "\<And>i j t. i < length pcs \<Longrightarrow> j < length pcs \<Longrightarrow> i \<noteq> j \<Longrightarrow> tx_of (pcs ! i) = Some t \<Longrightarrow> tx_of (pcs ! j) \<noteq> Some t"
      using assms(1) by (auto simp: replicas_ok_def x)
    from mig_step_good [OF st inv(2) [OF True] inv(1) assms(2)] have good: "mig_good fs lg0 (pcs ! k) w pc' w'" .
    have others: "mig_pc_ok fs w' (pcs ! i) \<and> (\<forall>t. tx_of (pcs ! i) = Some t \<longrightarrow> tx_of pc' \<noteq> Some t)"
      if i: "i < length pcs" "i \<noteq> k" for i
    proof -
      have "mig_tx w' t = mig_tx w t \<and> tx_of pc' \<noteq> Some t" if t: "tx_of (pcs ! i) = Some t" for t
        using mig_pc_ok_open [OF inv(2) [OF i(1)] t] inv(3) [OF i(1) True i(2) t] good unfolding mig_good_def by metis
      moreover have "\<And>e. recorded (mig_log w) e \<Longrightarrow> recorded (mig_log w') e" using good by (simp add: mig_good_def)
      ultimately show ?thesis using mig_pc_ok_other [OF inv(2) [OF i(1)], of w'] by blast
    qed
    have move: "replica_move drv fs c pools k x = (pcs[k := pc'], w')" using True by (simp add: replica_move_def x st)
    show ?thesis unfolding move replicas_ok_def fst_conv snd_conv
    proof (intro conjI allI impI)
      show "\<exists>ds. prefix ds (pending_migrations fs lg0) \<and> mig_log w' = lg0 @ concat (map (mig_block fs) ds)"
        using good by (simp add: mig_good_def)
    next
      fix i assume "i < length (pcs[k := pc'])"
      then show "mig_pc_ok fs w' (pcs[k := pc'] ! i)"
        using good others [of i] by (cases "i = k") (simp_all add: mig_good_def)
    next
      fix i j t
      assume "i < length (pcs[k := pc'])" "j < length (pcs[k := pc'])" "i \<noteq> j" "tx_of (pcs[k := pc'] ! i) = Some t"
      then show "tx_of (pcs[k := pc'] ! j) \<noteq> Some t"
        using others [of i] others [of j] inv(3) [of i j t] True by (cases "i = k"; cases "j = k") auto
    qed
  qed (use assms in \<open>simp add: x replica_move_def\<close>)
qed

lemma replica_run_ok:
  assumes "replicas_ok fs lg0 x" "distinct (map fst fs)"
  shows "replicas_ok fs lg0 (replica_run drv fs c pools sched x)"
  using assms(1) unfolding replica_run_def
  by (induction sched arbitrary: x) (simp_all add: replica_move_ok [OF _ assms(2)])

lemma replicas_start: "replicas_ok fs (mig_log w) (replicate n MigCreate, w)"
  by (auto simp: replicas_ok_def intro!: exI [of _ "[]"])

end

section \<open>An executable database with the primary key\<close>

definition pk_Begin :: "poolref \<Rightarrow> ctx \<Rightarrow> mem_mig \<Rightarrow> (go_error + txref) \<times> mem_mig" where
  "pk_Begin p c w =
     (if map_of (mm_txs w) (mm_next w) = None then mm_Begin p c w else (Inl ''too many transactions'', mm_tick w))"

definition pk_Commit :: "txref \<Rightarrow> ctx \<Rightarrow> mem_mig \<Rightarrow> go_error option \<times> mem_mig" where
  "pk_Commit t c w =
     (case map_of (mm_txs w) t of
        None \<Rightarrow> mm_Commit t c w
      | Some l \<Rightarrow>
          (if list_ex (\<lambda>(s, a). s = sql_record_migration \<and> (s, a) \<in> set (mm_log w)) l
           then (Some ''duplicate key value violates unique constraint'', mm_tick w)
           else mm_Commit t c w))"

definition mem_pk_drv :: "mem_mig pgx" where
  "mem_pk_drv = mem_mig_drv\<lparr>pool_Begin := pk_Begin, tx_Commit := pk_Commit\<rparr>"

lemma mem_pk_drv_simps [simp]:
  "pool_QueryRow mem_pk_drv = mm_QueryRow" "pool_Exec mem_pk_drv = mm_Exec" "pool_Begin mem_pk_drv = pk_Begin"
  "tx_Exec mem_pk_drv = mm_txExec" "tx_Commit mem_pk_drv = pk_Commit" "tx_Rollback mem_pk_drv = mm_Rollback"
  by (simp_all add: mem_pk_drv_def)

interpretation pk: shared_migrations mem_pk_drv mm_log mm_tx
  by unfold_locales
    (auto simp: mm_defs pk_Begin_def pk_Commit_def list_ex_iff split: if_splits option.splits fault.splits)

section \<open>Replicas share the work\<close>

text \<open>
  (C30) However many replicas migrate at once and however their calls interleave and fail: the
  transactions that have been committed are those of the first pending migrations, each once and in
  the order of the file names, script and record together; and when a replica has finished without an
  error, all of them are there. A replica that loses the race for a migration stops with an error.
\<close>

theorem replicas_migrate_once:
  assumes "shared_migrations drv lg tx"
    and "replica_run drv migrationsFS c pools sched (replicate n MigCreate, w) = (pcs, w')"
  shows "\<exists>ds. prefix ds (pending_migrations migrationsFS (lg w)) \<and>
    lg w' = lg w @ concat (map (mig_block migrationsFS) ds) \<and>
    (MigDone None \<in> set pcs \<longrightarrow> ds = pending_migrations migrationsFS (lg w))"
proof -
  have "shared_migrations.replicas_ok lg tx migrationsFS (lg w) (pcs, w')"
    using shared_migrations.replica_run_ok [OF assms(1) shared_migrations.replicas_start [OF assms(1)] distinct_migrationsFS]
    unfolding assms(2) [symmetric] .
  then obtain ds where ds: "prefix ds (pending_migrations migrationsFS (lg w))"
      "lg w' = lg w @ concat (map (mig_block migrationsFS) ds)"
    and pcs: "\<And>pc. pc \<in> set pcs \<Longrightarrow> shared_migrations.mig_pc_ok lg tx migrationsFS w' pc"
    unfolding shared_migrations.replicas_ok_def [OF assms(1)] by (auto simp: in_set_conv_nth)
  have "ds = pending_migrations migrationsFS (lg w)" if "MigDone None \<in> set pcs"
  proof -
    have "set (pending_migrations migrationsFS (lg w)) \<subseteq> set ds"
      using pcs [OF that] ds(2) shared_migrations.mig_pc_ok.simps(7) [OF assms(1)] by (auto simp: pending_migrations_def)
    moreover have "distinct (pending_migrations migrationsFS (lg w))"
      using distinct_migrationsFS by (simp add: pending_migrations_def up_migrations_def sort_Strings_def glob_up_def)
    moreover obtain es where "pending_migrations migrationsFS (lg w) = ds @ es" using ds(1) by (auto simp: prefix_def)
    ultimately show ?thesis by (cases es) auto
  qed
  with ds show ?thesis by blast
qed

text \<open>
  Both replicas see that the first migration is missing; the first one commits it, the second one
  fails, and the first one goes on to the end.
\<close>

definition replica_sched :: "nat list" where
  "replica_sched = [0, 1, 0, 1, 0, 0, 0, 0, 1, 1, 1, 1] @ replicate 16 0"

theorem replicas_migrate_once_witness:
  "let x = replica_run mem_pk_drv migrationsFS Background Some replica_sched
         (replicate 2 MigCreate, \<lparr>mm_log = [], mm_txs = [], mm_next = 0, mm_faults = []\<rparr>)
   in fst x = [MigDone None, MigDone (Some (''commit migration 000001_create_users.up.sql: duplicate key value violates unique constraint''))] \<and>
      mm_log (snd x) = concat (map (mig_block migrationsFS) (up_migrations migrationsFS))"
proof -
  let ?w = "\<lparr>mm_log = [], mm_txs = [], mm_next = 0, mm_faults = []\<rparr>"
  let ?x = "replica_run mem_pk_drv migrationsFS Background Some replica_sched (replicate 2 MigCreate, ?w)"
  have f: "fst ?x = [MigDone None, MigDone (Some (''commit migration 000001_create_users.up.sql: duplicate key value violates unique constraint''))]"
    by code_simp
  obtain pcs w' where x: "?x = (pcs, w')" by fastforce
  with f have "MigDone None \<in> set pcs" by simp
  with replicas_migrate_once [OF pk.shared_migrations_axioms x]
  have "mm_log w' = concat (map (mig_block migrationsFS) (pending_migrations migrationsFS []))" by auto
  with f x show ?thesis by (simp add: Let_def pending_migrations_def recorded_def)
qed

end
